(* ===== verification/Prelude.thy ===== *)
theory Prelude
  imports Main "HOL-Library.Word"
begin

text \<open>
  Shared vocabulary of the development: the types that name the values of the control
  plane (identifiers, timestamps), the row operations that stand for the SQL statements
  every repository issues (select by key, update one row, delete by key), the interface
  \<open>keyed_table\<close> those row operations implement, and the theorem collections the
  component theories extend.
\<close>

section \<open>Names for the values of the program\<close>

text \<open>
  A PostgreSQL \<open>uuid\<close> is compared byte by byte, which is the unsigned order of its 128
  bits. A timestamp is the number of microseconds since the Unix epoch, in UTC: both
  Python's \<open>datetime\<close> and PostgreSQL's \<open>timestamptz\<close> have microsecond resolution.
\<close>

type_synonym uuid = "128 word"
type_synonym datetime = int

named_theorems row_simps "row operations on tables"
named_theorems wp_simps "weakest preconditions of session operations"
named_theorems op_defs "definitions of repository operations"
named_theorems svc_defs "definitions of service operations"

section \<open>Rows of a table\<close>

text \<open>
  A table is the list of its rows in insertion order. \<open>lookup_row\<close> is a select on a
  column with a unique value, \<open>put_row\<close> an update of the row with a given key,
  \<open>drop_row\<close> a delete by key.
\<close>

definition lookup_row :: "('r \<Rightarrow> 'k) \<Rightarrow> 'k \<Rightarrow> 'r list \<Rightarrow> 'r option" where
  "lookup_row key k rows = find (\<lambda>r. key r = k) rows"

definition put_row :: "('r \<Rightarrow> 'k) \<Rightarrow> 'r \<Rightarrow> 'r list \<Rightarrow> 'r list" where
  "put_row key r rows = map (\<lambda>x. if key x = key r then r else x) rows"

definition drop_row :: "('r \<Rightarrow> 'k) \<Rightarrow> 'k \<Rightarrow> 'r list \<Rightarrow> 'r list" where
  "drop_row key k rows = filter (\<lambda>x. key x \<noteq> k) rows"

lemma lookup_row_SomeD:
  "lookup_row key k rows = Some r \<Longrightarrow> r \<in> set rows \<and> key r = k"
  by (auto simp: lookup_row_def find_Some_iff)

lemma lookup_row_None: "lookup_row key k rows = None \<longleftrightarrow> k \<notin> key ` set rows"
  by (auto simp: lookup_row_def find_None_iff)

lemma lookup_row_is_Some: "lookup_row key k rows \<noteq> None \<longleftrightarrow> k \<in> key ` set rows"
  by (simp add: lookup_row_None)

lemma lookup_row_append [row_simps]:
  "lookup_row key k (rows @ [r]) =
     (case lookup_row key k rows of Some x \<Rightarrow> Some x
      | None \<Rightarrow> if key r = k then Some r else None)"
  by (induction rows) (auto simp: lookup_row_def)

lemma lookup_row_put [row_simps]:
  "lookup_row key k (put_row key r rows) =
     (if key r = k then map_option (\<lambda>_. r) (lookup_row key k rows) else lookup_row key k rows)"
  by (induction rows) (auto simp: lookup_row_def put_row_def)

lemma lookup_row_drop [row_simps]:
  "lookup_row key k (drop_row key k' rows) =
     (if k = k' then None else lookup_row key k rows)"
  by (induction rows) (auto simp: lookup_row_def drop_row_def)

lemma lookup_row_distinct:
  assumes "distinct (map key rows)" and "r \<in> set rows"
  shows "lookup_row key (key r) rows = Some r"
  using assms by (induction rows) (auto simp: lookup_row_def)

lemma map_key_put [row_simps]: "map key (put_row key r rows) = map key rows"
  by (induction rows) (auto simp: put_row_def)

lemma length_put [row_simps]: "length (put_row key r rows) = length rows"
  by (simp add: put_row_def)

lemma set_put:
  "set (put_row key r rows) \<subseteq> insert r {x \<in> set rows. key x \<noteq> key r}"
  by (auto simp: put_row_def)

lemma in_set_put:
  "x \<in> set (put_row key r rows) \<longleftrightarrow>
     (x = r \<and> key r \<in> key ` set rows) \<or> (x \<in> set rows \<and> key x \<noteq> key r)"
  by (induction rows) (auto simp: put_row_def)

lemma keys_put [row_simps]: "key ` set (put_row key r rows) = key ` set rows"
  by (metis list.set_map map_key_put)

lemma in_set_drop [row_simps]:
  "x \<in> set (drop_row key k rows) \<longleftrightarrow> x \<in> set rows \<and> key x \<noteq> k"
  by (auto simp: drop_row_def)

lemma distinct_drop:
  "distinct (map f rows) \<Longrightarrow> distinct (map f (drop_row key k rows))"
  by (simp add: drop_row_def distinct_map_filter)

subsection \<open>The interface of a table\<close>

text \<open>
  What the services rely on when they go through a repository: a read after a write sees
  the written row, a write to one key leaves every other key alone, and the set of keys
  changes only by insert and delete.
\<close>

locale keyed_table =
  fixes lookup :: "'k \<Rightarrow> 't \<Rightarrow> 'r option"
    and key :: "'r \<Rightarrow> 'k"
    and put :: "'r \<Rightarrow> 't \<Rightarrow> 't"
    and add :: "'r \<Rightarrow> 't \<Rightarrow> 't"
    and del :: "'k \<Rightarrow> 't \<Rightarrow> 't"
  assumes lookup_key: "lookup k t = Some r \<Longrightarrow> key r = k"
    and lookup_put: "lookup k (put r t) =
      (if key r = k then map_option (\<lambda>_. r) (lookup k t) else lookup k t)"
    and lookup_add: "lookup k (add r t) =
      (case lookup k t of Some x \<Rightarrow> Some x | None \<Rightarrow> if key r = k then Some r else None)"
    and lookup_del: "lookup k (del k' t) = (if k = k' then None else lookup k t)"
begin

lemma read_own_write: "lookup (key r) t \<noteq> None \<Longrightarrow> lookup (key r) (put r t) = Some r"
  by (auto simp: lookup_put)

lemma read_own_insert: "lookup (key r) t = None \<Longrightarrow> lookup (key r) (add r t) = Some r"
  by (simp add: lookup_add)

lemma write_frame: "key r \<noteq> k \<Longrightarrow> lookup k (put r t) = lookup k t"
  by (simp add: lookup_put)

lemma insert_frame: "key r \<noteq> k \<Longrightarrow> lookup k (add r t) = lookup k t"
  by (simp add: lookup_add split: option.splits)

lemma delete_frame: "k \<noteq> k' \<Longrightarrow> lookup k (del k' t) = lookup k t"
  by (simp add: lookup_del)

lemma write_keeps_keys: "lookup k (put r t) = None \<longleftrightarrow> lookup k t = None"
  by (simp add: lookup_put)

lemma insert_keeps_rows: "lookup k t = Some x \<Longrightarrow> lookup k (add r t) = Some x"
  by (simp add: lookup_add)

end

lemma keyed_table_rows:
  "keyed_table (lookup_row key) key (put_row key) (\<lambda>r rows. rows @ [r]) (drop_row key)"
  by unfold_locales (auto simp: row_simps dest: lookup_row_SomeD)

section \<open>Selecting, ordering, limiting\<close>

lemma find_filter: "find P xs = (case filter P xs of [] \<Rightarrow> None | x # _ \<Rightarrow> Some x)"
  by (induction xs) auto

lemma distinct_map_append [simp]:
  "distinct (map f (xs @ [x])) \<longleftrightarrow> distinct (map f xs) \<and> f x \<notin> f ` set xs"
  by auto

end
