(* ===== verification/PyFloat.thy ===== *)
theory PyFloat
  imports Complex_Main "HOL-Library.Log_Nat"
begin

text \<open>
  Python's \<open>float\<close> as the control plane uses it: IEEE-754 binary64 with rounding to
  nearest, ties to even. A float value is the rational it denotes; \<open>fl\<close> is the rounding
  applied after each operation. Exponents are not bounded: every value the program rounds
  (GPU-hours, elapsed seconds) is between $2^{-22}$ and $2^{80}$ in absolute value or zero,
  far inside the normal range. Integer true division and \<open>int\<close> to \<open>float\<close>
  conversion are correctly rounded in CPython, so both are one application of \<open>fl\<close>.
\<close>

section \<open>Rounding\<close>

definition rnd_half_even :: "rat \<Rightarrow> int" where
  "rnd_half_even x =
     (let f = \<lfloor>x\<rfloor>; r = x - of_int f
      in if r < 1/2 then f else if r > 1/2 then f + 1 else if even f then f else f + 1)"

text \<open>The exponent: the largest \<open>e\<close> with \<open>2 powi e \<le> x\<close>, for positive \<open>x\<close>.\<close>

definition ilog2 :: "rat \<Rightarrow> int" where
  "ilog2 x = (case quotient_of x of (n, d) \<Rightarrow>
     (let e = bitlen n - bitlen d in if 2 powi e \<le> x then e else e - 1))"

definition fl_pos :: "rat \<Rightarrow> rat" where
  "fl_pos x = (let e = ilog2 x - 52 in of_int (rnd_half_even (x / 2 powi e)) * 2 powi e)"

definition fl :: "rat \<Rightarrow> rat" where
  "fl x = (if x = 0 then 0 else if x < 0 then - fl_pos (- x) else fl_pos x)"

section \<open>Float operations of the source\<close>

definition float_of_int :: "int \<Rightarrow> rat" where
  "float_of_int i = fl (of_int i)"

definition float_mul :: "rat \<Rightarrow> rat \<Rightarrow> rat" where
  "float_mul x y = fl (x * y)"

definition float_div :: "rat \<Rightarrow> rat \<Rightarrow> rat" where
  "float_div x y = fl (x / y)"

definition int_truediv :: "int \<Rightarrow> int \<Rightarrow> rat" where
  "int_truediv i j = fl (of_int i / of_int j)"

text \<open>\<open>timedelta.total_seconds()\<close>: the microseconds, as an integer, divided by $10^6$.\<close>

definition total_seconds :: "int \<Rightarrow> rat" where
  "total_seconds us = int_truediv us 1000000"

section \<open>Error bounds\<close>

lemma rnd_half_even_error: "\<bar>of_int (rnd_half_even x) - x\<bar> \<le> 1/2"
proof -
  have "of_int \<lfloor>x\<rfloor> \<le> x" and "x < of_int \<lfloor>x\<rfloor> + 1" by linarith+
  then show ?thesis by (auto simp: rnd_half_even_def Let_def abs_le_iff)
qed

lemma rnd_half_even_of_int [simp]: "rnd_half_even (of_int k) = k"
  by (simp add: rnd_half_even_def)

lemma powi_2_pos [simp]: "(2::rat) powi e > 0"
  by simp

lemma powi_2_of_int: "0 \<le> k \<Longrightarrow> (2::rat) powi k = of_int (2 ^ nat k)"
  by (simp add: power_int_def)

lemma bitlen_powi:
  assumes "0 < n"
  shows "(2::rat) powi (bitlen n - 1) \<le> of_int n" and "of_int n < (2::rat) powi (bitlen n)"
proof -
  have "bitlen n \<ge> 1" using assms by (simp add: bitlen_ge_iff_power)
  then show "(2::rat) powi (bitlen n - 1) \<le> of_int n" and "of_int n < (2::rat) powi (bitlen n)"
    using bitlen_bounds [OF assms] by (simp_all only: powi_2_of_int of_int_le_iff of_int_less_iff)
qed

lemma ilog2_bounds:
  assumes "0 < x"
  shows "2 powi (ilog2 x) \<le> x" and "x < 2 powi (ilog2 x + 1)"
proof -
  obtain n d where nd: "quotient_of x = (n, d)" by (cases "quotient_of x")
  have d: "0 < d" and x: "x = of_int n / of_int d"
    using nd by (auto intro: quotient_of_denom_pos quotient_of_div)
  have n: "0 < n" using assms d x by (simp add: zero_less_divide_iff)
  let ?e = "bitlen n - bitlen d"
  note n1 = bitlen_powi(1) [OF n] and n2 = bitlen_powi(2) [OF n]
  note d1 = bitlen_powi(1) [OF d] and d2 = bitlen_powi(2) [OF d]
  have lo: "2 powi (?e - 1) \<le> x"
  proof -
    have "(2::rat) powi (?e - 1) = 2 powi (bitlen n - 1) / 2 powi (bitlen d)"
      by (simp add: power_int_diff)
    also have "\<dots> \<le> of_int n / of_int d"
      using n1 d2 d n by (intro frac_le) auto
    finally show ?thesis by (simp add: x)
  qed
  have hi: "x < 2 powi (?e + 1)"
  proof -
    have "of_int n / of_int d < (2::rat) powi (bitlen n) / 2 powi (bitlen d - 1)"
      using n2 d1 d n by (intro frac_less) auto
    also have "\<dots> = 2 powi (?e + 1)"
      by (simp add: power_int_diff power_int_add)
    finally show ?thesis by (simp add: x)
  qed
  show "2 powi (ilog2 x) \<le> x" and "x < 2 powi (ilog2 x + 1)"
    using lo hi by (auto simp: ilog2_def nd Let_def)
qed

lemma ilog2_less:
  assumes "0 < x" and "x < 2 powi k"
  shows "ilog2 x < k"
proof (rule ccontr)
  assume "\<not> ilog2 x < k"
  then have "(2::rat) powi k \<le> 2 powi (ilog2 x)"
    by (intro power_int_increasing) auto
  with ilog2_bounds(1) [OF assms(1)] assms(2) show False by simp
qed

lemma fl_pos_error:
  assumes "0 < x"
  shows "\<bar>fl_pos x - x\<bar> \<le> x / 2 ^ 53"
proof -
  let ?e = "ilog2 x - 52"
  let ?y = "x / 2 powi ?e"
  have "\<bar>fl_pos x - x\<bar> = \<bar>of_int (rnd_half_even ?y) - ?y\<bar> * 2 powi ?e"
  proof -
    have "fl_pos x - x = (of_int (rnd_half_even ?y) - ?y) * 2 powi ?e"
      by (simp add: fl_pos_def Let_def left_diff_distrib)
    then show ?thesis by (simp add: abs_mult)
  qed
  also have "\<dots> \<le> 1/2 * 2 powi ?e"
    using rnd_half_even_error [of ?y] by (intro mult_right_mono) auto
  also have "\<dots> = 2 powi (ilog2 x) / 2 ^ 53"
    by (simp add: power_int_diff)
  also have "\<dots> \<le> x / 2 ^ 53"
    using ilog2_bounds(1) [OF assms] by (intro divide_right_mono) auto
  finally show ?thesis .
qed

lemma fl_error: "\<bar>fl x - x\<bar> \<le> \<bar>x\<bar> / 2 ^ 53"
proof -
  consider "x = 0" | "x > 0" | "x < 0" by linarith
  then show ?thesis
  proof cases
    case 3
    then have "\<bar>fl_pos (- x) - (- x)\<bar> \<le> (- x) / 2 ^ 53" by (intro fl_pos_error) simp
    with 3 show ?thesis by (simp add: fl_def abs_minus_commute)
  qed (use fl_pos_error [of x] in \<open>auto simp: fl_def\<close>)
qed

lemma fl_0 [simp]: "fl 0 = 0"
  by (simp add: fl_def)

lemma fl_bounds:
  assumes "0 \<le> x"
  shows "x - x / 2 ^ 53 \<le> fl x" and "fl x \<le> x + x / 2 ^ 53"
proof -
  have "\<bar>fl x - x\<bar> \<le> x / 2 ^ 53" using fl_error [of x] assms by simp
  then show "x - x / 2 ^ 53 \<le> fl x" and "fl x \<le> x + x / 2 ^ 53" by linarith+
qed

lemma fl_nonneg:
  assumes "0 \<le> x"
  shows "0 \<le> fl x"
proof -
  have "x / 2 ^ 53 \<le> x" using assms by (simp add: field_simps)
  with fl_bounds(1) [OF assms] show ?thesis by linarith
qed

lemma fl_minus: "fl (- x) = - fl x"
  by (auto simp: fl_def)

lemma fl_nonpos: "x \<le> 0 \<Longrightarrow> fl x \<le> 0"
  using fl_nonneg [of "- x"] by (simp add: fl_minus)

text \<open>Values with few binary places are floats already: rounding keeps them.\<close>

lemma fl_exact_pos:
  assumes "0 < x" and "x < 2 powi (53 - int k)" and "x * 2 ^ k = of_int m"
  shows "fl_pos x = x"
proof -
  let ?e = "ilog2 x - 52"
  have e: "?e + int k \<le> 0" using ilog2_less [OF assms(1,2)] by simp
  then obtain j where j: "- ?e = int k + int j"
    by (metis add.commute add_diff_cancel_left' diff_ge_0_iff_ge minus_diff_eq neg_0_le_iff_le
        nonneg_int_cases uminus_add_conv_diff)
  have "x / 2 powi ?e = x * 2 powi (- ?e)"
    by (simp only: power_int_minus divide_inverse)
  also have "\<dots> = x * 2 ^ k * 2 ^ j"
    by (simp only: j) (simp add: power_int_add)
  also have "\<dots> = of_int (m * 2 ^ j)"
    by (simp add: assms(3))
  finally have y: "x / 2 powi ?e = of_int (m * 2 ^ j)" .
  then have "of_int (rnd_half_even (x / 2 powi ?e)) = x / 2 powi ?e"
    by (simp only: rnd_half_even_of_int)
  then show ?thesis by (simp add: fl_pos_def Let_def)
qed

lemma fl_exact:
  assumes "\<bar>x\<bar> < 2 powi (53 - int k)" and "x * 2 ^ k = of_int m"
  shows "fl x = x"
proof -
  consider "x = 0" | "x > 0" | "x < 0" by linarith
  then show ?thesis
  proof cases
    case 2
    with assms fl_exact_pos [of x k m] show ?thesis by (simp add: fl_def)
  next
    case 3
    with assms fl_exact_pos [of "- x" k "- m"] show ?thesis by (simp add: fl_def)
  qed simp
qed

lemma float_of_int_exact:
  assumes "\<bar>i\<bar> < 2 ^ 53"
  shows "float_of_int i = of_int i"
proof -
  have "of_int \<bar>i\<bar> < (of_int (2 ^ 53) :: rat)" using assms by (simp only: of_int_less_iff)
  then have "\<bar>of_int i\<bar> < (2::rat) powi (53 - int 0)" by (simp add: power_int_def)
  then show ?thesis unfolding float_of_int_def
    by (rule fl_exact) simp
qed

text \<open>Rounding keeps a value on its side of an integer when the gap is wide enough.\<close>

lemma fl_le_gap: "0 \<le> x \<Longrightarrow> x + x / 2 ^ 53 \<le> y \<Longrightarrow> fl x \<le> y"
  using fl_bounds(2) [of x] by linarith

lemma fl_gr_gap: "0 \<le> x \<Longrightarrow> y < x - x / 2 ^ 53 \<Longrightarrow> y < fl x"
  using fl_bounds(1) [of x] by linarith

end
