(* ===== verification/PyText.thy ===== *)
theory PyText
  imports Prelude PyFloat
begin

text \<open>
  The text the program produces from its values with Python's standard library:
  \<open>str\<close> of integers and UUIDs, \<open>datetime.isoformat()\<close> of UTC timestamps, the
  \<open>.4f\<close> format, and the JSON values that audit events and error bodies carry. Strings
  are lists of \<open>char\<close>; the program's own literals and these formats are ASCII.
\<close>

section \<open>Numbers\<close>

definition digit_char :: "int \<Rightarrow> char" where
  "digit_char d = char_of (if d < 10 then 48 + d else 87 + d)"

text \<open>Digits of \<open>n\<close> in base \<open>b\<close>, zero-padded to (and cut at) \<open>k\<close> places.\<close>

fun pad_digits :: "int \<Rightarrow> nat \<Rightarrow> int \<Rightarrow> string" where
  "pad_digits b 0 n = []"
| "pad_digits b (Suc k) n = pad_digits b k (n div b) @ [digit_char (n mod b)]"

text \<open>Decimal digits of a natural number given as an integer.\<close>

function str_nat :: "int \<Rightarrow> string" where
  "str_nat n = (if n < 10 then [digit_char n] else str_nat (n div 10) @ [digit_char (n mod 10)])"
  by pat_completeness auto
termination
  by (relation "measure nat") auto

declare str_nat.simps [simp del]

definition str_int :: "int \<Rightarrow> string" where
  "str_int i = (if i < 0 then ''-'' @ str_nat (- i) else str_nat i)"

text \<open>\<open>f"{x:.4f}"\<close>: the exact value, rounded half to even at the fourth decimal.\<close>

definition format_4f :: "rat \<Rightarrow> string" where
  "format_4f x =
     (let n = rnd_half_even (\<bar>x\<bar> * 10000)
      in (if x < 0 then ''-'' else []) @ str_nat (n div 10000) @ ''.'' @ pad_digits 10 4 (n mod 10000))"

section \<open>UUIDs\<close>

text \<open>\<open>str(uuid)\<close>: the 32 hexadecimal digits in groups of 8, 4, 4, 4 and 12.\<close>

definition uuid_hex :: "uuid \<Rightarrow> string" where
  "uuid_hex u = pad_digits 16 32 (uint u)"

definition str_uuid :: "uuid \<Rightarrow> string" where
  "str_uuid u =
     (let h = uuid_hex u
      in take 8 h @ ''-'' @ take 4 (drop 8 h) @ ''-'' @ take 4 (drop 12 h) @ ''-'' @
         take 4 (drop 16 h) @ ''-'' @ drop 20 h)"

section \<open>Timestamps\<close>

definition is_leap :: "int \<Rightarrow> bool" where
  "is_leap y \<longleftrightarrow> y mod 4 = 0 \<and> (y mod 100 \<noteq> 0 \<or> y mod 400 = 0)"

text \<open>Days before month \<open>m\<close> (1 to 12) in a year.\<close>

definition days_before_month :: "bool \<Rightarrow> int \<Rightarrow> int" where
  "days_before_month leap m =
     [0, 0, 31, 59, 90, 120, 151, 181, 212, 243, 273, 304, 334] ! nat m
       + (if m > 2 \<and> leap then 1 else 0)"

definition days_before_year :: "int \<Rightarrow> int" where
  "days_before_year y = (let p = y - 1 in p * 365 + p div 4 - p div 100 + p div 400)"

text \<open>Month and day of day \<open>n\<close> (from 0) of a year, as \<open>datetime\<close> finds them.\<close>

definition month_day :: "bool \<Rightarrow> int \<Rightarrow> int \<times> int" where
  "month_day leap n =
     (let m = (n + 50) div 32; pre = days_before_month leap m
      in if pre > n then (m - 1, n - days_before_month leap (m - 1) + 1)
         else (m, n - pre + 1))"

text \<open>The proleptic Gregorian date of an ordinal (day 1 is 0001-01-01).\<close>

definition ord_to_ymd :: "int \<Rightarrow> int \<times> int \<times> int" where
  "ord_to_ymd ord =
     (let n = ord - 1; n400 = n div 146097; a = n mod 146097;
          n100 = a div 36524; b = a mod 36524;
          n4 = b div 1461; c = b mod 1461;
          n1 = c div 365; d = c mod 365;
          y = n400 * 400 + 1 + n100 * 100 + n4 * 4 + n1
      in if n1 = 4 \<or> n100 = 4 then (y - 1, 12, 31)
         else (case month_day (n1 = 3 \<and> (n4 \<noteq> 24 \<or> n100 = 3)) d of (m, dd) \<Rightarrow> (y, m, dd)))"

definition ymd_to_ord :: "int \<Rightarrow> int \<Rightarrow> int \<Rightarrow> int" where
  "ymd_to_ord y m d = days_before_year y + days_before_month (is_leap y) m + d"

text \<open>1970-01-01 has ordinal 719163.\<close>

definition epoch_ordinal :: int where
  "epoch_ordinal = 719163"

definition isoformat :: "datetime \<Rightarrow> string" where
  "isoformat t =
     (let us = t mod 86400000000; s = us div 1000000; f = us mod 1000000
      in case ord_to_ymd (t div 86400000000 + epoch_ordinal) of (y, m, d) \<Rightarrow>
        pad_digits 10 4 y @ ''-'' @ pad_digits 10 2 m @ ''-'' @ pad_digits 10 2 d
        @ ''T'' @ pad_digits 10 2 (s div 3600) @ '':'' @ pad_digits 10 2 (s div 60 mod 60)
        @ '':'' @ pad_digits 10 2 (s mod 60)
        @ (if f = 0 then [] else ''.'' @ pad_digits 10 6 f) @ ''+00:00'')"

section \<open>JSON values\<close>

datatype json =
    JNull
  | JBool bool
  | JInt int
  | JFloat rat
  | JStr string
  | JArr "json list"
  | JObj "(string \<times> json) list"

text \<open>A Python value that is a string or \<open>None\<close>, as JSON.\<close>

definition json_opt_str :: "string option \<Rightarrow> json" where
  "json_opt_str x = (case x of None \<Rightarrow> JNull | Some s \<Rightarrow> JStr s)"

text \<open>\<open>dict.update\<close> on an object whose new keys are not present: they are appended.\<close>

definition json_fields :: "json \<Rightarrow> (string \<times> json) list" where
  "json_fields j = (case j of JObj fs \<Rightarrow> fs | _ \<Rightarrow> [])"

definition json_get :: "string \<Rightarrow> json \<Rightarrow> json option" where
  "json_get k j = map_of (json_fields j) k"

end
