(* ===== verification/Errors.thy ===== *)
theory Errors
  imports PyText
begin

text \<open>
  The exceptions of \<open>app/core/errors.py\<close>, with their messages, and the exception
  handlers of \<open>app/main.py\<close> that turn each of them into an HTTP response. Beside the
  domain errors the datatype has the exceptions the program can meet and does not
  handle itself: the driver's \<open>IntegrityError\<close> (a unique, primary-key or foreign-key
  constraint, by name), \<open>DataError\<close> (a value outside its column type), the
  cardinality violation of an upsert that hits a row twice, the \<open>AttributeError\<close> of
  \<open>UUID(x)\<close> for an \<open>x\<close> that is neither a string nor \<open>None\<close>, and the \<open>KeyError\<close> of a
  dictionary.
\<close>

datatype error =
    EmailAlreadyExists string
  | InvalidCredentials
  | UserNotFound string
  | AuditEventNotFound string
  | ApiKeyNotFound string
  | ApiKeyNotOwned
  | NotAHost
  | NodeNotFound string
  | NodeBusy string
  | NodeNotDraining string string
  | ClaimTokenInvalid string
  | AccountNotActive string
  | InvalidPaginationCursor
  | InsufficientCredits rat int
  | JobNotFound string
  | JobNotOwned
  | InvalidJobTransition string string
  | InvalidCursorError
  | HTTPException int string bool
      \<comment> \<open>status, detail, and whether a \<open>WWW-Authenticate\<close> header is sent\<close>
  | RequestValidationError
  | IntegrityError string
  | DataError string
  | CardinalityViolation
  | AttributeError
  | KeyError string

section \<open>Messages\<close>

text \<open>\<open>str(exc)\<close> of the domain errors.\<close>

fun exc_message :: "error \<Rightarrow> string" where
  "exc_message (EmailAlreadyExists email) = ''Email already registered: '' @ email"
| "exc_message InvalidCredentials = ''Invalid email or password''"
| "exc_message (UserNotFound m) = m"
| "exc_message (AuditEventNotFound m) = m"
| "exc_message (ApiKeyNotFound m) = m"
| "exc_message ApiKeyNotOwned = ''API key does not belong to the current user''"
| "exc_message NotAHost = ''User is not authorized to host GPU nodes''"
| "exc_message (NodeNotFound m) = m"
| "exc_message (NodeBusy node_id) =
     ''Node '' @ node_id @ '' has a running job; drain it before disconnecting''"
| "exc_message (NodeNotDraining node_id current_status) =
     ''Node '' @ node_id @ '' is not draining (status='' @ current_status @ '')''"
| "exc_message (ClaimTokenInvalid reason) = ''Claim token is invalid: '' @ reason"
| "exc_message (AccountNotActive status) =
     ''Account is '' @ status @ ''; contact an administrator''"
| "exc_message InvalidPaginationCursor = ''Invalid pagination cursor''"
| "exc_message (InsufficientCredits required available) =
     ''Insufficient GPU-hour credits: requires '' @ format_4f required @
     '', have '' @ str_int available"
| "exc_message (JobNotFound m) = m"
| "exc_message JobNotOwned = ''Job does not belong to the current user''"
| "exc_message (InvalidJobTransition from_status to_status) =
     ''Cannot transition job from '' @ from_status @ '' to '' @ to_status"
| "exc_message _ = []"

definition not_found_message :: "string \<Rightarrow> uuid \<Rightarrow> string" where
  "not_found_message kind i = kind @ '' '' @ str_uuid i @ '' not found''"

section \<open>Responses\<close>

record http_error =
  status_code :: int
  content :: json
  www_authenticate :: bool

definition detail_response :: "int \<Rightarrow> error \<Rightarrow> http_error" where
  "detail_response code e =
     \<lparr>status_code = code, content = JObj [(''detail'', JStr (exc_message e))],
      www_authenticate = False\<rparr>"

text \<open>
  One equation per \<open>@app.exception_handler\<close>. An \<open>HTTPException\<close> keeps its own
  status and detail; what no handler catches is the framework's 500.
\<close>

fun error_response :: "error \<Rightarrow> http_error" where
  "error_response (EmailAlreadyExists m) = detail_response 400 (EmailAlreadyExists m)"
| "error_response InvalidCredentials =
     (detail_response 401 InvalidCredentials)\<lparr>www_authenticate := True\<rparr>"
| "error_response (AccountNotActive st) = detail_response 403 (AccountNotActive st)"
| "error_response (UserNotFound m) = detail_response 404 (UserNotFound m)"
| "error_response InvalidPaginationCursor = detail_response 400 InvalidPaginationCursor"
| "error_response (AuditEventNotFound m) = detail_response 404 (AuditEventNotFound m)"
| "error_response (ApiKeyNotFound m) = detail_response 404 (ApiKeyNotFound m)"
| "error_response ApiKeyNotOwned = detail_response 403 ApiKeyNotOwned"
| "error_response NotAHost = detail_response 403 NotAHost"
| "error_response (ClaimTokenInvalid reason) =
     \<lparr>status_code = 400,
      content = JObj [(''detail'', JStr (exc_message (ClaimTokenInvalid reason))),
                      (''reason'', JStr reason)],
      www_authenticate = False\<rparr>"
| "error_response (InsufficientCredits required available) =
     \<lparr>status_code = 402,
      content = JObj [(''detail'', JStr (exc_message (InsufficientCredits required available))),
                      (''required_gpu_hours'', JFloat required),
                      (''available_gpu_hours'', JInt available)],
      www_authenticate = False\<rparr>"
| "error_response (JobNotFound m) = detail_response 404 (JobNotFound m)"
| "error_response JobNotOwned =
     \<lparr>status_code = 404, content = JObj [(''detail'', JStr ''Job not found'')],
      www_authenticate = False\<rparr>"
| "error_response (InvalidJobTransition from_status to_status) =
     \<lparr>status_code = 409,
      content = JObj [(''detail'', JStr (exc_message (InvalidJobTransition from_status to_status))),
                      (''from_status'', JStr from_status), (''to_status'', JStr to_status)],
      www_authenticate = False\<rparr>"
| "error_response (NodeNotFound m) = detail_response 404 (NodeNotFound m)"
| "error_response (NodeBusy node_id) =
     \<lparr>status_code = 409,
      content = JObj [(''detail'', JStr (exc_message (NodeBusy node_id))),
                      (''node_id'', JStr node_id)],
      www_authenticate = False\<rparr>"
| "error_response (NodeNotDraining node_id current_status) =
     \<lparr>status_code = 409,
      content = JObj [(''detail'', JStr (exc_message (NodeNotDraining node_id current_status))),
                      (''node_id'', JStr node_id), (''current_status'', JStr current_status)],
      www_authenticate = False\<rparr>"
| "error_response (HTTPException code detail auth) =
     \<lparr>status_code = code, content = JObj [(''detail'', JStr detail)], www_authenticate = auth\<rparr>"
| "error_response RequestValidationError =
     \<lparr>status_code = 422, content = JNull, www_authenticate = False\<rparr>"
| "error_response _ =
     \<lparr>status_code = 500, content = JStr ''Internal Server Error'', www_authenticate = False\<rparr>"

text \<open>The errors the program means to answer with: everything but an unhandled exception.\<close>

definition handled :: "error \<Rightarrow> bool" where
  "handled e \<longleftrightarrow> status_code (error_response e) \<noteq> 500"

end
