(* ===== verification/Database.thy ===== *)
theory Database
  imports Errors
begin

text \<open>
  The persistent state: one record per ORM class of \<open>app/models/\<close> (a row), one list
  of rows per table, and the SQLAlchemy session as the pair of what is committed and what
  the current transaction sees. A repository or service method is a function from a
  session to its result, or the exception it raises, and the session it leaves. Requests
  run one after another here; a request that ends without \<open>commit\<close> leaves the committed
  database as it was.
\<close>

section \<open>Rows\<close>

record user =
  u_id :: uuid
  u_email :: string
  u_password_hash :: string
  u_status :: string
  u_can_host :: bool
  u_can_rent :: bool
  u_is_admin :: bool
  u_credits_gpu_hours :: int
  u_created_at :: datetime
  u_updated_at :: datetime

record api_key =
  k_id :: uuid
  k_user_id :: uuid
  k_name :: string
  k_prefix :: string
  k_hash :: string
  k_created_at :: datetime
  k_revoked_at :: "datetime option"

record claim_token =
  c_id :: uuid
  c_user_id :: uuid
  c_prefix :: string
  c_token_hash :: string
  c_expires_at :: datetime
  c_consumed_at :: "datetime option"
  c_created_at :: datetime

record node =
  n_id :: uuid
  n_user_id :: uuid
  n_name :: string
  n_gpu_model :: string
  n_gpu_memory_gb :: int
  n_gpu_count :: int
  n_status :: string
  n_last_seen_at :: "datetime option"
  n_agent_token_hash :: "string option"
  n_agent_token_prefix :: "string option"
  n_created_at :: datetime

record job =
  j_id :: uuid
  j_user_id :: uuid
  j_docker_image :: string
  j_command :: "string list"
  j_gpu_count :: int
  j_max_duration_seconds :: int
  j_status :: string
  j_exit_code :: "int option"
  j_error_message :: "string option"
  j_assigned_node_id :: "uuid option"
  j_preferred_node_id :: "uuid option"
  j_created_at :: datetime
  j_started_at :: "datetime option"
  j_completed_at :: "datetime option"
  j_cancel_requested_at :: "datetime option"

record job_log =
  l_id :: uuid
  l_job_id :: uuid
  l_stream :: string
  l_content :: string
  l_sequence :: int
  l_received_at :: datetime

record node_metric =
  m_node_id :: uuid
  m_gpu_index :: int
  m_utilization_pct :: int
  m_memory_used_bytes :: int
  m_memory_total_bytes :: int
  m_temperature_c :: int
  m_recorded_at :: datetime

record audit_log =
  a_id :: uuid
  a_user_id :: "uuid option"
  a_event_type :: string
  a_event_data :: json
  a_ip_address :: "string option"
  a_user_agent :: "string option"
  a_created_at :: datetime

section \<open>Tables\<close>

record db =
  users :: "user list"
  api_keys :: "api_key list"
  claim_tokens :: "claim_token list"
  nodes :: "node list"
  jobs :: "job list"
  job_logs :: "job_log list"
  node_metrics :: "node_metric list"
  audit_events :: "audit_log list"

definition empty_db :: db where
  "empty_db = \<lparr>users = [], api_keys = [], claim_tokens = [], nodes = [], jobs = [],
     job_logs = [], node_metrics = [], audit_events = []\<rparr>"

abbreviation find_user :: "uuid \<Rightarrow> db \<Rightarrow> user option" where
  "find_user i d \<equiv> lookup_row u_id i (users d)"

abbreviation find_node :: "uuid \<Rightarrow> db \<Rightarrow> node option" where
  "find_node i d \<equiv> lookup_row n_id i (nodes d)"

abbreviation find_job :: "uuid \<Rightarrow> db \<Rightarrow> job option" where
  "find_job i d \<equiv> lookup_row j_id i (jobs d)"

text \<open>PostgreSQL \<open>integer\<close> and \<open>bigint\<close> columns refuse values outside their range.\<close>

definition int4_ok :: "int \<Rightarrow> bool" where
  "int4_ok i \<longleftrightarrow> - (2 ^ 31) \<le> i \<and> i < 2 ^ 31"

definition int8_ok :: "int \<Rightarrow> bool" where
  "int8_ok i \<longleftrightarrow> - (2 ^ 63) \<le> i \<and> i < 2 ^ 63"

section \<open>Sessions\<close>

record session =
  committed :: db
  working :: db

type_synonym 'a svc = "session \<Rightarrow> (error + 'a) \<times> session"

definition begin_session :: "db \<Rightarrow> session" where
  "begin_session d = \<lparr>committed = d, working = d\<rparr>"

definition ret :: "'a \<Rightarrow> 'a svc" where
  "ret x s = (Inr x, s)"

definition throw :: "error \<Rightarrow> 'a svc" where
  "throw e s = (Inl e, s)"

definition bindS :: "'a svc \<Rightarrow> ('a \<Rightarrow> 'b svc) \<Rightarrow> 'b svc" where
  "bindS m f s = (case m s of (Inl e, s') \<Rightarrow> (Inl e, s') | (Inr x, s') \<Rightarrow> f x s')"

definition thenS :: "'a svc \<Rightarrow> 'b svc \<Rightarrow> 'b svc" where
  "thenS m k = bindS m (\<lambda>_. k)"

text \<open>A pure computation that may raise, and \<open>try: ... except\<close>.\<close>

definition lift_result :: "error + 'a \<Rightarrow> 'a svc" where
  "lift_result r s = (r, s)"

definition catch :: "'a svc \<Rightarrow> (error \<Rightarrow> 'a svc) \<Rightarrow> 'a svc" where
  "catch m h s = (case m s of (Inl e, s') \<Rightarrow> h e s' | (Inr x, s') \<Rightarrow> (Inr x, s'))"

text \<open>\<open>select\<close>: read from the transaction's view.\<close>

definition query :: "(db \<Rightarrow> 'a) \<Rightarrow> 'a svc" where
  "query f s = (Inr (f (working s)), s)"

text \<open>
  A write and its \<open>flush()\<close>: the statement is applied to the transaction's view, or the
  database refuses it.
\<close>

definition modify :: "(db \<Rightarrow> error + db) \<Rightarrow> unit svc" where
  "modify f s = (case f (working s) of Inl e \<Rightarrow> (Inl e, s) | Inr d \<Rightarrow> (Inr (), s\<lparr>working := d\<rparr>))"

definition commit :: "unit svc" where
  "commit s = (Inr (), s\<lparr>committed := working s\<rparr>)"

definition rollback :: "unit svc" where
  "rollback s = (Inr (), s\<lparr>working := committed s\<rparr>)"

text \<open>
  One request: \<open>get_session\<close> opens a session on the committed database and closes it
  when the handler returns or raises; what was not committed is gone.
\<close>

definition run_svc :: "'a svc \<Rightarrow> db \<Rightarrow> (error + 'a) \<times> db" where
  "run_svc m d = (case m (begin_session d) of (r, s) \<Rightarrow> (r, committed s))"

subsection \<open>Weakest preconditions\<close>

definition wp :: "'a svc \<Rightarrow> (error + 'a \<Rightarrow> session \<Rightarrow> bool) \<Rightarrow> session \<Rightarrow> bool" where
  "wp m Q s = (case m s of (r, s') \<Rightarrow> Q r s')"

lemma wp_ret [wp_simps]: "wp (ret x) Q s = Q (Inr x) s"
  by (simp add: wp_def ret_def)

lemma wp_throw [wp_simps]: "wp (throw e) Q s = Q (Inl e) s"
  by (simp add: wp_def throw_def)

lemma wp_bindS [wp_simps]:
  "wp (bindS m f) Q s =
     wp m (\<lambda>r s'. case r of Inl e \<Rightarrow> Q (Inl e) s' | Inr x \<Rightarrow> wp (f x) Q s') s"
  by (auto simp: wp_def bindS_def split: prod.splits sum.splits)

lemma wp_thenS [wp_simps]:
  "wp (thenS m k) Q s =
     wp m (\<lambda>r s'. case r of Inl e \<Rightarrow> Q (Inl e) s' | Inr _ \<Rightarrow> wp k Q s') s"
  by (simp add: thenS_def wp_bindS)

lemma wp_lift_result [wp_simps]: "wp (lift_result r) Q s = Q r s"
  by (simp add: wp_def lift_result_def)

lemma wp_catch [wp_simps]:
  "wp (catch m h) Q s =
     wp m (\<lambda>r s'. case r of Inl e \<Rightarrow> wp (h e) Q s' | Inr x \<Rightarrow> Q (Inr x) s') s"
  by (auto simp: wp_def catch_def split: prod.splits sum.splits)

lemma wp_query [wp_simps]: "wp (query f) Q s = Q (Inr (f (working s))) s"
  by (simp add: wp_def query_def)

lemma wp_modify [wp_simps]:
  "wp (modify f) Q s =
     (case f (working s) of Inl e \<Rightarrow> Q (Inl e) s | Inr d \<Rightarrow> Q (Inr ()) (s\<lparr>working := d\<rparr>))"
  by (auto simp: wp_def modify_def split: sum.splits)

lemma wp_commit [wp_simps]: "wp commit Q s = Q (Inr ()) (s\<lparr>committed := working s\<rparr>)"
  by (simp add: wp_def commit_def)

lemma wp_rollback [wp_simps]: "wp rollback Q s = Q (Inr ()) (s\<lparr>working := committed s\<rparr>)"
  by (simp add: wp_def rollback_def)

lemma wp_if [wp_simps]: "wp (if b then m else m') Q s = (if b then wp m Q s else wp m' Q s)"
  by simp

lemma wp_Let [wp_simps]: "wp (Let x f) Q s = wp (f x) Q s"
  by simp

lemma wp_case_option [wp_simps]:
  "wp (case x of None \<Rightarrow> m | Some y \<Rightarrow> f y) Q s =
     (case x of None \<Rightarrow> wp m Q s | Some y \<Rightarrow> wp (f y) Q s)"
  by (simp split: option.splits)

lemma wp_run_svc:
  "(case run_svc m d of (r, d') \<Rightarrow> P r d') \<longleftrightarrow>
     wp m (\<lambda>r s. P r (committed s)) (begin_session d)"
  by (auto simp: run_svc_def wp_def split: prod.splits)

lemma wp_mono:
  "wp m Q s \<Longrightarrow> (\<And>r s'. Q r s' \<Longrightarrow> Q' r s') \<Longrightarrow> wp m Q' s"
  by (auto simp: wp_def split: prod.splits)

lemma wp_eq: "m s = (r, s') \<Longrightarrow> wp m Q s \<Longrightarrow> Q r s'"
  by (simp add: wp_def)

subsection \<open>What a method can do to the committed database\<close>

text \<open>
  \<open>keeps I m\<close>: from a session whose committed and working databases satisfy \<open>I\<close>, the
  method leaves one whose committed and working databases do. A chain of reads and writes
  keeps what each of its parts keeps.
\<close>

definition keeps :: "(db \<Rightarrow> bool) \<Rightarrow> 'a svc \<Rightarrow> bool" where
  "keeps I m \<longleftrightarrow> (\<forall>s. I (committed s) \<longrightarrow> I (working s) \<longrightarrow>
     wp m (\<lambda>_ s'. I (committed s') \<and> I (working s')) s)"

named_theorems keeps_intros "rules for keeps"

lemma keeps_ret [keeps_intros]: "keeps I (ret x)"
  and keeps_throw [keeps_intros]: "keeps I (throw e)"
  and keeps_lift_result [keeps_intros]: "keeps I (lift_result r)"
  and keeps_query [keeps_intros]: "keeps I (query f)"
  and keeps_commit [keeps_intros]: "keeps I commit"
  and keeps_rollback [keeps_intros]: "keeps I rollback"
  by (simp_all add: keeps_def wp_simps)

lemma keeps_modify [keeps_intros]:
  "(\<And>d d'. I d \<Longrightarrow> f d = Inr d' \<Longrightarrow> I d') \<Longrightarrow> keeps I (modify f)"
  by (simp add: keeps_def wp_simps split: sum.splits)

lemma keeps_bindS [keeps_intros]:
  assumes "keeps I m" and "\<And>x. keeps I (f x)"
  shows "keeps I (bindS m f)"
  unfolding keeps_def wp_bindS
proof (intro allI impI)
  fix s :: session assume "I (committed s)" and "I (working s)"
  with assms(1) have "wp m (\<lambda>_ s'. I (committed s') \<and> I (working s')) s"
    by (simp add: keeps_def)
  then show "wp m (\<lambda>r s'. case r of Inl e \<Rightarrow> I (committed s') \<and> I (working s')
      | Inr x \<Rightarrow> wp (f x) (\<lambda>_ s'. I (committed s') \<and> I (working s')) s') s"
    by (rule wp_mono) (use assms(2) in \<open>auto simp: keeps_def split: sum.splits\<close>)
qed

lemma keeps_catch [keeps_intros]:
  assumes "keeps I m" and "\<And>e. keeps I (h e)"
  shows "keeps I (catch m h)"
  unfolding keeps_def wp_catch
proof (intro allI impI)
  fix s :: session assume "I (committed s)" and "I (working s)"
  with assms(1) have "wp m (\<lambda>_ s'. I (committed s') \<and> I (working s')) s"
    by (simp add: keeps_def)
  then show "wp m (\<lambda>r s'. case r of Inl e \<Rightarrow> wp (h e) (\<lambda>_ s'. I (committed s') \<and> I (working s')) s'
      | Inr x \<Rightarrow> I (committed s') \<and> I (working s')) s"
    by (rule wp_mono) (use assms(2) in \<open>auto simp: keeps_def split: sum.splits\<close>)
qed

lemma keeps_thenS [keeps_intros]:
  "keeps I m \<Longrightarrow> keeps I k \<Longrightarrow> keeps I (thenS m k)"
  by (simp add: thenS_def keeps_bindS)

lemma keeps_if [keeps_intros]:
  "(b \<Longrightarrow> keeps I m) \<Longrightarrow> (\<not> b \<Longrightarrow> keeps I m') \<Longrightarrow> keeps I (if b then m else m')"
  by simp

lemma keeps_option [keeps_intros]:
  "keeps I m \<Longrightarrow> (\<And>y. keeps I (f y)) \<Longrightarrow> keeps I (case x of None \<Rightarrow> m | Some y \<Rightarrow> f y)"
  by (simp split: option.splits)

lemma keeps_Let [keeps_intros]: "(\<And>x. keeps I (f x)) \<Longrightarrow> keeps I (Let x f)"
  by simp

lemma keeps_run:
  assumes "keeps I m" and "I d"
  shows "I (snd (run_svc m d))"
proof -
  have "wp m (\<lambda>_ s'. I (committed s') \<and> I (working s')) (begin_session d)"
    using assms by (simp add: keeps_def begin_session_def)
  then show ?thesis by (auto simp: run_svc_def wp_def split: prod.splits)
qed

end
