(* ===== verification/Environment.thy ===== *)
theory Environment
  imports Database
begin

text \<open>
  What a request reads from outside the database: the settings of \<open>app/config.py\<close>, the
  clocks, the random values, and the libraries the source only calls (bcrypt, python-jose,
  PostgreSQL's \<open>ILIKE\<close> and row locks). These are parameters of the model; a property
  that relies on one of them states the documented behaviour as a hypothesis.
\<close>

section \<open>Settings\<close>

record settings =
  app_name :: string
  app_version :: string
  environment :: string
  jwt_secret :: string
  jwt_algorithm :: string
  jwt_expire_days :: int
  control_plane_public_url :: string
  claim_token_ttl_hours :: int

definition default_settings :: settings where
  "default_settings = \<lparr>app_name = ''GPU Network Control Plane'', app_version = ''0.1.0'',
     environment = ''development'', jwt_secret = ''dev-secret-change-in-prod'',
     jwt_algorithm = ''HS256'', jwt_expire_days = 7,
     control_plane_public_url = ''http://localhost:8000'', claim_token_ttl_hours = 24\<rparr>"

section \<open>The environment of a request\<close>

record env =
  config :: settings
  txn_now :: datetime
    \<comment> \<open>PostgreSQL's \<open>now()\<close>: the start of the transaction\<close>
  clock :: "nat \<Rightarrow> datetime"
    \<comment> \<open>successive readings of \<open>datetime.now(UTC)\<close>\<close>
  uuid4 :: "nat \<Rightarrow> uuid"
    \<comment> \<open>successive results of \<open>uuid4()\<close>\<close>
  token_urlsafe :: "nat \<Rightarrow> string"
    \<comment> \<open>successive results of \<open>secrets.token_urlsafe(24)\<close>\<close>
  bcrypt_hashpw :: "string \<Rightarrow> string"
    \<comment> \<open>\<open>bcrypt.hashpw\<close> with a salt generated in this request\<close>
  bcrypt_checkpw :: "string \<Rightarrow> string \<Rightarrow> bool"
    \<comment> \<open>plaintext, hash\<close>
  jwt_encode :: "json \<Rightarrow> string \<Rightarrow> string \<Rightarrow> string"
    \<comment> \<open>payload, secret, algorithm\<close>
  jwt_decode :: "string \<Rightarrow> string \<Rightarrow> string \<Rightarrow> json option"
    \<comment> \<open>token, secret, algorithm; \<open>None\<close> for a \<open>JWTError\<close>\<close>
  validate_email :: "string \<Rightarrow> string option"
    \<comment> \<open>pydantic's \<open>EmailStr\<close>: the normalized address, \<open>None\<close> when it is not one\<close>
  ilike :: "string \<Rightarrow> string \<Rightarrow> bool"
    \<comment> \<open>value, pattern\<close>
  json_loads_other :: "string \<Rightarrow> json option"
    \<comment> \<open>\<open>json.loads(raw.decode("utf-8"))\<close> of bytes that are not a flat object of plain
       strings; \<open>None\<close> for a ValueError\<close>
  fromisoformat_other :: "string \<Rightarrow> datetime option"
    \<comment> \<open>the instant \<open>datetime.fromisoformat\<close> reads from a text in another layout than
       \<open>isoformat\<close> writes; \<open>None\<close> for a ValueError\<close>
  row_locked :: "uuid \<Rightarrow> bool"
    \<comment> \<open>job rows that other transactions hold locked\<close>

text \<open>\<open>timedelta(days=...)\<close> and \<open>timedelta(hours=...)\<close> in microseconds.\<close>

definition timedelta_days :: "int \<Rightarrow> int" where
  "timedelta_days n = n * 86400000000"

definition timedelta_hours :: "int \<Rightarrow> int" where
  "timedelta_hours n = n * 3600000000"

section \<open>Secrets: \<open>app/core/security.py\<close>\<close>

definition API_KEY_PREFIX :: string where "API_KEY_PREFIX = ''gpuk_''"
definition API_KEY_LOOKUP_PREFIX_LENGTH :: nat where "API_KEY_LOOKUP_PREFIX_LENGTH = 12"
definition CLAIM_TOKEN_PREFIX :: string where "CLAIM_TOKEN_PREFIX = ''gpuclaim_''"
definition CLAIM_TOKEN_LOOKUP_PREFIX_LENGTH :: nat where "CLAIM_TOKEN_LOOKUP_PREFIX_LENGTH = 12"
definition AGENT_TOKEN_PREFIX :: string where "AGENT_TOKEN_PREFIX = ''gpuagent_''"
definition AGENT_TOKEN_LOOKUP_PREFIX_LENGTH :: nat where "AGENT_TOKEN_LOOKUP_PREFIX_LENGTH = 12"

definition hash_password :: "env \<Rightarrow> string \<Rightarrow> string" where
  "hash_password e plain = bcrypt_hashpw e plain"

definition verify_password :: "env \<Rightarrow> string \<Rightarrow> string \<Rightarrow> bool" where
  "verify_password e plain hashed = bcrypt_checkpw e plain hashed"

text \<open>The generators return the plaintext, its lookup prefix and its hash.\<close>

definition generate_api_key :: "env \<Rightarrow> string \<times> string \<times> string" where
  "generate_api_key e =
     (let token = API_KEY_PREFIX @ token_urlsafe e 0
      in (token, take API_KEY_LOOKUP_PREFIX_LENGTH token, bcrypt_hashpw e token))"

definition verify_api_key :: "env \<Rightarrow> string \<Rightarrow> string \<Rightarrow> bool" where
  "verify_api_key e plain hashed = bcrypt_checkpw e plain hashed"

definition api_key_lookup_prefix :: "string \<Rightarrow> string" where
  "api_key_lookup_prefix plain = take API_KEY_LOOKUP_PREFIX_LENGTH plain"

definition generate_claim_token :: "env \<Rightarrow> string \<times> string \<times> string" where
  "generate_claim_token e =
     (let token = CLAIM_TOKEN_PREFIX @ token_urlsafe e 0
      in (token, take CLAIM_TOKEN_LOOKUP_PREFIX_LENGTH token, bcrypt_hashpw e token))"

definition verify_claim_token :: "env \<Rightarrow> string \<Rightarrow> string \<Rightarrow> bool" where
  "verify_claim_token e plain hashed = bcrypt_checkpw e plain hashed"

definition claim_token_lookup_prefix :: "string \<Rightarrow> string" where
  "claim_token_lookup_prefix plain = take CLAIM_TOKEN_LOOKUP_PREFIX_LENGTH plain"

definition generate_agent_token :: "env \<Rightarrow> string \<times> string \<times> string" where
  "generate_agent_token e =
     (let token = AGENT_TOKEN_PREFIX @ token_urlsafe e 0
      in (token, take AGENT_TOKEN_LOOKUP_PREFIX_LENGTH token, bcrypt_hashpw e token))"

definition verify_agent_token :: "env \<Rightarrow> string \<Rightarrow> string \<Rightarrow> bool" where
  "verify_agent_token e plain hashed = bcrypt_checkpw e plain hashed"

definition agent_token_lookup_prefix :: "string \<Rightarrow> string" where
  "agent_token_lookup_prefix plain = take AGENT_TOKEN_LOOKUP_PREFIX_LENGTH plain"

text \<open>The \<open>exp\<close> claim is encoded in whole seconds.\<close>

definition create_access_token :: "env \<Rightarrow> string \<Rightarrow> string" where
  "create_access_token e subject =
     (let expire = clock e 0 + timedelta_days (jwt_expire_days (config e))
      in jwt_encode e (JObj [(''sub'', JStr subject), (''exp'', JInt (expire div 1000000))])
           (jwt_secret (config e)) (jwt_algorithm (config e)))"

definition decode_token :: "env \<Rightarrow> string \<Rightarrow> json option" where
  "decode_token e token = jwt_decode e token (jwt_secret (config e)) (jwt_algorithm (config e))"

section \<open>The three token schemes\<close>

text \<open>
  What the services rely on: a generated token starts with its kind's prefix, its stored
  lookup prefix is the one computed again from the plaintext, and its stored hash verifies.
\<close>

locale token_scheme =
  fixes generate :: "env \<Rightarrow> string \<times> string \<times> string"
    and lookup_prefix :: "string \<Rightarrow> string"
    and verify :: "env \<Rightarrow> string \<Rightarrow> string \<Rightarrow> bool"
    and kind :: string
  assumes generate_kind: "generate e = (plain, pre, h) \<Longrightarrow> take (length kind) plain = kind"
    and generate_prefix: "generate e = (plain, pre, h) \<Longrightarrow> lookup_prefix plain = pre"
    and generate_verify:
      "(\<And>p. bcrypt_checkpw e p (bcrypt_hashpw e p)) \<Longrightarrow> generate e = (plain, pre, h) \<Longrightarrow>
       verify e plain h"
    and prefix_length: "length (lookup_prefix plain) \<le> 12"
begin

lemma generated_token_authenticates:
  assumes "\<And>p. bcrypt_checkpw e p (bcrypt_hashpw e p)"
  shows "case generate e of (plain, pre, h) \<Rightarrow> lookup_prefix plain = pre \<and> verify e plain h"
  by (cases "generate e") (auto simp: generate_prefix intro: generate_verify assms)

lemma generated_prefix_fits: "case generate e of (plain, pre, h) \<Rightarrow> length pre \<le> 12"
  by (cases "generate e") (use generate_prefix prefix_length in force)

end

interpretation api_key_scheme:
  token_scheme generate_api_key api_key_lookup_prefix verify_api_key API_KEY_PREFIX
  by unfold_locales
    (auto simp: generate_api_key_def api_key_lookup_prefix_def verify_api_key_def API_KEY_PREFIX_def
       API_KEY_LOOKUP_PREFIX_LENGTH_def Let_def)

interpretation claim_scheme:
  token_scheme generate_claim_token claim_token_lookup_prefix verify_claim_token CLAIM_TOKEN_PREFIX
  by unfold_locales
    (auto simp: generate_claim_token_def claim_token_lookup_prefix_def verify_claim_token_def
       CLAIM_TOKEN_PREFIX_def CLAIM_TOKEN_LOOKUP_PREFIX_LENGTH_def Let_def)

interpretation agent_scheme:
  token_scheme generate_agent_token agent_token_lookup_prefix verify_agent_token AGENT_TOKEN_PREFIX
  by unfold_locales
    (auto simp: generate_agent_token_def agent_token_lookup_prefix_def verify_agent_token_def
       AGENT_TOKEN_PREFIX_def AGENT_TOKEN_LOOKUP_PREFIX_LENGTH_def Let_def)

end
