(* ===== verification/Repositories.thy ===== *)
theory Repositories
  imports Environment
begin

text \<open>
  The repositories of \<open>app/repositories/\<close> over the tables of \<open>Database\<close>: the SQL
  each method issues, with the constraints the schema puts on it (primary keys, unique
  columns, foreign keys with their ON DELETE actions, integer column ranges).
\<close>

section \<open>Ordering and pages\<close>

text \<open>
  Lists are ordered by creation time and then by id. The pair is a type of its own with the
  lexicographic order, so that the library's sorting applies.
\<close>

datatype row_key = RowKey (rk_time: datetime) (rk_id: uuid)

instantiation row_key :: linorder
begin

definition less_eq_row_key :: "row_key \<Rightarrow> row_key \<Rightarrow> bool" where
  "less_eq_row_key a b \<longleftrightarrow> rk_time a < rk_time b \<or> (rk_time a = rk_time b \<and> rk_id a \<le> rk_id b)"

definition less_row_key :: "row_key \<Rightarrow> row_key \<Rightarrow> bool" where
  "less_row_key a b \<longleftrightarrow> rk_time a < rk_time b \<or> (rk_time a = rk_time b \<and> rk_id a < rk_id b)"

instance
  by intro_classes (auto simp: less_eq_row_key_def less_row_key_def row_key.expand)

end

text \<open>
  \<open>.where(or_(created_at < ts, and_(created_at == ts, id < last_id)))\<close> when a cursor
  is given.
\<close>

definition after_cursor :: "row_key option \<Rightarrow> row_key \<Rightarrow> bool" where
  "after_cursor cur k = (case cur of None \<Rightarrow> True
     | Some c \<Rightarrow> rk_time k < rk_time c \<or> (rk_time k = rk_time c \<and> rk_id k < rk_id c))"

lemma after_cursor_less: "after_cursor (Some c) k \<longleftrightarrow> k < c"
  by (simp add: after_cursor_def less_row_key_def)

lemma after_cursor_None [simp]: "after_cursor None k"
  by (simp add: after_cursor_def)

text \<open>\<open>.order_by(created_at.desc(), id.desc())\<close> and \<open>.limit(limit)\<close>.\<close>

definition newest_first :: "('r \<Rightarrow> row_key) \<Rightarrow> 'r list \<Rightarrow> 'r list" where
  "newest_first key rows = rev (sort_key key rows)"

definition limit_rows :: "int \<Rightarrow> 'r list \<Rightarrow> 'r list" where
  "limit_rows n rows = take (nat n) rows"

definition user_key :: "user \<Rightarrow> row_key" where
  "user_key u = RowKey (u_created_at u) (u_id u)"

definition job_key :: "job \<Rightarrow> row_key" where
  "job_key j = RowKey (j_created_at j) (j_id j)"

definition audit_key :: "audit_log \<Rightarrow> row_key" where
  "audit_key a = RowKey (a_created_at a) (a_id a)"

text \<open>\<open>f"%{q}%"\<close>\<close>

definition contains_pattern :: "string \<Rightarrow> string" where
  "contains_pattern q = ''%'' @ q @ ''%''"

section \<open>Users: \<open>user_repo.py\<close>\<close>

text \<open>\<open>User(email=..., password_hash=...)\<close> with the column defaults.\<close>

definition new_user :: "env \<Rightarrow> uuid \<Rightarrow> string \<Rightarrow> string \<Rightarrow> user" where
  "new_user e i email password_hash =
     \<lparr>u_id = i, u_email = email, u_password_hash = password_hash, u_status = ''pending'',
      u_can_host = False, u_can_rent = True, u_is_admin = False, u_credits_gpu_hours = 0,
      u_created_at = txn_now e, u_updated_at = txn_now e\<rparr>"

definition insert_user :: "user \<Rightarrow> db \<Rightarrow> error + db" where
  "insert_user u d =
     (if u_id u \<in> u_id ` set (users d) then Inl (IntegrityError ''users_pkey'')
      else if u_email u \<in> u_email ` set (users d) then Inl (IntegrityError ''uq_users_email'')
      else Inr (d\<lparr>users := users d @ [u]\<rparr>))"

definition user_repo_create :: "env \<Rightarrow> uuid \<Rightarrow> string \<Rightarrow> string \<Rightarrow> user svc" where
  "user_repo_create e i email password_hash =
     (let u = new_user e i email password_hash in thenS (modify (insert_user u)) (ret u))"

definition user_repo_get_by_email :: "string \<Rightarrow> user option svc" where
  "user_repo_get_by_email email = query (\<lambda>d. lookup_row u_email email (users d))"

definition user_repo_get_by_id :: "uuid \<Rightarrow> user option svc" where
  "user_repo_get_by_id i = query (find_user i)"

definition user_rows ::
  "env \<Rightarrow> string option \<Rightarrow> string option \<Rightarrow> row_key option \<Rightarrow> int \<Rightarrow> db \<Rightarrow> user list" where
  "user_rows e status email_query cur n d =
     limit_rows n (newest_first user_key (filter (\<lambda>u.
       (case status of None \<Rightarrow> True | Some st \<Rightarrow> u_status u = st) \<and>
       (case email_query of None \<Rightarrow> True
        | Some q \<Rightarrow> q = [] \<or> ilike e (u_email u) (contains_pattern q)) \<and>
       after_cursor cur (user_key u)) (users d)))"

definition user_repo_list_filtered ::
  "env \<Rightarrow> string option \<Rightarrow> string option \<Rightarrow> row_key option \<Rightarrow> int \<Rightarrow> user list svc" where
  "user_repo_list_filtered e status email_query cur n = query (user_rows e status email_query cur n)"

text \<open>
  A flush of changed attributes of a user: an UPDATE is issued when some attribute really
  changed, and then \<open>updated_at\<close> gets its \<open>onupdate\<close> value.
\<close>

definition flush_user :: "env \<Rightarrow> user \<Rightarrow> user \<Rightarrow> db \<Rightarrow> error + db" where
  "flush_user e old new d =
     (if new = old then Inr d
      else if \<not> int4_ok (u_credits_gpu_hours new) then Inl (DataError ''credits_gpu_hours'')
      else Inr (d\<lparr>users := put_row u_id (new\<lparr>u_updated_at := txn_now e\<rparr>) (users d)\<rparr>))"

section \<open>Audit log: \<open>audit_repo.py\<close>\<close>

definition insert_audit :: "audit_log \<Rightarrow> db \<Rightarrow> error + db" where
  "insert_audit a d =
     (if a_id a \<in> a_id ` set (audit_events d) then Inl (IntegrityError ''audit_log_pkey'')
      else if (case a_user_id a of None \<Rightarrow> False | Some i \<Rightarrow> i \<notin> u_id ` set (users d))
      then Inl (IntegrityError ''audit_log_user_id_fkey'')
      else Inr (d\<lparr>audit_events := audit_events d @ [a]\<rparr>))"

definition audit_repo_create ::
  "env \<Rightarrow> uuid \<Rightarrow> string \<Rightarrow> uuid option \<Rightarrow> (string \<times> json) list option \<Rightarrow>
   string option \<Rightarrow> string option \<Rightarrow> audit_log svc" where
  "audit_repo_create e i event_type user_id event_data ip_address user_agent =
     (let a = \<lparr>a_id = i, a_user_id = user_id, a_event_type = event_type,
        a_event_data = JObj (case event_data of None \<Rightarrow> [] | Some fs \<Rightarrow> fs),
        a_ip_address = ip_address, a_user_agent = user_agent, a_created_at = txn_now e\<rparr>
      in thenS (modify (insert_audit a)) (ret a))"

text \<open>The address of the latest \<open>auth.signup\<close> event of the user.\<close>

definition audit_repo_get_signup_ip :: "uuid \<Rightarrow> string option svc" where
  "audit_repo_get_signup_ip i = query (\<lambda>d.
     case rev (sort_key a_created_at (filter (\<lambda>a. a_user_id a = Some i \<and>
            a_event_type a = ''auth.signup'') (audit_events d))) of
       [] \<Rightarrow> None | a # _ \<Rightarrow> a_ip_address a)"

text \<open>The email the outer join with \<open>users\<close> puts beside an event.\<close>

definition audit_email :: "db \<Rightarrow> audit_log \<Rightarrow> string option" where
  "audit_email d a = (case a_user_id a of None \<Rightarrow> None
     | Some i \<Rightarrow> map_option u_email (find_user i d))"

definition audit_rows ::
  "env \<Rightarrow> string option \<Rightarrow> string option \<Rightarrow> string option \<Rightarrow> datetime option \<Rightarrow> datetime option \<Rightarrow>
   row_key option \<Rightarrow> int \<Rightarrow> db \<Rightarrow> (audit_log \<times> string option) list" where
  "audit_rows e event_type user_email_query ip_address created_from created_to cur n d =
     map (\<lambda>a. (a, audit_email d a)) (limit_rows n (newest_first audit_key (filter (\<lambda>a.
       (case event_type of None \<Rightarrow> True | Some t \<Rightarrow> a_event_type a = t) \<and>
       (case user_email_query of None \<Rightarrow> True | Some q \<Rightarrow> q = [] \<or>
          (case audit_email d a of None \<Rightarrow> False | Some m \<Rightarrow> ilike e m (contains_pattern q))) \<and>
       (case ip_address of None \<Rightarrow> True | Some ip \<Rightarrow> a_ip_address a = Some ip) \<and>
       (case created_from of None \<Rightarrow> True | Some t \<Rightarrow> t \<le> a_created_at a) \<and>
       (case created_to of None \<Rightarrow> True | Some t \<Rightarrow> a_created_at a \<le> t) \<and>
       after_cursor cur (audit_key a)) (audit_events d))))"

definition audit_repo_list_filtered ::
  "env \<Rightarrow> string option \<Rightarrow> string option \<Rightarrow> string option \<Rightarrow> datetime option \<Rightarrow> datetime option \<Rightarrow>
   row_key option \<Rightarrow> int \<Rightarrow> (audit_log \<times> string option) list svc" where
  "audit_repo_list_filtered e event_type user_email_query ip_address created_from created_to cur n =
     query (audit_rows e event_type user_email_query ip_address created_from created_to cur n)"

definition audit_repo_get_with_email :: "uuid \<Rightarrow> (audit_log \<times> string option) option svc" where
  "audit_repo_get_with_email i = query (\<lambda>d.
     map_option (\<lambda>a. (a, audit_email d a)) (lookup_row a_id i (audit_events d)))"

section \<open>API keys: \<open>api_key_repo.py\<close>\<close>

definition insert_api_key :: "api_key \<Rightarrow> db \<Rightarrow> error + db" where
  "insert_api_key k d =
     (if k_id k \<in> k_id ` set (api_keys d) then Inl (IntegrityError ''api_keys_pkey'')
      else if k_prefix k \<in> k_prefix ` set (api_keys d) then Inl (IntegrityError ''uq_api_keys_prefix'')
      else if k_user_id k \<notin> u_id ` set (users d) then Inl (IntegrityError ''api_keys_user_id_fkey'')
      else Inr (d\<lparr>api_keys := api_keys d @ [k]\<rparr>))"

definition api_key_repo_create ::
  "env \<Rightarrow> uuid \<Rightarrow> uuid \<Rightarrow> string \<Rightarrow> string \<Rightarrow> string \<Rightarrow> api_key svc" where
  "api_key_repo_create e i user_id name prefix key_hash =
     (let k = \<lparr>k_id = i, k_user_id = user_id, k_name = name, k_prefix = prefix,
        k_hash = key_hash, k_created_at = txn_now e, k_revoked_at = None\<rparr>
      in thenS (modify (insert_api_key k)) (ret k))"

definition api_key_repo_list_for_user :: "uuid \<Rightarrow> api_key list svc" where
  "api_key_repo_list_for_user i = query (\<lambda>d.
     rev (sort_key k_created_at (filter (\<lambda>k. k_user_id k = i) (api_keys d))))"

definition api_key_repo_get_by_id :: "uuid \<Rightarrow> api_key option svc" where
  "api_key_repo_get_by_id i = query (\<lambda>d. lookup_row k_id i (api_keys d))"

definition api_key_repo_get_by_prefix :: "string \<Rightarrow> api_key option svc" where
  "api_key_repo_get_by_prefix prefix = query (\<lambda>d. lookup_row k_prefix prefix (api_keys d))"

definition api_key_repo_revoke :: "datetime \<Rightarrow> api_key \<Rightarrow> api_key svc" where
  "api_key_repo_revoke now k =
     (let k' = k\<lparr>k_revoked_at := Some now\<rparr>
      in thenS (modify (\<lambda>d. Inr (d\<lparr>api_keys := put_row k_id k' (api_keys d)\<rparr>))) (ret k'))"

section \<open>Claim tokens: \<open>claim_token_repo.py\<close>\<close>

definition insert_claim :: "claim_token \<Rightarrow> db \<Rightarrow> error + db" where
  "insert_claim c d =
     (if c_id c \<in> c_id ` set (claim_tokens d) then Inl (IntegrityError ''claim_tokens_pkey'')
      else if c_prefix c \<in> c_prefix ` set (claim_tokens d)
      then Inl (IntegrityError ''uq_claim_tokens_prefix'')
      else if c_user_id c \<notin> u_id ` set (users d) then Inl (IntegrityError ''claim_tokens_user_id_fkey'')
      else Inr (d\<lparr>claim_tokens := claim_tokens d @ [c]\<rparr>))"

definition claim_repo_create ::
  "env \<Rightarrow> uuid \<Rightarrow> uuid \<Rightarrow> string \<Rightarrow> string \<Rightarrow> datetime \<Rightarrow> claim_token svc" where
  "claim_repo_create e i user_id prefix token_hash expires_at =
     (let c = \<lparr>c_id = i, c_user_id = user_id, c_prefix = prefix, c_token_hash = token_hash,
        c_expires_at = expires_at, c_consumed_at = None, c_created_at = txn_now e\<rparr>
      in thenS (modify (insert_claim c)) (ret c))"

definition claim_repo_get_by_prefix :: "string \<Rightarrow> claim_token option svc" where
  "claim_repo_get_by_prefix prefix = query (\<lambda>d. lookup_row c_prefix prefix (claim_tokens d))"

definition claim_repo_mark_consumed :: "datetime \<Rightarrow> claim_token \<Rightarrow> claim_token svc" where
  "claim_repo_mark_consumed now c =
     (let c' = c\<lparr>c_consumed_at := Some now\<rparr>
      in thenS (modify (\<lambda>d. Inr (d\<lparr>claim_tokens := put_row c_id c' (claim_tokens d)\<rparr>))) (ret c'))"

section \<open>The tables as keyed tables\<close>

text \<open>
  What the services rely on when they read rows by id after a flush; rows of these tables are
  never deleted by the program.
\<close>

interpretation users_by_id: keyed_table find_user u_id
  "\<lambda>u d. d\<lparr>users := put_row u_id u (users d)\<rparr>" "\<lambda>u d. d\<lparr>users := users d @ [u]\<rparr>"
  "\<lambda>i d. d\<lparr>users := drop_row u_id i (users d)\<rparr>"
  by unfold_locales (auto simp: row_simps dest: lookup_row_SomeD)

interpretation keys_by_id: keyed_table "\<lambda>i d. lookup_row k_id i (api_keys d)" k_id
  "\<lambda>k d. d\<lparr>api_keys := put_row k_id k (api_keys d)\<rparr>" "\<lambda>k d. d\<lparr>api_keys := api_keys d @ [k]\<rparr>"
  "\<lambda>i d. d\<lparr>api_keys := drop_row k_id i (api_keys d)\<rparr>"
  by unfold_locales (auto simp: row_simps dest: lookup_row_SomeD)

interpretation claims_by_id: keyed_table "\<lambda>i d. lookup_row c_id i (claim_tokens d)" c_id
  "\<lambda>c d. d\<lparr>claim_tokens := put_row c_id c (claim_tokens d)\<rparr>"
  "\<lambda>c d. d\<lparr>claim_tokens := claim_tokens d @ [c]\<rparr>"
  "\<lambda>i d. d\<lparr>claim_tokens := drop_row c_id i (claim_tokens d)\<rparr>"
  by unfold_locales (auto simp: row_simps dest: lookup_row_SomeD)

end
