(* ===== verification/FleetRepositories.thy ===== *)
theory FleetRepositories
  imports Repositories
begin

text \<open>
  The repositories of the fleet: nodes, jobs, job logs and node metrics, with the
  scheduler's query (\<open>claim_next_for_node\<close>) and the two upserts.
\<close>

section \<open>Nodes: \<open>node_repo.py\<close>\<close>

definition insert_node :: "node \<Rightarrow> db \<Rightarrow> error + db" where
  "insert_node nd d =
     (if n_id nd \<in> n_id ` set (nodes d) then Inl (IntegrityError ''nodes_pkey'')
      else if n_agent_token_prefix nd \<noteq> None \<and>
        n_agent_token_prefix nd \<in> n_agent_token_prefix ` set (nodes d)
      then Inl (IntegrityError ''uq_nodes_agent_token_prefix'')
      else if n_user_id nd \<notin> u_id ` set (users d) then Inl (IntegrityError ''nodes_user_id_fkey'')
      else if \<not> int4_ok (n_gpu_memory_gb nd) then Inl (DataError ''gpu_memory_gb'')
      else if \<not> int4_ok (n_gpu_count nd) then Inl (DataError ''gpu_count'')
      else Inr (d\<lparr>nodes := nodes d @ [nd]\<rparr>))"

definition node_repo_create ::
  "env \<Rightarrow> uuid \<Rightarrow> uuid \<Rightarrow> string \<Rightarrow> string \<Rightarrow> int \<Rightarrow> int \<Rightarrow> string \<Rightarrow> string option \<Rightarrow>
   string option \<Rightarrow> datetime option \<Rightarrow> node svc" where
  "node_repo_create e i user_id name gpu_model gpu_memory_gb gpu_count status
      agent_token_prefix agent_token_hash last_seen_at =
     (let nd = \<lparr>n_id = i, n_user_id = user_id, n_name = name, n_gpu_model = gpu_model,
        n_gpu_memory_gb = gpu_memory_gb, n_gpu_count = gpu_count, n_status = status,
        n_last_seen_at = last_seen_at, n_agent_token_hash = agent_token_hash,
        n_agent_token_prefix = agent_token_prefix, n_created_at = txn_now e\<rparr>
      in thenS (modify (insert_node nd)) (ret nd))"

definition node_repo_list_for_user :: "uuid \<Rightarrow> node list svc" where
  "node_repo_list_for_user i = query (\<lambda>d.
     rev (sort_key n_created_at (filter (\<lambda>nd. n_user_id nd = i) (nodes d))))"

definition node_repo_get_by_id :: "uuid \<Rightarrow> node option svc" where
  "node_repo_get_by_id i = query (find_node i)"

definition node_repo_get_by_agent_prefix :: "string \<Rightarrow> node option svc" where
  "node_repo_get_by_agent_prefix prefix =
     query (\<lambda>d. lookup_row n_agent_token_prefix (Some prefix) (nodes d))"

text \<open>Setting one attribute of a loaded node and flushing it.\<close>

definition flush_node :: "node \<Rightarrow> db \<Rightarrow> error + db" where
  "flush_node nd d = Inr (d\<lparr>nodes := put_row n_id nd (nodes d)\<rparr>)"

definition node_repo_update_last_seen :: "datetime \<Rightarrow> node \<Rightarrow> node svc" where
  "node_repo_update_last_seen now nd =
     (let nd' = nd\<lparr>n_last_seen_at := Some now\<rparr> in thenS (modify (flush_node nd')) (ret nd'))"

definition node_repo_set_status :: "node \<Rightarrow> string \<Rightarrow> node svc" where
  "node_repo_set_status nd status =
     (let nd' = nd\<lparr>n_status := status\<rparr> in thenS (modify (flush_node nd')) (ret nd'))"

definition node_repo_revoke_agent_token :: "node \<Rightarrow> node svc" where
  "node_repo_revoke_agent_token nd =
     (let nd' = nd\<lparr>n_agent_token_hash := None\<rparr> in thenS (modify (flush_node nd')) (ret nd'))"

text \<open>
  Deleting a node: its metrics go with it, and jobs that name it as assigned or preferred
  node lose the reference (ON DELETE CASCADE and SET NULL).
\<close>

definition forget_node :: "uuid \<Rightarrow> job \<Rightarrow> job" where
  "forget_node i j =
     j\<lparr>j_assigned_node_id := (if j_assigned_node_id j = Some i then None else j_assigned_node_id j),
       j_preferred_node_id := (if j_preferred_node_id j = Some i then None else j_preferred_node_id j)\<rparr>"

definition delete_node_row :: "uuid \<Rightarrow> db \<Rightarrow> error + db" where
  "delete_node_row i d =
     Inr (d\<lparr>nodes := drop_row n_id i (nodes d), jobs := map (forget_node i) (jobs d),
            node_metrics := filter (\<lambda>m. m_node_id m \<noteq> i) (node_metrics d)\<rparr>)"

definition node_repo_delete :: "node \<Rightarrow> unit svc" where
  "node_repo_delete nd = modify (delete_node_row (n_id nd))"

section \<open>Jobs: \<open>job_repo.py\<close>\<close>

definition node_ref_ok :: "db \<Rightarrow> uuid option \<Rightarrow> bool" where
  "node_ref_ok d r = (case r of None \<Rightarrow> True | Some i \<Rightarrow> i \<in> n_id ` set (nodes d))"

definition insert_job :: "job \<Rightarrow> db \<Rightarrow> error + db" where
  "insert_job j d =
     (if j_id j \<in> j_id ` set (jobs d) then Inl (IntegrityError ''jobs_pkey'')
      else if j_user_id j \<notin> u_id ` set (users d) then Inl (IntegrityError ''jobs_user_id_fkey'')
      else if \<not> node_ref_ok d (j_preferred_node_id j)
      then Inl (IntegrityError ''jobs_preferred_node_id_fkey'')
      else if \<not> int4_ok (j_gpu_count j) then Inl (DataError ''gpu_count'')
      else if \<not> int4_ok (j_max_duration_seconds j) then Inl (DataError ''max_duration_seconds'')
      else Inr (d\<lparr>jobs := jobs d @ [j]\<rparr>))"

definition new_job ::
  "env \<Rightarrow> uuid \<Rightarrow> uuid \<Rightarrow> string \<Rightarrow> string list \<Rightarrow> int \<Rightarrow> int \<Rightarrow> uuid option \<Rightarrow> job" where
  "new_job e i user_id docker_image command gpu_count max_duration_seconds preferred_node_id =
     \<lparr>j_id = i, j_user_id = user_id, j_docker_image = docker_image, j_command = command,
      j_gpu_count = gpu_count, j_max_duration_seconds = max_duration_seconds,
      j_status = ''queued'', j_exit_code = None, j_error_message = None,
      j_assigned_node_id = None, j_preferred_node_id = preferred_node_id,
      j_created_at = txn_now e, j_started_at = None, j_completed_at = None,
      j_cancel_requested_at = None\<rparr>"

definition job_repo_create ::
  "env \<Rightarrow> uuid \<Rightarrow> uuid \<Rightarrow> string \<Rightarrow> string list \<Rightarrow> int \<Rightarrow> int \<Rightarrow> uuid option \<Rightarrow> job svc" where
  "job_repo_create e i user_id docker_image command gpu_count max_duration_seconds preferred_node_id =
     (let j = new_job e i user_id docker_image command gpu_count max_duration_seconds preferred_node_id
      in thenS (modify (insert_job j)) (ret j))"

definition job_repo_get_by_id :: "uuid \<Rightarrow> job option svc" where
  "job_repo_get_by_id i = query (find_job i)"

definition running_on :: "uuid \<Rightarrow> job \<Rightarrow> bool" where
  "running_on i j \<longleftrightarrow> j_assigned_node_id j = Some i \<and> j_status j = ''running''"

definition job_repo_get_running_for_node :: "uuid \<Rightarrow> job option svc" where
  "job_repo_get_running_for_node i = query (\<lambda>d. find (running_on i) (jobs d))"

definition job_rows ::
  "uuid \<Rightarrow> string option \<Rightarrow> row_key option \<Rightarrow> int \<Rightarrow> db \<Rightarrow> job list" where
  "job_rows i status cur n d =
     limit_rows n (newest_first job_key (filter (\<lambda>j. j_user_id j = i \<and>
       (case status of None \<Rightarrow> True | Some st \<Rightarrow> j_status j = st) \<and>
       after_cursor cur (job_key j)) (jobs d)))"

definition job_repo_list_for_user ::
  "uuid \<Rightarrow> string option \<Rightarrow> row_key option \<Rightarrow> int \<Rightarrow> job list svc" where
  "job_repo_list_for_user i status cur n = query (job_rows i status cur n)"

text \<open>
  The scheduler's query: queued, fitting the node's GPUs, not reserved for another node, not
  locked by another transaction (\<open>SKIP LOCKED\<close>), oldest first.
\<close>

definition claimable :: "env \<Rightarrow> uuid \<Rightarrow> int \<Rightarrow> job \<Rightarrow> bool" where
  "claimable e i gpu_capacity j \<longleftrightarrow>
     j_status j = ''queued'' \<and> j_gpu_count j \<le> gpu_capacity \<and>
     (j_preferred_node_id j = None \<or> j_preferred_node_id j = Some i) \<and> \<not> row_locked e (j_id j)"

definition next_claimable :: "env \<Rightarrow> uuid \<Rightarrow> int \<Rightarrow> job list \<Rightarrow> job option" where
  "next_claimable e i gpu_capacity js =
     (case sort_key job_key (filter (claimable e i gpu_capacity) js) of [] \<Rightarrow> None | j # _ \<Rightarrow> Some j)"

definition flush_job :: "job \<Rightarrow> db \<Rightarrow> error + db" where
  "flush_job j d = Inr (d\<lparr>jobs := put_row j_id j (jobs d)\<rparr>)"

definition assign_job :: "job \<Rightarrow> db \<Rightarrow> error + db" where
  "assign_job j d =
     (if \<not> node_ref_ok d (j_assigned_node_id j) then Inl (IntegrityError ''jobs_assigned_node_id_fkey'')
      else flush_job j d)"

definition job_repo_claim_next_for_node ::
  "env \<Rightarrow> datetime \<Rightarrow> uuid \<Rightarrow> int \<Rightarrow> job option svc" where
  "job_repo_claim_next_for_node e now i gpu_capacity =
     bindS (query (\<lambda>d. next_claimable e i gpu_capacity (jobs d))) (\<lambda>candidate.
     case candidate of None \<Rightarrow> ret None
     | Some j \<Rightarrow>
       (let j' = j\<lparr>j_status := ''running'', j_assigned_node_id := Some i, j_started_at := Some now\<rparr>
        in thenS (modify (assign_job j')) (ret (Some j'))))"

definition job_repo_mark_terminal ::
  "datetime \<Rightarrow> job \<Rightarrow> string \<Rightarrow> int option \<Rightarrow> string option \<Rightarrow> job svc" where
  "job_repo_mark_terminal now j terminal_status exit_code error_message =
     (let j' = j\<lparr>j_status := terminal_status, j_exit_code := exit_code,
                 j_error_message := error_message, j_completed_at := Some now\<rparr>
      in thenS (modify (flush_job j')) (ret j'))"

definition job_repo_request_cancel :: "datetime \<Rightarrow> job \<Rightarrow> job svc" where
  "job_repo_request_cancel now j =
     (let j' = j\<lparr>j_cancel_requested_at := Some now\<rparr> in thenS (modify (flush_job j')) (ret j'))"

section \<open>Job logs: \<open>job_log_repo.py\<close>\<close>

record log_entry =
  e_stream :: string
  e_content :: string
  e_sequence :: int

text \<open>
  \<open>INSERT ... ON CONFLICT (job_id, sequence) DO NOTHING\<close>, row by row: a row whose
  (job, sequence) is present, from an earlier batch or earlier in this one, is skipped.
\<close>

definition log_present :: "uuid \<Rightarrow> int \<Rightarrow> job_log list \<Rightarrow> bool" where
  "log_present job_id sequence logs \<longleftrightarrow>
     (\<exists>l \<in> set logs. l_job_id l = job_id \<and> l_sequence l = sequence)"

fun insert_logs ::
  "env \<Rightarrow> uuid \<Rightarrow> nat \<Rightarrow> log_entry list \<Rightarrow> job_log list \<Rightarrow> error + (nat \<times> job_log list)" where
  "insert_logs e job_id k [] logs = Inr (0, logs)"
| "insert_logs e job_id k (x # xs) logs =
     (if \<not> int4_ok (e_sequence x) then Inl (DataError ''sequence'')
      else if log_present job_id (e_sequence x) logs then insert_logs e job_id (Suc k) xs logs
      else if uuid4 e k \<in> l_id ` set logs then Inl (IntegrityError ''job_logs_pkey'')
      else (case insert_logs e job_id (Suc k) xs
              (logs @ [\<lparr>l_id = uuid4 e k, l_job_id = job_id, l_stream = e_stream x,
                 l_content = e_content x, l_sequence = e_sequence x, l_received_at = txn_now e\<rparr>]) of
            Inl err \<Rightarrow> Inl err | Inr (m, logs') \<Rightarrow> Inr (Suc m, logs')))"

definition append_log_rows :: "env \<Rightarrow> uuid \<Rightarrow> log_entry list \<Rightarrow> db \<Rightarrow> error + (nat \<times> db)" where
  "append_log_rows e job_id entries d =
     (if job_id \<notin> j_id ` set (jobs d) then Inl (IntegrityError ''job_logs_job_id_fkey'')
      else (case insert_logs e job_id 0 entries (job_logs d) of
              Inl err \<Rightarrow> Inl err | Inr (m, logs') \<Rightarrow> Inr (m, d\<lparr>job_logs := logs'\<rparr>)))"

definition job_log_repo_append :: "env \<Rightarrow> uuid \<Rightarrow> log_entry list \<Rightarrow> nat svc" where
  "job_log_repo_append e job_id entries =
     (if entries = [] then ret 0
      else bindS (query (append_log_rows e job_id entries)) (\<lambda>r.
        case map_sum id fst r of
          Inl err \<Rightarrow> throw err
        | Inr m \<Rightarrow> thenS (modify (\<lambda>d. map_sum id snd (append_log_rows e job_id entries d))) (ret m)))"

definition log_rows :: "uuid \<Rightarrow> int \<Rightarrow> int \<Rightarrow> db \<Rightarrow> job_log list" where
  "log_rows job_id after_sequence n d =
     limit_rows n (sort_key l_sequence
       (filter (\<lambda>l. l_job_id l = job_id \<and> l_sequence l > after_sequence) (job_logs d)))"

definition job_log_repo_list_after :: "uuid \<Rightarrow> int \<Rightarrow> int \<Rightarrow> job_log list svc" where
  "job_log_repo_list_after job_id after_sequence n = query (log_rows job_id after_sequence n)"

section \<open>Node metrics: \<open>node_metric_repo.py\<close>\<close>

record metric_sample =
  s_gpu_index :: int
  s_utilization_pct :: int
  s_memory_used_bytes :: int
  s_memory_total_bytes :: int
  s_temperature_c :: int

definition metric_of_sample :: "uuid \<Rightarrow> datetime \<Rightarrow> metric_sample \<Rightarrow> node_metric" where
  "metric_of_sample i now x =
     \<lparr>m_node_id = i, m_gpu_index = s_gpu_index x, m_utilization_pct = s_utilization_pct x,
      m_memory_used_bytes = s_memory_used_bytes x, m_memory_total_bytes = s_memory_total_bytes x,
      m_temperature_c = s_temperature_c x, m_recorded_at = now\<rparr>"

definition metric_key :: "node_metric \<Rightarrow> uuid \<times> int" where
  "metric_key m = (m_node_id m, m_gpu_index m)"

definition upsert_metric :: "node_metric \<Rightarrow> node_metric list \<Rightarrow> node_metric list" where
  "upsert_metric m ms =
     (if metric_key m \<in> metric_key ` set ms then put_row metric_key m ms else ms @ [m])"

definition metric_in_range :: "node_metric \<Rightarrow> bool" where
  "metric_in_range m \<longleftrightarrow> int4_ok (m_gpu_index m) \<and> int4_ok (m_utilization_pct m) \<and>
     int8_ok (m_memory_used_bytes m) \<and> int8_ok (m_memory_total_bytes m) \<and> int4_ok (m_temperature_c m)"

text \<open>
  \<open>INSERT ... ON CONFLICT (node_id, gpu_index) DO UPDATE\<close>: one statement may not touch the
  same row twice.
\<close>

definition upsert_metric_rows :: "uuid \<Rightarrow> datetime \<Rightarrow> metric_sample list \<Rightarrow> db \<Rightarrow> error + db" where
  "upsert_metric_rows i now samples d =
     (let ms = map (metric_of_sample i now) samples in
      if \<not> list_all metric_in_range ms then Inl (DataError ''node_metrics'')
      else if \<not> distinct (map metric_key ms) then Inl CardinalityViolation
      else if i \<notin> n_id ` set (nodes d) then Inl (IntegrityError ''node_metrics_node_id_fkey'')
      else Inr (d\<lparr>node_metrics := fold upsert_metric ms (node_metrics d)\<rparr>))"

definition node_metric_repo_upsert_samples ::
  "datetime \<Rightarrow> uuid \<Rightarrow> metric_sample list \<Rightarrow> unit svc" where
  "node_metric_repo_upsert_samples now i samples =
     (if samples = [] then ret () else modify (upsert_metric_rows i now samples))"

definition node_metric_repo_list_all :: "node_metric list svc" where
  "node_metric_repo_list_all = query node_metrics"

section \<open>Nodes and jobs as keyed tables\<close>

interpretation nodes_by_id: keyed_table find_node n_id "\<lambda>nd d. projr (flush_node nd d)"
  "\<lambda>nd d. d\<lparr>nodes := nodes d @ [nd]\<rparr>" "\<lambda>i d. projr (delete_node_row i d)"
  by unfold_locales (auto simp: row_simps flush_node_def delete_node_row_def dest: lookup_row_SomeD)

interpretation jobs_by_id: keyed_table find_job j_id "\<lambda>j d. projr (flush_job j d)"
  "\<lambda>j d. d\<lparr>jobs := jobs d @ [j]\<rparr>" "\<lambda>i d. d\<lparr>jobs := drop_row j_id i (jobs d)\<rparr>"
  by unfold_locales (auto simp: row_simps flush_job_def dest: lookup_row_SomeD)

end
