(* ===== verification/PyUuid.thy ===== *)
theory PyUuid
  imports PyText
begin

text \<open>
  Python's \<open>UUID(hex)\<close> constructor: what it strips, the length it insists on, and
  \<open>int(hex, 16)\<close> with its whitespace, sign, radix prefix and underscores. The result
  is \<open>None\<close> for the ValueErrors it raises. A UUID printed with \<open>str\<close> is read back.
\<close>

section \<open>\<open>str\<close> methods\<close>

text \<open>\<open>s.replace(old, "")\<close> for a non-empty \<open>old\<close>: occurrences from left to right.\<close>

function remove_all :: "string \<Rightarrow> string \<Rightarrow> string" where
  "remove_all old [] = []"
| "remove_all old (c # s) =
     (if old \<noteq> [] \<and> take (length old) (c # s) = old then remove_all old (drop (length old) (c # s))
      else c # remove_all old s)"
  by pat_completeness auto
termination
  by (relation "measure (\<lambda>(old, s). length s)") auto

definition strip_chars :: "(char \<Rightarrow> bool) \<Rightarrow> string \<Rightarrow> string" where
  "strip_chars P s = rev (dropWhile P (rev (dropWhile P s)))"

section \<open>\<open>int(s, 16)\<close>\<close>

definition is_space :: "char \<Rightarrow> bool" where
  "is_space c \<longleftrightarrow> (let n = (of_char c :: int) in
     (9 \<le> n \<and> n \<le> 13) \<or> (28 \<le> n \<and> n \<le> 32) \<or> n = 133 \<or> n = 160)"

definition hex_value :: "char \<Rightarrow> int option" where
  "hex_value c = (let n = (of_char c :: int) in
     if 48 \<le> n \<and> n \<le> 57 then Some (n - 48)
     else if 97 \<le> n \<and> n \<le> 102 then Some (n - 87)
     else if 65 \<le> n \<and> n \<le> 70 then Some (n - 55) else None)"

text \<open>Digits with single underscores between them, after the value read so far.\<close>

fun hex_digits :: "int \<Rightarrow> string \<Rightarrow> int option" where
  "hex_digits acc [] = Some acc"
| "hex_digits acc (c # s) =
     (if c = CHR ''_'' then
        (case s of [] \<Rightarrow> None
         | d # s' \<Rightarrow> (case hex_value d of None \<Rightarrow> None | Some v \<Rightarrow> hex_digits (acc * 16 + v) s'))
      else (case hex_value c of None \<Rightarrow> None | Some v \<Rightarrow> hex_digits (acc * 16 + v) s))"

text \<open>A number starts with a digit; after \<open>0x\<close> an underscore may come first.\<close>

definition hex_number :: "string \<Rightarrow> int option" where
  "hex_number s =
     (case s of [] \<Rightarrow> None
      | c # s' \<Rightarrow> (case hex_value c of None \<Rightarrow> None | Some v \<Rightarrow> hex_digits v s'))"

definition has_0x :: "string \<Rightarrow> bool" where
  "has_0x s \<longleftrightarrow> take 2 s = ''0x'' \<or> take 2 s = ''0X''"

definition unsigned_base16 :: "string \<Rightarrow> int option" where
  "unsigned_base16 s =
     (if has_0x s
      then (let r = drop 2 s in
            case r of [] \<Rightarrow> None
            | c # r' \<Rightarrow> if c = CHR ''_'' then hex_number r' else hex_number r)
      else hex_number s)"

definition int_base16 :: "string \<Rightarrow> int option" where
  "int_base16 s =
     (case strip_chars is_space s of
        [] \<Rightarrow> None
      | c # t \<Rightarrow>
          (if c = CHR ''-'' then map_option uminus (unsigned_base16 t)
           else if c = CHR ''+'' then unsigned_base16 t
           else unsigned_base16 (c # t)))"

section \<open>\<open>UUID(hex)\<close>\<close>

definition is_brace :: "char \<Rightarrow> bool" where
  "is_brace c \<longleftrightarrow> c = CHR ''{'' \<or> c = CHR ''}''"

definition parse_uuid :: "string \<Rightarrow> uuid option" where
  "parse_uuid s =
     (let h = remove_all ''uuid:'' (remove_all ''urn:'' s);
          h = remove_all ''-'' (strip_chars is_brace h)
      in if length h \<noteq> 32 then None
         else case int_base16 h of
                None \<Rightarrow> None
              | Some n \<Rightarrow> if 0 \<le> n \<and> n < 2 ^ 128 then Some (word_of_int n) else None)"

section \<open>Reading back what \<open>str\<close> printed\<close>

lemma length_pad_digits [simp]: "length (pad_digits b k n) = k"
  by (induction b k n rule: pad_digits.induct) auto

definition hex_char :: "char \<Rightarrow> bool" where
  "hex_char c \<longleftrightarrow> hex_value c \<noteq> None \<and> c \<noteq> CHR ''_''"

lemma hex_value_digit:
  assumes "0 \<le> d" and "d < 16"
  shows "hex_value (digit_char d) = Some d" "digit_char d \<noteq> CHR ''_'' "
proof -
  have "d \<in> {0, 1, 2, 3, 4, 5, 6, 7, 8, 9, 10, 11, 12, 13, 14, 15}" using assms by (simp; presburger)
  then show "hex_value (digit_char d) = Some d"
    by (elim insertE) (simp_all add: digit_char_def hex_value_def Let_def)
  show "digit_char d \<noteq> CHR ''_''"
  proof
    assume "digit_char d = CHR ''_''"
    then have "(of_char (digit_char d) :: int) = 95" by simp
    with assms show False by (simp add: digit_char_def split: if_splits)
  qed
qed

lemma pad_digits_chars: "c \<in> set (pad_digits 16 k n) \<Longrightarrow> hex_char c"
proof (induction k arbitrary: n)
  case (Suc k)
  have "hex_char (digit_char (n mod 16))"
    using hex_value_digit [of "n mod 16"] by (simp add: hex_char_def)
  with Suc show ?case by auto
qed simp

lemma hex_digits_append:
  assumes "\<And>c. c \<in> set s \<Longrightarrow> hex_char c"
  shows "hex_digits acc (s @ t) = (case hex_digits acc s of None \<Rightarrow> None | Some v \<Rightarrow> hex_digits v t)"
  using assms
proof (induction s arbitrary: acc)
  case (Cons c s)
  then obtain v where "hex_value c = Some v" and "c \<noteq> CHR ''_''" by (auto simp: hex_char_def)
  with Cons show ?case by simp
qed simp

lemma hex_digits_pad:
  assumes "0 \<le> n" and "n < 16 ^ k"
  shows "hex_digits acc (pad_digits 16 k n) = Some (acc * 16 ^ k + n)"
  using assms
proof (induction k arbitrary: n acc)
  case (Suc k)
  have n: "n div 16 * 16 + n mod 16 = n" by presburger
  have "hex_digits acc (pad_digits 16 k (n div 16)) = Some (acc * 16 ^ k + n div 16)"
    using Suc by (intro Suc.IH) auto
  then show ?case
    using hex_value_digit [of "n mod 16"] n
    by (simp add: hex_digits_append [OF pad_digits_chars] algebra_simps)
qed simp

lemma hex_number_digits:
  assumes "s \<noteq> []" and "\<And>c. c \<in> set s \<Longrightarrow> hex_char c"
  shows "hex_number s = hex_digits 0 s"
  using assms by (cases s) (auto simp: hex_number_def hex_char_def split: option.splits)

lemma hex_value_bounds: "hex_value c = Some v \<Longrightarrow> 48 \<le> (of_char c :: int)"
  by (auto simp: hex_value_def Let_def split: if_splits)

lemma hex_char_not:
  "hex_char c \<Longrightarrow> \<not> is_space c \<and> \<not> is_brace c \<and> c \<noteq> CHR ''-'' \<and> c \<noteq> CHR '':'' \<and> c \<noteq> CHR ''+'' \<and>
    c \<noteq> CHR ''x'' \<and> c \<noteq> CHR ''X''"
  by (auto simp: hex_char_def hex_value_def is_space_def is_brace_def Let_def split: if_splits)

lemma strip_none: "(\<And>c. c \<in> set s \<Longrightarrow> \<not> P c) \<Longrightarrow> strip_chars P s = s"
proof -
  assume "\<And>c. c \<in> set s \<Longrightarrow> \<not> P c"
  then have "dropWhile P s = s" "dropWhile P (rev s) = rev s"
    by (auto simp: dropWhile_eq_self_iff hd_rev)
  then show ?thesis by (simp add: strip_chars_def)
qed

lemma remove_all_absent: "c \<in> set old \<Longrightarrow> c \<notin> set s \<Longrightarrow> remove_all old s = s"
proof (induction old s rule: remove_all.induct)
  case (2 old a s)
  have "take (length old) (a # s) \<noteq> old" using "2.prems" by (metis in_set_takeD)
  with 2 show ?case by auto
qed simp

lemma remove_all_single: "remove_all [c] s = filter (\<lambda>x. x \<noteq> c) s"
  by (induction s) auto

lemma int_base16_hex:
  assumes "s \<noteq> []" and "\<And>c. c \<in> set s \<Longrightarrow> hex_char c"
  shows "int_base16 s = hex_digits 0 s"
proof -
  obtain c t where s: "s = c # t" using assms(1) by (cases s) auto
  have no: "\<not> has_0x s" using assms(2) hex_char_not
    by (cases t) (auto simp: has_0x_def s)
  have "strip_chars is_space s = s" using assms(2) hex_char_not by (blast intro: strip_none)
  then have "int_base16 s = unsigned_base16 s"
    using hex_char_not [OF assms(2) [of c]] by (simp add: int_base16_def s)
  also have "\<dots> = hex_number s" using no by (simp add: unsigned_base16_def)
  finally show ?thesis using assms hex_number_digits by simp
qed

lemma filter_hex: "(\<And>c. c \<in> set s \<Longrightarrow> hex_char c) \<Longrightarrow> filter (\<lambda>x. x \<noteq> CHR ''-'') s = s"
  by (auto simp: filter_id_conv dest: hex_char_not)

lemma uuid_hex_chars: "c \<in> set (uuid_hex u) \<Longrightarrow> hex_char c"
  by (auto simp: uuid_hex_def dest: pad_digits_chars)

lemma str_uuid_chars: "c \<in> set (str_uuid u) \<Longrightarrow> hex_char c \<or> c = CHR ''-''"
  by (auto simp: str_uuid_def Let_def dest!: in_set_takeD in_set_dropD uuid_hex_chars)

lemma str_uuid_no_hyphen: "filter (\<lambda>x. x \<noteq> CHR ''-'') (str_uuid u) = uuid_hex u"
proof -
  let ?h = "uuid_hex u"
  have f: "filter (\<lambda>x. x \<noteq> CHR ''-'') (take a (drop b ?h)) = take a (drop b ?h)"
    and f': "filter (\<lambda>x. x \<noteq> CHR ''-'') (take a ?h) = take a ?h"
    and f'': "filter (\<lambda>x. x \<noteq> CHR ''-'') (drop b ?h) = drop b ?h" for a b
    by (rule filter_hex, auto dest!: in_set_takeD in_set_dropD uuid_hex_chars)+
  have "take 8 ?h @ take 4 (drop 8 ?h) @ take 4 (drop 12 ?h) @ take 4 (drop 16 ?h) @ drop 20 ?h = ?h"
    using append_take_drop_id [of 8 ?h] append_take_drop_id [of 4 "drop 8 ?h"]
      append_take_drop_id [of 4 "drop 12 ?h"] append_take_drop_id [of 4 "drop 16 ?h"] by simp
  with f f' f'' show ?thesis by (simp add: str_uuid_def Let_def)
qed

lemma parse_str_uuid: "parse_uuid (str_uuid u) = Some u"
proof -
  have colon: "CHR '':'' \<notin> set (str_uuid u)"
    using str_uuid_chars hex_char_not by fastforce
  have strip: "strip_chars is_brace (str_uuid u) = str_uuid u"
    by (rule strip_none) (use str_uuid_chars hex_char_not in \<open>fastforce simp: is_brace_def\<close>)
  have h: "int_base16 (uuid_hex u) = Some (uint u)"
  proof -
    have "uint u < 16 ^ 32" using uint_lt2p [of u] by simp
    then have "hex_digits 0 (uuid_hex u) = Some (uint u)"
      using hex_digits_pad [of "uint u" 32 0] by (simp add: uuid_hex_def)
    moreover have "uuid_hex u \<noteq> []"
      using length_pad_digits [of 16 32 "uint u"] by (auto simp: uuid_hex_def simp del: length_pad_digits)
    ultimately show ?thesis using int_base16_hex uuid_hex_chars by metis
  qed
  have "uint u < 2 ^ 128" using uint_lt2p [of u] by simp
  then show ?thesis
    by (simp add: parse_uuid_def remove_all_absent [OF _ colon] strip remove_all_single
        str_uuid_no_hyphen h uuid_hex_def [THEN arg_cong [where f = length]] Let_def)
qed

lemma str_uuid_inject: "str_uuid u = str_uuid v \<longleftrightarrow> u = v"
  by (metis option.inject parse_str_uuid)

end
