(* ===== verification/PyBase64.thy ===== *)
theory PyBase64
  imports PyUuid
begin

text \<open>
  \<open>base64.urlsafe_b64encode\<close> and \<open>base64.urlsafe_b64decode\<close> on byte strings (a
  byte is a \<open>char\<close>), with the decoder's leniency: characters outside the alphabet are
  skipped, both alphabets are accepted, and the input ends at a complete padding.
\<close>

section \<open>Encoding\<close>

definition b64_char :: "int \<Rightarrow> char" where
  "b64_char v = char_of
     (if v < 26 then 65 + v else if v < 52 then 71 + v else if v < 62 then v - 4
      else if v = 62 then 45 else 95)"

definition byte :: "char \<Rightarrow> int" where
  "byte c = of_char c"

text \<open>The characters of a byte string, without padding, and the padding that completes it.\<close>

fun b64_body :: "string \<Rightarrow> string" where
  "b64_body [] = []"
| "b64_body [a] = [b64_char (byte a div 4), b64_char (byte a mod 4 * 16)]"
| "b64_body [a, b] = [b64_char (byte a div 4), b64_char (byte a mod 4 * 16 + byte b div 16),
     b64_char (byte b mod 16 * 4)]"
| "b64_body (a # b # c # s) = b64_char (byte a div 4) # b64_char (byte a mod 4 * 16 + byte b div 16)
     # b64_char (byte b mod 16 * 4 + byte c div 64) # b64_char (byte c mod 64) # b64_body s"

definition b64_padding :: "nat \<Rightarrow> string" where
  "b64_padding n = replicate (nat ((- int n) mod 4)) (CHR ''='')"

definition urlsafe_b64encode :: "string \<Rightarrow> string" where
  "urlsafe_b64encode s = b64_body s @ b64_padding (length (b64_body s))"

section \<open>Decoding\<close>

definition b64_value :: "char \<Rightarrow> int option" where
  "b64_value c = (let n = byte c in
     if 65 \<le> n \<and> n \<le> 90 then Some (n - 65)
     else if 97 \<le> n \<and> n \<le> 122 then Some (n - 71)
     else if 48 \<le> n \<and> n \<le> 57 then Some (n + 4)
     else if n = 43 \<or> n = 45 then Some 62
     else if n = 47 \<or> n = 95 then Some 63 else None)"

text \<open>
  The state is the position in the current group of four, the bits left over from the
  last character and the padding characters seen.
\<close>

fun a2b_base64 :: "nat \<Rightarrow> int \<Rightarrow> nat \<Rightarrow> string \<Rightarrow> string option" where
  "a2b_base64 quad left pads [] = (if quad = 0 then Some [] else None)"
| "a2b_base64 quad left pads (c # s) =
     (if c = CHR ''='' then
        (if quad < 2 then a2b_base64 quad left pads s
         else if quad + pads + 1 \<ge> 4 then Some []
         else a2b_base64 quad left (pads + 1) s)
      else case b64_value c of
        None \<Rightarrow> a2b_base64 quad left pads s
      | Some v \<Rightarrow>
          (if quad = 0 then a2b_base64 1 v 0 s
           else if quad = 1 then map_option ((#) (char_of (left * 4 + v div 16))) (a2b_base64 2 (v mod 16) 0 s)
           else if quad = 2 then map_option ((#) (char_of (left * 16 + v div 4))) (a2b_base64 3 (v mod 4) 0 s)
           else map_option ((#) (char_of (left * 64 + v))) (a2b_base64 0 0 0 s)))"

definition urlsafe_b64decode :: "string \<Rightarrow> string option" where
  "urlsafe_b64decode s = a2b_base64 0 0 0 s"

section \<open>Round trip\<close>

lemma byte_range: "0 \<le> byte c" "byte c < 256"
proof -
  have "byte c = of_char (char_of (of_char c :: int))" by (simp add: byte_def)
  also have "\<dots> = of_char c mod 256" by (simp only: of_char_of)
  finally have "byte c = byte c mod 256" by (simp add: byte_def)
  then show "0 \<le> byte c" "byte c < 256"
    by (metis pos_mod_sign zero_less_numeral, metis pos_mod_bound zero_less_numeral)
qed

lemma char_of_byte [simp]: "char_of (byte c) = c"
  by (simp add: byte_def)

lemma byte_char_of: "0 \<le> n \<Longrightarrow> n < 256 \<Longrightarrow> byte (char_of n) = n"
  by (simp add: byte_def)

lemma b64_char_code:
  assumes "0 \<le> v" and "v < 64"
  shows "byte (b64_char v) = (if v < 26 then 65 + v else if v < 52 then 71 + v
    else if v < 62 then v - 4 else if v = 62 then 45 else 95)"
  unfolding b64_char_def by (rule byte_char_of) (use assms in auto)

lemma b64_value_char:
  assumes "0 \<le> v" and "v < 64"
  shows "b64_value (b64_char v) = Some v"
  using assms by (auto simp: b64_value_def b64_char_code Let_def)

lemma b64_char_ok:
  assumes "0 \<le> v" and "v < 64"
  shows "b64_char v \<noteq> CHR ''=''" "byte (b64_char v) < 128"
proof -
  have "byte (CHR ''='') = 61" by (simp add: byte_def)
  then show "b64_char v \<noteq> CHR ''=''" "byte (b64_char v) < 128"
    using b64_char_code [OF assms] assms by (auto split: if_splits)
qed

lemma sextet_ranges:
  "0 \<le> byte a div 4" "byte a div 4 < 64" "0 \<le> byte a mod 4 * 16" "byte a mod 4 * 16 < 64"
  "0 \<le> byte a mod 4 * 16 + byte b div 16" "byte a mod 4 * 16 + byte b div 16 < 64"
  "0 \<le> byte b mod 16 * 4" "byte b mod 16 * 4 < 64"
  "0 \<le> byte b mod 16 * 4 + byte c div 64" "byte b mod 16 * 4 + byte c div 64 < 64"
  "0 \<le> byte c mod 64" "byte c mod 64 < 64"
proof -
  have "byte a mod 4 < 4" "0 \<le> byte a mod 4" "byte b mod 16 < 16" "0 \<le> byte b mod 16"
    "byte b div 16 < 16" "0 \<le> byte b div 16" "byte c div 64 < 4" "0 \<le> byte c div 64"
    "byte a div 4 < 64" "0 \<le> byte a div 4"
    using byte_range [of a] byte_range [of b] byte_range [of c] by (auto simp: pos_imp_zdiv_nonneg_iff)
  then show "0 \<le> byte a div 4" "byte a div 4 < 64" "0 \<le> byte a mod 4 * 16" "byte a mod 4 * 16 < 64"
    "0 \<le> byte a mod 4 * 16 + byte b div 16" "byte a mod 4 * 16 + byte b div 16 < 64"
    "0 \<le> byte b mod 16 * 4" "byte b mod 16 * 4 < 64"
    "0 \<le> byte b mod 16 * 4 + byte c div 64" "byte b mod 16 * 4 + byte c div 64 < 64"
    "0 \<le> byte c mod 64" "byte c mod 64 < 64"
    by simp_all
qed

lemma sextet_pack:
  fixes x y :: int
  shows "0 \<le> y \<Longrightarrow> y < 16 \<Longrightarrow> (x * 16 + y) div 16 = x"
    and "0 \<le> y \<Longrightarrow> y < 16 \<Longrightarrow> (x * 16 + y) mod 16 = y"
    and "0 \<le> y \<Longrightarrow> y < 4 \<Longrightarrow> (x * 4 + y) div 4 = x"
    and "0 \<le> y \<Longrightarrow> y < 4 \<Longrightarrow> (x * 4 + y) mod 4 = y"
  by simp_all

lemma byte_packs:
  "byte a div 4 * 4 + (byte a mod 4 * 16) div 16 = byte a"
  "byte a div 4 * 4 + (byte a mod 4 * 16 + byte b div 16) div 16 = byte a"
  "(byte a mod 4 * 16 + byte b div 16) mod 16 = byte b div 16"
  "byte b div 16 * 16 + (byte b mod 16 * 4) div 4 = byte b"
  "byte b div 16 * 16 + (byte b mod 16 * 4 + byte c div 64) div 4 = byte b"
  "(byte b mod 16 * 4 + byte c div 64) mod 4 = byte c div 64"
  "byte c div 64 * 64 + byte c mod 64 = byte c"
proof -
  have b: "0 \<le> byte b div 16" "byte b div 16 < 16" and c: "0 \<le> byte c div 64" "byte c div 64 < 4"
    using byte_range [of b] byte_range [of c] by (auto simp: pos_imp_zdiv_nonneg_iff)
  note p = sextet_pack(1,2) [OF b] sextet_pack(3,4) [OF c]
  show "byte a div 4 * 4 + (byte a mod 4 * 16 + byte b div 16) div 16 = byte a"
    unfolding p by (rule div_mult_mod_eq)
  show "byte b div 16 * 16 + (byte b mod 16 * 4 + byte c div 64) div 4 = byte b"
    unfolding p by (rule div_mult_mod_eq)
  show "(byte a mod 4 * 16 + byte b div 16) mod 16 = byte b div 16"
    "(byte b mod 16 * 4 + byte c div 64) mod 4 = byte c div 64" by (rule p)+
  have "byte a mod 4 * 16 div 16 = byte a mod 4" "byte b mod 16 * 4 div 4 = byte b mod 16"
    by (rule nonzero_mult_div_cancel_right, simp)+
  then show "byte a div 4 * 4 + (byte a mod 4 * 16) div 16 = byte a"
    "byte b div 16 * 16 + (byte b mod 16 * 4) div 4 = byte b"
    by (simp_all only: div_mult_mod_eq)
  show "byte c div 64 * 64 + byte c mod 64 = byte c" by (rule div_mult_mod_eq)
qed

lemma a2b_step:
  assumes "0 \<le> v" and "v < 64"
  shows "a2b_base64 quad left pads (b64_char v # s) =
    (if quad = 0 then a2b_base64 1 v 0 s
     else if quad = 1 then map_option ((#) (char_of (left * 4 + v div 16))) (a2b_base64 2 (v mod 16) 0 s)
     else if quad = 2 then map_option ((#) (char_of (left * 16 + v div 4))) (a2b_base64 3 (v mod 4) 0 s)
     else map_option ((#) (char_of (left * 64 + v))) (a2b_base64 0 0 0 s))"
  using b64_value_char [OF assms] b64_char_ok(1) [OF assms] by simp

lemma b64_padding_four: "b64_padding (Suc (Suc (Suc (Suc n)))) = b64_padding n"
proof -
  have "(- int (Suc (Suc (Suc (Suc n))))) mod 4 = (- int n) mod 4" by presburger
  then show ?thesis by (simp add: b64_padding_def)
qed

lemma a2b_final:
  "a2b_base64 2 left 0 ''=='' = Some []" "a2b_base64 3 left 0 ''='' = Some []"
  by simp_all

lemma quads: "(1::nat) \<noteq> 0" "(2::nat) \<noteq> 0" "(2::nat) \<noteq> 1" "(3::nat) \<noteq> 0" "(3::nat) \<noteq> 1" "(3::nat) \<noteq> 2"
  by simp_all

lemma a2b_body: "a2b_base64 0 0 0 (b64_body s @ b64_padding (length (b64_body s))) = Some s"
proof (induction s rule: b64_body.induct)
  case 1
  then show ?case by (simp add: b64_padding_def)
next
  case (2 a)
  have "b64_padding (length (b64_body [a])) = ''==''" by (simp add: b64_padding_def numeral_2_eq_2)
  then show ?case
    by (simp add: a2b_step sextet_ranges a2b_final del: a2b_base64.simps)
next
  case (3 a b)
  have "b64_padding (length (b64_body [a, b])) = ''=''" by (simp add: b64_padding_def)
  moreover have "a2b_base64 0 0 0 (b64_char (byte a div 4) # b64_char (byte a mod 4 * 16 + byte b div 16)
      # [b64_char (byte b mod 16 * 4)] @ ''='') = Some [a, b]"
    by (simp only: a2b_step sextet_ranges byte_packs append_Cons append_Nil a2b_final if_True if_False
        option.map char_of_byte simp_thms quads)
  ultimately show ?case by simp
next
  case (4 a b c s)
  show ?case
    by (simp only: b64_body.simps length_Cons b64_padding_four append_Cons 4 a2b_step sextet_ranges
        byte_packs if_True if_False option.map char_of_byte simp_thms quads)
qed

theorem urlsafe_b64_roundtrip: "urlsafe_b64decode (urlsafe_b64encode s) = Some s"
  by (simp add: urlsafe_b64decode_def urlsafe_b64encode_def a2b_body)

lemma b64_body_chars:
  "c \<in> set (b64_body s) \<Longrightarrow> c \<noteq> CHR ''='' \<and> byte c < 128"
  by (induction s rule: b64_body.induct) (auto simp: b64_char_ok sextet_ranges)

lemma dropWhile_replicate_append:
  "(\<And>x. x \<in> set s \<Longrightarrow> x \<noteq> c) \<Longrightarrow> dropWhile (\<lambda>x. x = c) (replicate n c @ rev s) = rev s"
proof (induction n)
  case 0
  have "c \<notin> set s" using 0 by blast
  then have "s \<noteq> [] \<Longrightarrow> last s \<noteq> c" by (meson last_in_set)
  then show ?case by (auto simp: dropWhile_eq_self_iff hd_rev)
qed simp

text \<open>\<open>.rstrip("=")\<close> removes exactly the padding.\<close>

definition rstrip_pad :: "string \<Rightarrow> string" where
  "rstrip_pad s = rev (dropWhile (\<lambda>x. x = CHR ''='') (rev s))"

lemma rstrip_encoded: "rstrip_pad (urlsafe_b64encode s) = b64_body s"
  using b64_body_chars [of _ s]
  by (simp add: rstrip_pad_def urlsafe_b64encode_def b64_padding_def dropWhile_replicate_append)

end
