(* ===== verification/PyTime.thy ===== *)
theory PyTime
  imports PyUuid
begin

text \<open>
  Reading back the timestamps that \<open>isoformat\<close> writes: the fixed layout
  \<open>YYYY-MM-DDTHH:MM:SS[.ffffff]+00:00\<close>, its range checks, and the calendar arithmetic
  between ordinals and dates. \<open>datetime\<close> covers the years 1 to 9999.
\<close>

section \<open>Reading digits\<close>

definition dec_value :: "char \<Rightarrow> int option" where
  "dec_value c = (let n = (of_char c :: int) in if 48 \<le> n \<and> n \<le> 57 then Some (n - 48) else None)"

fun parse_digits :: "int \<Rightarrow> nat \<Rightarrow> string \<Rightarrow> (int \<times> string) option" where
  "parse_digits acc 0 s = Some (acc, s)"
| "parse_digits acc (Suc k) [] = None"
| "parse_digits acc (Suc k) (c # s) =
     (case dec_value c of None \<Rightarrow> None | Some v \<Rightarrow> parse_digits (acc * 10 + v) k s)"

definition expect :: "char \<Rightarrow> string \<Rightarrow> string option" where
  "expect c s = (case s of [] \<Rightarrow> None | d # t \<Rightarrow> if d = c then Some t else None)"

text \<open>A number of \<open>k\<close> digits followed by the character \<open>c\<close>.\<close>

definition field :: "nat \<Rightarrow> char \<Rightarrow> string \<Rightarrow> (int \<times> string) option" where
  "field k c s =
     (case parse_digits 0 k s of None \<Rightarrow> None
      | Some (v, t) \<Rightarrow> map_option (\<lambda>r. (v, r)) (expect c t))"

section \<open>Dates\<close>

definition days_in_month :: "bool \<Rightarrow> int \<Rightarrow> int" where
  "days_in_month leap m =
     (if m = 2 then (if leap then 29 else 28) else if m \<in> {4, 6, 9, 11} then 30 else 31)"

definition valid_date :: "int \<Rightarrow> int \<Rightarrow> int \<Rightarrow> bool" where
  "valid_date y m d \<longleftrightarrow>
     1 \<le> y \<and> y \<le> 9999 \<and> 1 \<le> m \<and> m \<le> 12 \<and> 1 \<le> d \<and> d \<le> days_in_month (is_leap y) m"

definition instant :: "int \<Rightarrow> int \<Rightarrow> int \<Rightarrow> int \<Rightarrow> int \<Rightarrow> int \<Rightarrow> int \<Rightarrow> datetime" where
  "instant y m d hh mm ss us =
     (ymd_to_ord y m d - epoch_ordinal) * 86400000000 + ((hh * 60 + mm) * 60 + ss) * 1000000 + us"

text \<open>The seconds end in \<open>+00:00\<close>, or in a point, six digits and \<open>+00:00\<close>.\<close>

definition parse_tail :: "string \<Rightarrow> int option" where
  "parse_tail s =
     (if s = ''+00:00'' then Some 0
      else case expect (CHR ''.'') s of None \<Rightarrow> None
        | Some t \<Rightarrow> (case parse_digits 0 6 t of None \<Rightarrow> None
            | Some (us, r) \<Rightarrow> if r = ''+00:00'' then Some us else None))"

definition parse_isoformat :: "string \<Rightarrow> datetime option" where
  "parse_isoformat s =
     (case field 4 (CHR ''-'') s of None \<Rightarrow> None | Some (y, s) \<Rightarrow>
      case field 2 (CHR ''-'') s of None \<Rightarrow> None | Some (m, s) \<Rightarrow>
      case field 2 (CHR ''T'') s of None \<Rightarrow> None | Some (d, s) \<Rightarrow>
      case field 2 (CHR '':'') s of None \<Rightarrow> None | Some (hh, s) \<Rightarrow>
      case field 2 (CHR '':'') s of None \<Rightarrow> None | Some (mm, s) \<Rightarrow>
      case parse_digits 0 2 s of None \<Rightarrow> None | Some (ss, s) \<Rightarrow>
      case parse_tail s of None \<Rightarrow> None | Some us \<Rightarrow>
        if valid_date y m d \<and> hh < 24 \<and> mm < 60 \<and> ss < 60
        then Some (instant y m d hh mm ss us) else None)"

definition datetime_ok :: "datetime \<Rightarrow> bool" where
  "datetime_ok t \<longleftrightarrow> - 62135596800000000 \<le> t \<and> t < 253402300800000000"

section \<open>Digits\<close>

lemma dec_value_digit:
  assumes "0 \<le> d" and "d < 10"
  shows "dec_value (digit_char d) = Some d"
  using assms by (simp add: dec_value_def digit_char_def Let_def)

lemma parse_digits_snoc:
  "parse_digits acc (length s + k) (s @ t) =
     (case parse_digits acc (length s) s of None \<Rightarrow> None | Some (v, _) \<Rightarrow> parse_digits v k t)"
  by (induction s arbitrary: acc) (auto split: option.splits)

lemma parse_digits_pad:
  assumes "0 \<le> n" and "n < 10 ^ k"
  shows "parse_digits acc k (pad_digits 10 k n @ t) = Some (acc * 10 ^ k + n, t)"
  using assms
proof (induction k arbitrary: n acc t)
  case (Suc k)
  have n: "n div 10 * 10 + n mod 10 = n" by presburger
  have "parse_digits acc (length (pad_digits 10 k (n div 10)) + 1)
      (pad_digits 10 k (n div 10) @ digit_char (n mod 10) # t) = Some (acc * 10 ^ Suc k + n, t)"
    unfolding parse_digits_snoc
    using Suc.IH [of "n div 10" acc "[]"] Suc.prems n dec_value_digit [of "n mod 10"]
    by (simp add: algebra_simps)
  then show ?case by simp
qed simp

lemma field_pad:
  assumes "0 \<le> n" and "n < 10 ^ k"
  shows "field k c (pad_digits 10 k n @ c # t) = Some (n, t)"
  using parse_digits_pad [OF assms, of 0 "c # t"] by (simp add: field_def expect_def)

section \<open>Ordinals and dates\<close>

text \<open>Every day of a common and of a leap year, evaluated.\<close>

definition day_ok :: "bool \<Rightarrow> int \<Rightarrow> bool" where
  "day_ok leap n = (case month_day leap n of (m, d) \<Rightarrow>
     1 \<le> m \<and> m \<le> 12 \<and> 1 \<le> d \<and> d \<le> days_in_month leap m \<and> days_before_month leap m + d = n + 1)"

lemma days_ok: "list_all (day_ok False) [0..364]" "list_all (day_ok True) [0..365]"
  by code_simp+

lemma month_day_ok:
  assumes "0 \<le> n" and "n < (if leap then 366 else 365)"
  shows "day_ok leap n"
  using assms days_ok by (cases leap) (auto simp: list_all_iff)

lemma cycle_years:
  fixes n400 n100 n4 n1 :: int
  assumes "0 \<le> n100" "n100 < 4" "0 \<le> n4" "n4 < 25" "0 \<le> n1" "n1 < 4"
    and p_def: "p = n400 * 400 + n100 * 100 + n4 * 4 + n1"
  shows "p div 4 = n400 * 100 + n100 * 25 + n4" "p div 100 = n400 * 4 + n100" "p div 400 = n400"
proof -
  have 4: "p = (n400 * 100 + n100 * 25 + n4) * 4 + n1" by (simp add: p_def)
  show "p div 4 = n400 * 100 + n100 * 25 + n4" using assms(5,6) unfolding 4 by simp
  have 100: "p = (n400 * 4 + n100) * 100 + (n4 * 4 + n1)" by (simp add: p_def)
  show "p div 100 = n400 * 4 + n100" using assms(3-6) unfolding 100 by simp
  have 400: "p = n400 * 400 + (n100 * 100 + n4 * 4 + n1)" by (simp add: p_def)
  show "p div 400 = n400" using assms(1-6) unfolding 400 by simp
qed

lemma mod_zero_iff:
  fixes y r k :: int
  assumes "y = q * k + r" and "1 \<le> r" and "r \<le> k"
  shows "y mod k = 0 \<longleftrightarrow> r = k"
proof -
  have "y mod k = r mod k" by (simp add: assms(1))
  also have "r mod k = 0 \<longleftrightarrow> r = k"
    using assms(2,3) by (cases "r = k") (auto simp: mod_pos_pos_trivial)
  finally show ?thesis .
qed

lemma cycle_leap:
  fixes n400 n100 n4 n1 :: int
  assumes "0 \<le> n100" "n100 < 4" "0 \<le> n4" "n4 < 25" "0 \<le> n1" "n1 < 4"
    and y: "y = n400 * 400 + 1 + n100 * 100 + n4 * 4 + n1"
  shows "is_leap y \<longleftrightarrow> n1 = 3 \<and> (n4 \<noteq> 24 \<or> n100 = 3)"
proof -
  have "y = (n400 * 100 + n100 * 25 + n4) * 4 + (n1 + 1)"
    and "y = (n400 * 4 + n100) * 100 + (n4 * 4 + n1 + 1)"
    and "y = n400 * 400 + (n100 * 100 + n4 * 4 + n1 + 1)" by (simp_all add: y)
  note m = this [THEN mod_zero_iff]
  have "y mod 4 = 0 \<longleftrightarrow> n1 + 1 = 4" "y mod 100 = 0 \<longleftrightarrow> n4 * 4 + n1 + 1 = 100"
    "y mod 400 = 0 \<longleftrightarrow> n100 * 100 + n4 * 4 + n1 + 1 = 400"
    using assms(1-6) by (auto simp only: intro!: m)
  with assms(1-6) show ?thesis unfolding is_leap_def by auto
qed

text \<open>The digits of a day number in cycles of 400, 100, 4 and 1 years.\<close>

lemma div_less:
  fixes x k j :: int
  assumes "0 < k" and "x < j * k"
  shows "x div k < j"
proof -
  have "x div k * k \<le> x" using assms(1) by (metis add.commute div_mult_mod_eq le_add_same_cancel2 pos_mod_sign)
  with assms show ?thesis by (metis leD linorder_not_le mult_right_mono order.trans order_less_imp_le)
qed

lemma cycle_bounds:
  fixes n :: int
  defines "a \<equiv> n mod 146097"
  defines "b \<equiv> a mod 36524"
  defines "c \<equiv> b mod 1461"
  shows "0 \<le> a div 36524" "a div 36524 < 5" "0 \<le> b div 1461" "b div 1461 < 25"
    "0 \<le> c div 365" "c div 365 < 5"
    "n = (n div 146097) * 146097 + a div 36524 * 36524 + b div 1461 * 1461 + c div 365 * 365 + c mod 365"
    "a div 36524 = 4 \<Longrightarrow> b = 0" "c div 365 = 4 \<Longrightarrow> c mod 365 = 0" "0 \<le> c mod 365" "c mod 365 < 365"
proof -
  have a: "0 \<le> a" "a < 146097" and b: "0 \<le> b" "b < 36524" and c: "0 \<le> c" "c < 1461"
    by (simp_all add: a_def b_def c_def)
  show "0 \<le> a div 36524" "0 \<le> b div 1461" "0 \<le> c div 365"
    using a b c by (simp_all add: pos_imp_zdiv_nonneg_iff)
  show "a div 36524 < 5" "b div 1461 < 25" "c div 365 < 5"
    using a b c by (auto intro: div_less)
  have "a = a div 36524 * 36524 + b" "b = b div 1461 * 1461 + c" "c = c div 365 * 365 + c mod 365"
    "n = n div 146097 * 146097 + a"
    unfolding a_def b_def c_def by (rule div_mult_mod_eq [symmetric])+
  then show "n = (n div 146097) * 146097 + a div 36524 * 36524 + b div 1461 * 1461 + c div 365 * 365 + c mod 365"
    "a div 36524 = 4 \<Longrightarrow> b = 0" "c div 365 = 4 \<Longrightarrow> c mod 365 = 0"
    using a b c by linarith+
  show "0 \<le> c mod 365" "c mod 365 < 365" by simp_all
qed

lemma year_start:
  fixes n400 n100 n4 n1 :: int
  assumes "0 \<le> n100" "n100 < 4" "0 \<le> n4" "n4 < 25" "0 \<le> n1" "n1 < 4"
  shows "days_before_year (n400 * 400 + 1 + n100 * 100 + n4 * 4 + n1) =
    n400 * 146097 + n100 * 36524 + n4 * 1461 + n1 * 365"
proof -
  define p where "p = n400 * 400 + n100 * 100 + n4 * 4 + n1"
  have "n400 * 400 + 1 + n100 * 100 + n4 * 4 + n1 = p + 1" by (simp add: p_def)
  then have "days_before_year (n400 * 400 + 1 + n100 * 100 + n4 * 4 + n1) =
      p * 365 + p div 4 - p div 100 + p div 400" by (simp add: days_before_year_def)
  also have "\<dots> = n400 * 146097 + n100 * 36524 + n4 * 1461 + n1 * 365"
    using cycle_years [OF assms p_def] by (simp add: p_def)
  finally show ?thesis .
qed

text \<open>The last day of a cycle: 31 December of the year that closes it.\<close>

lemma december_31:
  assumes "is_leap y"
  shows "ymd_to_ord y 12 31 = days_before_year y + 366" "31 = days_in_month (is_leap y) 12"
  using assms by (simp_all add: ymd_to_ord_def days_before_month_def days_in_month_def)

lemma ord_to_ymd_day:
  assumes "ord_to_ymd ord = (y, m, d)"
  shows "1 \<le> m \<and> m \<le> 12 \<and> 1 \<le> d \<and> d \<le> days_in_month (is_leap y) m \<and> ymd_to_ord y m d = ord"
proof -
  define n where "n = ord - 1"
  define a where "a = n mod 146097"
  define b where "b = a mod 36524"
  define c where "c = b mod 1461"
  define n400 where "n400 = n div 146097"
  define n100 where "n100 = a div 36524"
  define n4 where "n4 = b div 1461"
  define n1 where "n1 = c div 365"
  define r where "r = c mod 365"
  note defs = n_def a_def b_def c_def n400_def n100_def n4_def n1_def r_def
  define yy where "yy = n400 * 400 + 1 + n100 * 100 + n4 * 4 + n1"
  have bnd: "0 \<le> n100" "n100 < 5" "0 \<le> n4" "n4 < 25" "0 \<le> n1" "n1 < 5" "0 \<le> r" "r < 365"
    and sum: "n = n400 * 146097 + n100 * 36524 + n4 * 1461 + n1 * 365 + r"
    and n100: "n100 = 4 \<Longrightarrow> b = 0" and n1: "n1 = 4 \<Longrightarrow> r = 0"
    unfolding defs by (fact cycle_bounds)+
  have "ord_to_ymd ord = (if n1 = 4 \<or> n100 = 4 then (yy - 1, 12, 31)
      else (case month_day (n1 = 3 \<and> (n4 \<noteq> 24 \<or> n100 = 3)) r of (m, dd) \<Rightarrow> (yy, m, dd)))"
    by (simp add: ord_to_ymd_def Let_def defs yy_def)
  with assms have res: "(y, m, d) = (if n1 = 4 \<or> n100 = 4 then (yy - 1, 12, 31)
      else (case month_day (n1 = 3 \<and> (n4 \<noteq> 24 \<or> n100 = 3)) r of (m, dd) \<Rightarrow> (yy, m, dd)))" by simp
  consider (century) "n100 = 4" | (leap) "n100 \<noteq> 4" "n1 = 4" | (other) "n100 < 4" "n1 < 4"
    using bnd by linarith
  then show ?thesis
  proof cases
    case century
    with n100 have z: "n4 = 0" "n1 = 0" "r = 0" by (simp_all add: n4_def n1_def r_def c_def)
    have y: "yy - 1 = n400 * 400 + 1 + 3 * 100 + 24 * 4 + 3" by (simp add: yy_def century z)
    have "is_leap (yy - 1)" using cycle_leap [OF _ _ _ _ _ _ y] by simp
    from december_31 [OF this] show ?thesis
      using res century sum year_start [of 3 24 3 n400] by (simp add: y z n_def)
  next
    case leap
    have "n4 < 24 \<or> n100 < 0"
    proof -
      have "b < 36524" by (simp add: b_def)
      moreover have "b = n4 * 1461 + n1 * 365 + r"
        by (simp add: n4_def n1_def r_def c_def)
      ultimately show ?thesis using leap bnd by linarith
    qed
    with bnd leap have bnd': "n100 < 4" "n4 \<noteq> 24" by auto
    have y: "yy - 1 = n400 * 400 + 1 + n100 * 100 + n4 * 4 + 3" by (simp add: yy_def leap)
    have "is_leap (yy - 1)" using cycle_leap [OF _ _ _ _ _ _ y] bnd bnd' by simp
    from december_31 [OF this] show ?thesis
      using res leap sum year_start [of n100 n4 3 n400] bnd bnd' n1 by (simp add: y n_def)
  next
    case other
    have leap: "is_leap yy \<longleftrightarrow> n1 = 3 \<and> (n4 \<noteq> 24 \<or> n100 = 3)"
      using cycle_leap [OF _ _ _ _ _ _ yy_def] bnd other by simp
    have "day_ok (is_leap yy) r" by (rule month_day_ok) (use bnd in auto)
    moreover have "(y, m, d) = (case month_day (is_leap yy) r of (m, dd) \<Rightarrow> (yy, m, dd))"
      using res other by (simp add: leap)
    ultimately show ?thesis
      using sum year_start [of n100 n4 n1 n400] bnd other
      by (auto simp: day_ok_def ymd_to_ord_def yy_def n_def split: prod.splits)
  qed
qed

lemma days_before_year_mono: "y \<le> z \<Longrightarrow> days_before_year y \<le> days_before_year z"
proof -
  assume yz: "y \<le> z"
  have "(y - 1) div 4 \<le> (z - 1) div 4" "(y - 1) div 400 \<le> (z - 1) div 400"
    using yz by (simp_all add: zdiv_mono1)
  moreover have "(z - 1) div 100 \<le> (y - 1 + (z - y) * 100) div 100"
    using yz by (intro zdiv_mono1) auto
  then have "(z - 1) div 100 \<le> (y - 1) div 100 + (z - y)"
    by (simp only: div_mult_self1 zero_neq_numeral not_False_eq_True)
  ultimately show ?thesis using yz by (simp add: days_before_year_def Let_def)
qed

lemma ord_to_ymd_valid:
  assumes "1 \<le> ord" and "ord \<le> 3652059" and "ord_to_ymd ord = (y, m, d)"
  shows "valid_date y m d \<and> ymd_to_ord y m d = ord"
proof -
  note day = ord_to_ymd_day [OF assms(3)]
  have m: "m \<in> {1, 2, 3, 4, 5, 6, 7, 8, 9, 10, 11, 12}" using day by (simp; presburger)
  then have month: "0 \<le> days_before_month (is_leap y) m"
    "days_before_month (is_leap y) m + days_in_month (is_leap y) m \<le> 366"
    by (elim insertE, simp_all add: days_before_month_def days_in_month_def)+
  have "y \<le> 9999"
  proof (rule ccontr)
    assume "\<not> y \<le> 9999"
    then have "days_before_year 10000 \<le> days_before_year y" by (simp add: days_before_year_mono)
    then show False using day month assms(2) by (simp add: ymd_to_ord_def days_before_year_def)
  qed
  moreover have "1 \<le> y"
  proof (rule ccontr)
    assume "\<not> 1 \<le> y"
    then have "days_before_year y \<le> days_before_year 0" by (simp add: days_before_year_mono)
    then show False using day month assms(1) by (simp add: ymd_to_ord_def days_before_year_def)
  qed
  ultimately show ?thesis using day by (simp add: valid_date_def)
qed

section \<open>Reading back what \<open>isoformat\<close> printed\<close>

lemma parse_tail_printed:
  assumes "0 \<le> f" and "f < 1000000"
  shows "parse_tail ((if f = 0 then [] else ''.'' @ pad_digits 10 6 f) @ ''+00:00'') = Some f"
  using parse_digits_pad [of f 6 0 "''+00:00''"] assms by (simp add: parse_tail_def expect_def)

lemma valid_date_digits: "valid_date y m d \<Longrightarrow>
    0 \<le> y \<and> y < 10 ^ 4 \<and> 0 \<le> m \<and> m < 10\<^sup>2 \<and> 0 \<le> d \<and> d < 10\<^sup>2"
  by (auto simp: valid_date_def days_in_month_def split: if_splits)

lemma clock_parts:
  fixes us :: int
  assumes "0 \<le> us" and "us < 86400000000"
  defines "s \<equiv> us div 1000000"
  shows "((s div 3600 * 60 + s div 60 mod 60) * 60 + s mod 60) * 1000000 + us mod 1000000 = us"
    "0 \<le> s div 3600 \<and> s div 3600 < 24"
proof -
  have s: "0 \<le> s" "s < 86400" using assms by (auto simp: s_def pos_imp_zdiv_nonneg_iff intro: div_less)
  have "s div 60 = s div 60 div 60 * 60 + s div 60 mod 60" "s = s div 60 * 60 + s mod 60"
    "us = s * 1000000 + us mod 1000000"
    unfolding s_def by (rule div_mult_mod_eq [symmetric])+
  moreover have "s div 60 div 60 = s div 3600" by (simp add: zdiv_zmult2_eq [symmetric])
  ultimately show "((s div 3600 * 60 + s div 60 mod 60) * 60 + s mod 60) * 1000000 + us mod 1000000 = us"
    by metis
  show "0 \<le> s div 3600 \<and> s div 3600 < 24"
    using s by (auto simp: pos_imp_zdiv_nonneg_iff intro: div_less)
qed

theorem parse_isoformat_isoformat:
  assumes "datetime_ok t"
  shows "parse_isoformat (isoformat t) = Some t"
proof -
  define us where "us = t mod 86400000000"
  define day where "day = t div 86400000000"
  define s where "s = us div 1000000"
  obtain y m d where ymd: "ord_to_ymd (day + epoch_ordinal) = (y, m, d)" by (metis surj_pair)
  have t: "t = day * 86400000000 + us" and us: "0 \<le> us" "us < 86400000000"
    by (simp_all add: us_def day_def)
  have "1 \<le> day + epoch_ordinal" "day + epoch_ordinal \<le> 3652059"
    using assms us unfolding datetime_ok_def t epoch_ordinal_def by linarith+
  from ord_to_ymd_valid [OF this ymd] have v: "valid_date y m d"
    and ord: "ymd_to_ord y m d = day + epoch_ordinal" by auto
  note cp = clock_parts [OF us, folded s_def]
  have f: "parse_digits 0 2 (pad_digits 10 2 (s mod 60) @ r) = Some (s mod 60, r)"
    "field 2 c (pad_digits 10 2 (s div 60 mod 60) @ c # r) = Some (s div 60 mod 60, r)"
    "field 2 c (pad_digits 10 2 (s div 3600) @ c # r) = Some (s div 3600, r)"
    "field 4 c (pad_digits 10 4 y @ c # r) = Some (y, r)"
    "field 2 c (pad_digits 10 2 m @ c # r) = Some (m, r)"
    "field 2 c (pad_digits 10 2 d @ c # r) = Some (d, r)" for c r
    using valid_date_digits [OF v] cp(2)
    by (simp_all add: field_pad parse_digits_pad del: parse_digits.simps pad_digits.simps)
  have iso: "isoformat t = pad_digits 10 4 y @ CHR ''-'' # pad_digits 10 2 m @ CHR ''-'' # pad_digits 10 2 d
      @ CHR ''T'' # pad_digits 10 2 (s div 3600) @ CHR '':'' # pad_digits 10 2 (s div 60 mod 60)
      @ CHR '':'' # pad_digits 10 2 (s mod 60)
      @ (if us mod 1000000 = 0 then [] else ''.'' @ pad_digits 10 6 (us mod 1000000)) @ ''+00:00''"
    using ymd by (simp add: isoformat_def Let_def us_def [symmetric] day_def [symmetric] s_def [symmetric]
        del: pad_digits.simps)
  have tail: "parse_tail ((if us mod 1000000 = 0 then [] else ''.'' @ pad_digits 10 6 (us mod 1000000))
      @ ''+00:00'') = Some (us mod 1000000)" by (rule parse_tail_printed) simp_all
  have "instant y m d (s div 3600) (s div 60 mod 60) (s mod 60) (us mod 1000000) = t"
    using cp(1) unfolding instant_def ord t by simp
  then show ?thesis
    unfolding iso parse_isoformat_def f option.case prod.case tail using v cp(2) by simp
qed

lemma isoformat_inject:
  "datetime_ok s \<Longrightarrow> datetime_ok t \<Longrightarrow> isoformat s = isoformat t \<longleftrightarrow> s = t"
  by (metis option.inject parse_isoformat_isoformat)

text \<open>Every character of a printed timestamp is plain ASCII.\<close>

definition plain_char :: "char \<Rightarrow> bool" where
  "plain_char c \<longleftrightarrow> (let n = (of_char c :: int) in 32 \<le> n \<and> n \<le> 126 \<and> n \<noteq> 34 \<and> n \<noteq> 92)"

lemma plain_digit: "0 \<le> d \<Longrightarrow> d < 16 \<Longrightarrow> plain_char (digit_char d)"
  by (auto simp: plain_char_def digit_char_def Let_def)

lemma plain_pad: "0 < b \<Longrightarrow> b \<le> 16 \<Longrightarrow> c \<in> set (pad_digits b k n) \<Longrightarrow> plain_char c"
proof (induction k arbitrary: n)
  case (Suc k)
  have "plain_char (digit_char (n mod b))"
    using Suc.prems(1,2) by (intro plain_digit) (auto intro: less_le_trans [OF pos_mod_bound])
  with Suc show ?case by auto
qed simp

definition plain :: "string \<Rightarrow> bool" where
  "plain s \<longleftrightarrow> list_all plain_char s"

lemma plain_simps [simp]:
  "plain []" "plain (c # s) \<longleftrightarrow> plain_char c \<and> plain s" "plain (s @ t) \<longleftrightarrow> plain s \<and> plain t"
  by (simp_all add: plain_def)

lemma plain_literals [simp]:
  "plain_char (CHR ''-'')" "plain_char (CHR ''T'')" "plain_char (CHR '':'')" "plain_char (CHR ''.'')"
  "plain_char (CHR ''+'')" "plain_char (CHR ''0'')"
  by (simp_all add: plain_char_def)

lemma plain_pad_digits [simp]: "plain (pad_digits 10 k n)" "plain (pad_digits 16 k n)"
  by (auto simp: plain_def list_all_iff simp del: pad_digits.simps
      intro: plain_pad [of 10] plain_pad [of 16])

lemma plain_take_drop: "plain s \<Longrightarrow> plain (take n s)" "plain s \<Longrightarrow> plain (drop n s)"
  by (auto simp: plain_def list_all_iff dest: in_set_takeD in_set_dropD)

lemma plain_isoformat [simp]: "plain (isoformat t)"
  unfolding isoformat_def Let_def
  by (simp only: plain_simps plain_literals plain_pad_digits simp_thms split: prod.split if_split)

lemma plain_uuid [simp]: "plain (str_uuid u)"
  by (simp add: str_uuid_def uuid_hex_def plain_take_drop Let_def del: pad_digits.simps)

end
