(* ===== verification/Pagination.thy ===== *)
theory Pagination
  imports Repositories PyBase64 PyTime
begin

text \<open>
  \<open>app/core/pagination.py\<close>: the opaque cursor of the list endpoints. A cursor is the
  URL-safe base64 of a JSON object with the creation time and the id of the last row of a
  page. Python's JSON reader and \<open>datetime.fromisoformat\<close> accept much more than the
  program writes: flat objects of plain strings and the printed timestamp layout are
  modelled, and every other text is answered by a parameter of the environment.
\<close>

section \<open>\<open>json.dumps\<close> and \<open>json.loads\<close> of a cursor payload\<close>

definition json_escape :: "char \<Rightarrow> string" where
  "json_escape c =
     (if c = CHR 0x22 then [CHR 0x5C, CHR 0x22]
      else if c = CHR 0x5C then [CHR 0x5C, CHR 0x5C]
      else if c = CHR 0x0A then [CHR 0x5C, CHR ''n'']
      else if c = CHR 0x0D then [CHR 0x5C, CHR ''r'']
      else if c = CHR 0x09 then [CHR 0x5C, CHR ''t'']
      else if c = CHR 0x0C then [CHR 0x5C, CHR ''f'']
      else if c = CHR 0x08 then [CHR 0x5C, CHR ''b'']
      else if 32 \<le> byte c \<and> byte c \<le> 126 then [c]
      else [CHR 0x5C, CHR ''u''] @ pad_digits 16 4 (byte c))"

definition json_string :: "string \<Rightarrow> string" where
  "json_string s = [CHR 0x22] @ concat (map json_escape s) @ [CHR 0x22]"

text \<open>\<open>json.dumps(payload, separators=(",", ":"))\<close> of a dictionary of strings.\<close>

fun json_members :: "(string \<times> string) list \<Rightarrow> string" where
  "json_members [] = []"
| "json_members [(k, v)] = json_string k @ '':'' @ json_string v"
| "json_members ((k, v) # ms) = json_string k @ '':'' @ json_string v @ '','' @ json_members ms"

definition json_dumps :: "(string \<times> string) list \<Rightarrow> string" where
  "json_dumps ms = ''{'' @ json_members ms @ ''}''"

text \<open>A string of plain characters between quotes, and the text after it.\<close>

fun plain_prefix :: "string \<Rightarrow> (string \<times> string) option" where
  "plain_prefix [] = None"
| "plain_prefix (c # s) =
     (if c = CHR 0x22 then Some ([], s)
      else if plain_char c then map_option (\<lambda>(v, r). (c # v, r)) (plain_prefix s)
      else None)"

definition json_plain_string :: "string \<Rightarrow> (string \<times> string) option" where
  "json_plain_string s = (case expect (CHR 0x22) s of None \<Rightarrow> None | Some t \<Rightarrow> plain_prefix t)"

lemma plain_prefix_shorter: "plain_prefix s = Some (v, r) \<Longrightarrow> length r < length s"
  by (induction s arbitrary: v) (auto split: if_splits)

lemma json_plain_string_shorter: "json_plain_string s = Some (v, r) \<Longrightarrow> length r < length s"
  by (auto simp: json_plain_string_def expect_def dest: plain_prefix_shorter split: list.splits if_splits)

text \<open>Members \<open>"k":"v"\<close> separated by commas, up to the closing brace that ends the text.\<close>

function json_plain_members :: "string \<Rightarrow> (string \<times> json) list option" where
  "json_plain_members s =
     (case json_plain_string s of None \<Rightarrow> None | Some (k, s1) \<Rightarrow>
      case expect (CHR '':'') s1 of None \<Rightarrow> None | Some s2 \<Rightarrow>
      case json_plain_string s2 of None \<Rightarrow> None | Some (v, s3) \<Rightarrow>
        if s3 = ''}'' then Some [(k, JStr v)]
        else case expect (CHR '','') s3 of None \<Rightarrow> None
          | Some s4 \<Rightarrow> map_option ((#) (k, JStr v)) (json_plain_members s4))"
  by pat_completeness auto
termination
  by (relation "measure length")
    (auto simp: expect_def dest!: json_plain_string_shorter split: list.splits if_splits)

declare json_plain_members.simps [simp del]

text \<open>In a Python dictionary the last binding of a repeated key is the one that counts.\<close>

definition json_flat_object :: "string \<Rightarrow> json option" where
  "json_flat_object s =
     (case expect (CHR ''{'') s of None \<Rightarrow> None
      | Some t \<Rightarrow> map_option (\<lambda>ms. JObj (rev ms)) (json_plain_members t))"

text \<open>\<open>json.loads(raw.decode("utf-8"))\<close>; \<open>None\<close> stands for the ValueError of either.\<close>

definition json_loads :: "env \<Rightarrow> string \<Rightarrow> json option" where
  "json_loads e raw =
     (case json_flat_object raw of Some j \<Rightarrow> Some j | None \<Rightarrow> json_loads_other e raw)"

definition fromisoformat :: "env \<Rightarrow> string \<Rightarrow> datetime option" where
  "fromisoformat e s =
     (case parse_isoformat s of Some t \<Rightarrow> Some t | None \<Rightarrow> fromisoformat_other e s)"

section \<open>Cursors\<close>

definition encode_cursor :: "datetime \<Rightarrow> uuid \<Rightarrow> string" where
  "encode_cursor created_at row_id =
     (let payload = [(''ts'', isoformat created_at), (''id'', str_uuid row_id)]
      in rstrip_pad (urlsafe_b64encode (json_dumps payload)))"

text \<open>
  \<open>payload["ts"]\<close> is a KeyError when the key is missing and a TypeError when the payload is
  not an object (both caught); \<open>fromisoformat\<close> of something that is not a string is a
  TypeError (caught); \<open>UUID(None)\<close> is a TypeError (caught), but \<open>UUID\<close> of any other
  value that is not a string is an AttributeError, which is not.
\<close>

definition cursor_timestamp :: "env \<Rightarrow> json \<Rightarrow> datetime option" where
  "cursor_timestamp e payload =
     (case json_get ''ts'' payload of Some (JStr s) \<Rightarrow> fromisoformat e s | _ \<Rightarrow> None)"

definition cursor_id :: "json \<Rightarrow> error + uuid" where
  "cursor_id payload =
     (case json_get ''id'' payload of
        None \<Rightarrow> Inl InvalidCursorError
      | Some JNull \<Rightarrow> Inl InvalidCursorError
      | Some (JStr s) \<Rightarrow> (case parse_uuid s of None \<Rightarrow> Inl InvalidCursorError | Some u \<Rightarrow> Inr u)
      | Some _ \<Rightarrow> Inl AttributeError)"

definition decode_cursor :: "env \<Rightarrow> string \<Rightarrow> error + row_key" where
  "decode_cursor e cursor =
     (let padded = cursor @ b64_padding (length cursor) in
      if \<not> list_all (\<lambda>c. byte c < 128) padded then Inl InvalidCursorError
      else case urlsafe_b64decode padded of None \<Rightarrow> Inl InvalidCursorError
      | Some raw \<Rightarrow>
        (case json_loads e raw of None \<Rightarrow> Inl InvalidCursorError
         | Some payload \<Rightarrow>
           (case cursor_timestamp e payload of None \<Rightarrow> Inl InvalidCursorError
            | Some ts \<Rightarrow> (case cursor_id payload of Inl err \<Rightarrow> Inl err | Inr i \<Rightarrow> Inr (RowKey ts i)))))"

text \<open>\<open>decode_cursor(cursor) if cursor else None\<close>\<close>

definition decoded_cursor :: "env \<Rightarrow> string option \<Rightarrow> error + row_key option" where
  "decoded_cursor e cursor =
     (case cursor of None \<Rightarrow> Inr None
      | Some c \<Rightarrow> if c = [] then Inr None
        else case decode_cursor e c of Inl err \<Rightarrow> Inl err | Inr k \<Rightarrow> Inr (Some k))"

definition key_cursor :: "row_key \<Rightarrow> string" where
  "key_cursor k = encode_cursor (rk_time k) (rk_id k)"

section \<open>Round trip\<close>

lemma escape_plain: "plain_char c \<Longrightarrow> json_escape c = [c]"
proof -
  assume p: "plain_char c"
  have "\<not> plain_char (CHR 0x22)" "\<not> plain_char (CHR 0x5C)" "\<not> plain_char (CHR 0x0A)"
    "\<not> plain_char (CHR 0x0D)" "\<not> plain_char (CHR 0x09)" "\<not> plain_char (CHR 0x0C)"
    "\<not> plain_char (CHR 0x08)" by (simp_all add: plain_char_def)
  with p have "c \<noteq> CHR 0x22" "c \<noteq> CHR 0x5C" "c \<noteq> CHR 0x0A" "c \<noteq> CHR 0x0D" "c \<noteq> CHR 0x09"
    "c \<noteq> CHR 0x0C" "c \<noteq> CHR 0x08" by metis+
  moreover have "32 \<le> byte c \<and> byte c \<le> 126" using p by (simp add: plain_char_def byte_def Let_def)
  ultimately show ?thesis by (simp add: json_escape_def)
qed

lemma json_string_plain: "plain s \<Longrightarrow> json_string s = CHR 0x22 # s @ [CHR 0x22]"
proof (induction s)
  case (Cons c s)
  then show ?case by (simp add: json_string_def escape_plain)
qed (simp add: json_string_def)

lemma plain_prefix_quote: "plain s \<Longrightarrow> plain_prefix (s @ CHR 0x22 # r) = Some (s, r)"
proof (induction s)
  case (Cons c s)
  then have "c \<noteq> CHR 0x22" by (auto simp: plain_char_def)
  with Cons show ?case by simp
qed simp

lemma read_json_string: "plain s \<Longrightarrow> json_plain_string (json_string s @ r) = Some (s, r)"
  by (simp add: json_string_plain json_plain_string_def expect_def plain_prefix_quote)

lemma read_json_members:
  assumes "ms \<noteq> []" and "\<And>k v. (k, v) \<in> set ms \<Longrightarrow> plain k \<and> plain v"
  shows "json_plain_members (json_members ms @ ''}'') = Some (map (\<lambda>(k, v). (k, JStr v)) ms)"
  using assms
proof (induction ms rule: json_members.induct)
  case (2 k v)
  then show ?case by (simp add: json_plain_members.simps read_json_string expect_def)
next
  case (3 k v m ms)
  have kv: "plain k" "plain v" using 3(3) [of k v] by simp_all
  have "json_plain_members (json_members (m # ms) @ ''}'') = Some (map (\<lambda>(k, v). (k, JStr v)) (m # ms))"
    by (rule 3) (use 3(3) in auto)
  then show ?case
    by (subst json_plain_members.simps) (simp add: read_json_string kv expect_def)
qed simp

lemma loads_dumps_flat:
  assumes "ms \<noteq> []" and "\<And>k v. (k, v) \<in> set ms \<Longrightarrow> plain k \<and> plain v"
  shows "json_loads e (json_dumps ms) = Some (JObj (rev (map (\<lambda>(k, v). (k, JStr v)) ms)))"
  using read_json_members [OF assms]
  by (simp add: json_loads_def json_flat_object_def json_dumps_def expect_def)

theorem decode_encode_cursor:
  assumes "datetime_ok t"
  shows "decode_cursor e (encode_cursor t i) = Inr (RowKey t i)"
proof -
  let ?p = "[(''ts'', isoformat t), (''id'', str_uuid i)]"
  let ?raw = "json_dumps ?p"
  have padded: "encode_cursor t i @ b64_padding (length (encode_cursor t i)) = urlsafe_b64encode ?raw"
    by (simp add: encode_cursor_def rstrip_encoded Let_def) (simp add: urlsafe_b64encode_def)
  have ascii: "list_all (\<lambda>c. byte c < 128) (urlsafe_b64encode ?raw)"
    using b64_body_chars [of _ ?raw]
    by (auto simp: urlsafe_b64encode_def b64_padding_def list_all_iff byte_def)
  have "plain ''ts''" "plain ''id''" by (simp_all add: plain_char_def)
  then have "json_loads e ?raw = Some (JObj [(''id'', JStr (str_uuid i)), (''ts'', JStr (isoformat t))])"
    by (subst loads_dumps_flat) auto
  then show ?thesis
    unfolding decode_cursor_def padded
    by (simp add: ascii urlsafe_b64_roundtrip cursor_timestamp_def cursor_id_def json_get_def
        json_fields_def fromisoformat_def parse_isoformat_isoformat [OF assms] parse_str_uuid)
qed

lemma decoded_key_cursor:
  assumes "datetime_ok (rk_time k)"
  shows "decoded_cursor e (Some (key_cursor k)) = Inr (Some k)"
proof -
  have "decode_cursor e (key_cursor k) = Inr k"
    using decode_encode_cursor [OF assms] by (simp add: key_cursor_def)
  moreover have "decode_cursor e [] = Inl InvalidCursorError \<or> key_cursor k \<noteq> []"
    by (auto simp: key_cursor_def encode_cursor_def rstrip_encoded json_dumps_def Let_def
        elim!: b64_body.elims)
  ultimately show ?thesis by (auto simp: decoded_cursor_def)
qed

text \<open>What a cursor that does not decode can raise.\<close>

lemma decode_cursor_errors:
  "decode_cursor e c = Inl err \<Longrightarrow> err = InvalidCursorError \<or> err = AttributeError"
  by (auto simp: decode_cursor_def cursor_id_def Let_def split: option.splits if_splits sum.splits json.splits)

end
