(* ===== verification/Status.thy ===== *)
theory Status
  imports FleetRepositories Pagination
begin

text \<open>
  The two status rules of \<open>app/services/\<close>: the job state machine of \<open>job_status.py\<close>
  and the computed node status of \<open>node_status.py\<close>; and the billing formula of
  \<open>job_service.py\<close>, with the theorems that the floating-point code computes the exact
  comparison and the exact ceiling.
\<close>

section \<open>Job statuses: \<open>job_status.py\<close>\<close>

definition QUEUED :: string where "QUEUED = ''queued''"
definition RUNNING :: string where "RUNNING = ''running''"
definition COMPLETED :: string where "COMPLETED = ''completed''"
definition FAILED :: string where "FAILED = ''failed''"
definition CANCELLED :: string where "CANCELLED = ''cancelled''"

lemmas job_status_defs = QUEUED_def RUNNING_def COMPLETED_def FAILED_def CANCELLED_def

definition TERMINAL_STATUSES :: "string set" where
  "TERMINAL_STATUSES = {COMPLETED, FAILED, CANCELLED}"

definition JOB_STATUSES :: "string set" where
  "JOB_STATUSES = {QUEUED, RUNNING, COMPLETED, FAILED, CANCELLED}"

definition ALLOWED_TRANSITIONS :: "(string \<times> string) set" where
  "ALLOWED_TRANSITIONS =
     {(QUEUED, RUNNING), (QUEUED, CANCELLED),
      (RUNNING, COMPLETED), (RUNNING, FAILED), (RUNNING, CANCELLED)}"

definition assert_transition :: "string \<Rightarrow> string \<Rightarrow> unit svc" where
  "assert_transition from_status to_status =
     (if (from_status, to_status) \<notin> ALLOWED_TRANSITIONS
      then throw (InvalidJobTransition from_status to_status) else ret ())"

lemma job_status_distinct [simp]:
  "QUEUED \<noteq> RUNNING" "QUEUED \<noteq> COMPLETED" "QUEUED \<noteq> FAILED" "QUEUED \<noteq> CANCELLED"
  "RUNNING \<noteq> QUEUED" "RUNNING \<noteq> COMPLETED" "RUNNING \<noteq> FAILED" "RUNNING \<noteq> CANCELLED"
  "COMPLETED \<noteq> QUEUED" "COMPLETED \<noteq> RUNNING" "COMPLETED \<noteq> FAILED" "COMPLETED \<noteq> CANCELLED"
  "FAILED \<noteq> QUEUED" "FAILED \<noteq> RUNNING" "FAILED \<noteq> COMPLETED" "FAILED \<noteq> CANCELLED"
  "CANCELLED \<noteq> QUEUED" "CANCELLED \<noteq> RUNNING" "CANCELLED \<noteq> COMPLETED" "CANCELLED \<noteq> FAILED"
  by (simp_all add: job_status_defs)

text \<open>The literals of the repositories are the constants of the state machine.\<close>

lemma job_status_literals:
  "''queued'' = QUEUED" "''running'' = RUNNING"
  by (simp_all add: job_status_defs)

lemma terminal_iff [simp]:
  "QUEUED \<notin> TERMINAL_STATUSES" "RUNNING \<notin> TERMINAL_STATUSES"
  "COMPLETED \<in> TERMINAL_STATUSES" "FAILED \<in> TERMINAL_STATUSES" "CANCELLED \<in> TERMINAL_STATUSES"
  by (simp_all add: TERMINAL_STATUSES_def)

lemma allowed_from_terminal:
  "s \<in> TERMINAL_STATUSES \<Longrightarrow> (s, t) \<notin> ALLOWED_TRANSITIONS"
  by (auto simp: TERMINAL_STATUSES_def ALLOWED_TRANSITIONS_def)

lemma allowed_from_running:
  "(RUNNING, t) \<in> ALLOWED_TRANSITIONS \<longleftrightarrow> t \<in> TERMINAL_STATUSES"
  by (auto simp: TERMINAL_STATUSES_def ALLOWED_TRANSITIONS_def)

lemma wp_assert_transition [wp_simps]:
  "wp (assert_transition s t) Q x =
     (if (s, t) \<in> ALLOWED_TRANSITIONS then Q (Inr ()) x else Q (Inl (InvalidJobTransition s t)) x)"
  by (simp add: assert_transition_def wp_simps)

lemma keeps_assert_transition [keeps_intros]: "keeps I (assert_transition s t)"
  by (simp add: assert_transition_def keeps_intros)

section \<open>Node status: \<open>node_status.py\<close>\<close>

definition NODE_HEARTBEAT_TIMEOUT_SECONDS :: int where
  "NODE_HEARTBEAT_TIMEOUT_SECONDS = 60"

definition compute_node_status :: "node \<Rightarrow> datetime \<Rightarrow> string" where
  "compute_node_status nd now =
     (if n_status nd = ''draining'' then ''draining''
      else (case n_last_seen_at nd of
          None \<Rightarrow> ''offline''
        | Some seen \<Rightarrow>
            (let age = total_seconds (now - seen)
             in if age \<le> of_int NODE_HEARTBEAT_TIMEOUT_SECONDS then ''online'' else ''offline'')))"

lemma total_seconds_le_60: "total_seconds us \<le> 60 \<longleftrightarrow> us \<le> 60000000"
proof (cases "us \<le> 0")
  case True
  then have "total_seconds us \<le> 0"
    unfolding total_seconds_def int_truediv_def
    by (intro fl_nonpos) (simp add: divide_nonpos_pos)
  with True show ?thesis by linarith
next
  case False
  let ?x = "of_int us / 1000000 :: rat"
  have pos: "0 \<le> ?x" using False by simp
  have ts: "total_seconds us = fl ?x" by (simp add: total_seconds_def int_truediv_def)
  consider "us < 60000000" | "us = 60000000" | "us > 60000000" by linarith
  then show ?thesis
  proof cases
    case 1
    then have "of_int us \<le> (59999999::rat)" by simp
    then have "?x + ?x / 2 ^ 53 \<le> 60" by (simp add: field_simps)
    with 1 pos show ?thesis by (simp add: ts fl_le_gap)
  next
    case 2
    have "fl 60 = 60" by (rule fl_exact [where k = 0 and m = 60]) (simp_all add: power_int_def)
    with 2 show ?thesis unfolding ts by simp
  next
    case 3
    then have "of_int us \<ge> (60000001::rat)" by simp
    then have "60 < ?x - ?x / 2 ^ 53" by (simp add: field_simps)
    from fl_gr_gap [OF pos this] 3 show ?thesis by (simp add: ts)
  qed
qed

text \<open>
  C35. The status a node is shown with is exact to the microsecond, although its age is computed as
  a double: draining as long as it is stored so, otherwise online from its last heartbeat for
  60 seconds inclusive (and for a heartbeat in the future), offline after that or without one.
\<close>

theorem node_status_exact:
  "compute_node_status nd now =
     (if n_status nd = ''draining'' then ''draining''
      else case n_last_seen_at nd of
        None \<Rightarrow> ''offline''
      | Some seen \<Rightarrow> if now \<le> seen + 60 * 1000000 then ''online'' else ''offline'')"
  using total_seconds_le_60
  by (auto simp: compute_node_status_def NODE_HEARTBEAT_TIMEOUT_SECONDS_def Let_def split: option.splits)

section \<open>Billing: \<open>_bill_gpu_hours\<close>\<close>

definition bill_gpu_hours :: "datetime \<Rightarrow> datetime \<Rightarrow> int \<Rightarrow> int" where
  "bill_gpu_hours started_at completed_at gpu_count =
     (let elapsed = max 0 (total_seconds (completed_at - started_at))
      in max 1 \<lceil>float_div (float_mul elapsed (float_of_int gpu_count)) 3600\<rceil>)"

text \<open>
  The same in exact arithmetic: GPU-microseconds over the microseconds of an hour, rounded
  up, at least one.
\<close>

definition exact_gpu_hours :: "datetime \<Rightarrow> datetime \<Rightarrow> int \<Rightarrow> int" where
  "exact_gpu_hours started_at completed_at gpu_count =
     max 1 (- ((- (max 0 (completed_at - started_at) * gpu_count)) div 3600000000))"

text \<open>
  Where the exact quotient is a whole number, every intermediate value has at most two
  binary places, so the float computation is exact.
\<close>

lemma gcd_hour_gpus:
  assumes "1 \<le> g" and "g \<le> 64"
  shows "gcd 3600000000 g dvd (14400::int)"
proof -
  have "list_all (\<lambda>x. gcd 3600000000 x dvd (14400::int)) [1..64]" by code_simp
  with assms show ?thesis by (simp add: list_all_iff)
qed

lemma whole_hours_dvd:
  assumes "1 \<le> g" and "g \<le> 64" and "3600000000 dvd us * (g::int)"
  shows "250000 dvd us"
proof -
  let ?h = "gcd 3600000000 g"
  obtain m where m: "14400 = ?h * m" using gcd_hour_gpus [OF assms(1,2)] by (elim dvdE)
  have "3600000000 dvd gcd (us * 3600000000) (us * g)" using assms(3) by simp
  then have "3600000000 dvd \<bar>us\<bar> * ?h" by (simp only: gcd_mult_distrib_int)
  then have "3600000000 dvd us * ?h"
    by (metis abs_dvd_iff abs_mult abs_of_nonneg dvd_abs_iff gcd_ge_0_int)
  moreover have "(3600000000::int) = (250000 * m) * ?h" using m by (simp add: mult.commute [of m])
  ultimately have "(250000 * m) * ?h dvd us * ?h" by metis
  then have "250000 * m dvd us" by simp
  then show ?thesis by (rule dvd_mult_left)
qed

lemma fl_quarters:
  assumes "x * 4 = of_int m" and "0 \<le> x" and "x < 2 ^ 51"
  shows "fl x = x"
proof (rule fl_exact [where k = 2 and m = m])
  show "x * 2 ^ 2 = of_int m" using assms(1) by simp
  show "\<bar>x\<bar> < 2 powi (53 - int 2)" using assms(2,3) by (simp add: power_int_def)
qed

lemma billed_quotient_whole:
  assumes "1 \<le> g" and "g \<le> 64" and "0 \<le> us" and "us * g < 2 ^ 51"
    and "3600000000 dvd us * g"
  shows "float_div (float_mul (total_seconds us) (float_of_int g)) 3600
    = of_int (us * g) / 3600000000"
proof -
  obtain q where us: "us = 250000 * q" using whole_hours_dvd [OF assms(1,2,5)] by (elim dvdE)
  obtain k where k: "us * g = 3600000000 * k" using assms(5) by (elim dvdE)
  have q: "0 \<le> q" using assms(3) us by simp
  have "0 \<le> us * g" using assms(1,3) by simp
  then have k0: "0 \<le> k" using k by simp
  have "us * 1 \<le> us * g" using assms(1,3) by (intro mult_left_mono) auto
  with assms(4) have us_le: "us < 2 ^ 51" by linarith
  have ts: "total_seconds us = of_int q / 4"
  proof -
    have "fl (of_int q / 4) = of_int q / 4"
      using q us us_le by (intro fl_quarters [where m = q]) (auto simp: of_int_less_iff [symmetric] simp del: of_int_less_iff)
    then show ?thesis by (simp add: total_seconds_def int_truediv_def us)
  qed
  have g: "float_of_int g = of_int g" using assms(1,2) by (intro float_of_int_exact) auto
  have qg: "q * g = 14400 * k" using k us by (simp add: mult.commute)
  have "k < 2 ^ 51" using k assms(4) by simp
  then have kr: "of_int k < (2 ^ 51 :: rat)" by (simp add: of_int_less_iff [symmetric] del: of_int_less_iff)
  have klt: "3600 * of_int k < (2 ^ 51 :: rat)"
  proof -
    have "3600 * k < 2 ^ 51" using k assms(4) by simp
    then have "of_int (3600 * k) < (of_int (2 ^ 51) :: rat)" by (simp only: of_int_less_iff)
    then show ?thesis by simp
  qed
  have prod: "of_int q / 4 * of_int g = (3600 * of_int k :: rat)"
    using arg_cong [OF qg, of "of_int :: int \<Rightarrow> rat"] by simp
  have mul: "float_mul (of_int q / 4) (of_int g) = 3600 * of_int k"
    unfolding float_mul_def prod using klt k0
    by (intro fl_quarters [where m = "14400 * k"]) auto
  have "float_div (3600 * of_int k) 3600 = of_int k"
    unfolding float_div_def using kr k0 by (simp add: fl_quarters [where m = "4 * k"])
  then show ?thesis by (simp add: ts g mul k)
qed

text \<open>Elsewhere the three roundings are off by less than one GPU-microsecond.\<close>

lemma billed_quotient_error:
  fixes us g :: int
  assumes "1 \<le> g" and "g \<le> 64" and "0 \<le> us"
  defines "w \<equiv> of_int (us * g) / 3600000000 :: rat"
    and "c \<equiv> float_div (float_mul (total_seconds us) (float_of_int g)) 3600"
  shows "w - w / 2 ^ 51 \<le> c" and "c \<le> w + w / 2 ^ 51"
proof -
  let ?u = "1 / 2 ^ 53 :: rat"
  let ?A = "of_int us / 1000000 :: rat"
  let ?a = "fl ?A"
  let ?b = "fl (?a * of_int g)"
  have g: "float_of_int g = of_int g" using assms(1,2) by (intro float_of_int_exact) auto
  have c: "c = fl (?b / 3600)"
    by (simp add: c_def g total_seconds_def int_truediv_def float_mul_def float_div_def)
  have g0: "(0::rat) \<le> of_int g" using assms(1) by simp
  have A0: "0 \<le> ?A" using assms(3) by simp
  have a0: "0 \<le> ?a" using A0 by (rule fl_nonneg)
  have ag0: "0 \<le> ?a * of_int g" using a0 g0 by simp
  have b0: "0 \<le> ?b / 3600" using fl_nonneg [OF ag0] by simp
  have w0: "0 \<le> w" using assms(1,3) by (simp add: w_def)
  have wA: "?A * of_int g / 3600 = w" by (simp add: w_def)
  have up: "c \<le> w * (1 + ?u) ^ 3"
  proof -
    have "?a \<le> ?A * (1 + ?u)" using fl_bounds(2) [OF A0] by (simp add: algebra_simps)
    then have 1: "?a * of_int g \<le> ?A * (1 + ?u) * of_int g" using g0 by (rule mult_right_mono)
    have "?b \<le> ?a * of_int g * (1 + ?u)" using fl_bounds(2) [OF ag0] by (simp add: algebra_simps)
    also have "\<dots> \<le> ?A * (1 + ?u) * of_int g * (1 + ?u)" using 1 by (rule mult_right_mono) simp
    finally have 2: "?b / 3600 \<le> ?A * (1 + ?u) * of_int g * (1 + ?u) / 3600" by (rule divide_right_mono) simp
    have "c \<le> ?b / 3600 * (1 + ?u)" using fl_bounds(2) [OF b0] by (simp add: c algebra_simps)
    also have "\<dots> \<le> ?A * (1 + ?u) * of_int g * (1 + ?u) / 3600 * (1 + ?u)" using 2 by (rule mult_right_mono) simp
    also have "\<dots> = w * (1 + ?u) ^ 3" unfolding wA [symmetric] by (simp add: power3_eq_cube)
    finally show ?thesis .
  qed
  have lo: "w * (1 - ?u) ^ 3 \<le> c"
  proof -
    have "?A * (1 - ?u) \<le> ?a" using fl_bounds(1) [OF A0] by (simp add: algebra_simps)
    then have 1: "?A * (1 - ?u) * of_int g \<le> ?a * of_int g" using g0 by (rule mult_right_mono)
    have "?A * (1 - ?u) * of_int g * (1 - ?u) \<le> ?a * of_int g * (1 - ?u)"
      using 1 by (rule mult_right_mono) simp
    also have "\<dots> \<le> ?b" using fl_bounds(1) [OF ag0] by (simp add: algebra_simps)
    finally have 2: "?A * (1 - ?u) * of_int g * (1 - ?u) / 3600 \<le> ?b / 3600" by (rule divide_right_mono) simp
    have "w * (1 - ?u) ^ 3 = ?A * (1 - ?u) * of_int g * (1 - ?u) / 3600 * (1 - ?u)"
      unfolding wA [symmetric] by (simp add: power3_eq_cube)
    also have "\<dots> \<le> ?b / 3600 * (1 - ?u)" using 2 by (rule mult_right_mono) simp
    also have "\<dots> \<le> c" using fl_bounds(1) [OF b0] by (simp add: c algebra_simps)
    finally show ?thesis .
  qed
  have "w * (1 + ?u) ^ 3 \<le> w * (1 + 1 / 2 ^ 51)" using w0 by (rule mult_left_mono [rotated]) (simp add: power3_eq_cube)
  with up show "c \<le> w + w / 2 ^ 51" by (simp add: algebra_simps)
  have "w * (1 - 1 / 2 ^ 51) \<le> w * (1 - ?u) ^ 3" using w0 by (rule mult_left_mono [rotated]) (simp add: power3_eq_cube)
  with lo show "w - w / 2 ^ 51 \<le> c" by (simp add: algebra_simps)
qed

lemma billed_ceiling:
  assumes "1 \<le> g" and "g \<le> 64" and "0 \<le> us" and "us * g < 2 ^ 51"
  shows "\<lceil>float_div (float_mul (total_seconds us) (float_of_int g)) 3600\<rceil>
    = - ((- (us * g)) div 3600000000)"
proof (cases "3600000000 dvd us * g")
  case True
  then obtain k where k: "us * g = 3600000000 * k" by (elim dvdE)
  have "- (3600000000 * k) div 3600000000 = - k" by (simp add: minus_mult_right del: mult_minus_right)
  then show ?thesis by (simp add: billed_quotient_whole [OF assms True] k)
next
  case False
  let ?N = "3600000000 :: int"
  let ?n = "us * g"
  let ?c = "float_div (float_mul (total_seconds us) (float_of_int g)) 3600"
  let ?w = "of_int ?n / of_int ?N :: rat"
  let ?k = "- ((- ?n) div ?N)"
  have r: "?N * ?k - ?N < ?n" "?n < ?N * ?k"
  proof -
    have "(- ?n) mod ?N \<noteq> 0" using False by (simp add: mod_eq_0_iff_dvd)
    moreover have "(- ?n) mod ?N < ?N" "0 \<le> (- ?n) mod ?N" by simp_all
    moreover have "- ?n = ?N * ((- ?n) div ?N) + (- ?n) mod ?N" by (rule mult_div_mod_eq [symmetric])
    ultimately show "?N * ?k - ?N < ?n" "?n < ?N * ?k" by linarith+
  qed
  have "?N * ?k - ?N + 1 \<le> ?n" "?n + 1 \<le> ?N * ?k" using r by linarith+
  then have rr: "of_int (?N * ?k - ?N + 1) \<le> (of_int ?n :: rat)" "of_int (?n + 1) \<le> (of_int (?N * ?k) :: rat)"
    by (simp_all only: of_int_le_iff)
  have gap: "?w / 2 ^ 51 < 1 / 3600000000"
  proof -
    have "of_int ?n < (of_int (2 ^ 51) :: rat)" using assms(4) by (simp only: of_int_less_iff)
    then show ?thesis by (simp add: field_simps)
  qed
  have "?w - ?w / 2 ^ 51 \<le> ?c" "?c \<le> ?w + ?w / 2 ^ 51"
    using billed_quotient_error [OF assms(1,2,3)] by simp_all
  moreover have "of_int ?k - 1 + 1 / 3600000000 \<le> ?w" "?w \<le> of_int ?k - 1 / 3600000000"
    using rr by (simp_all add: field_simps)
  ultimately have "of_int ?k - 1 < ?c" "?c \<le> of_int ?k" using gap by linarith+
  then show ?thesis by (simp add: ceiling_unique)
qed

text \<open>
  C15. The bill is exact: for a job of 1 to 64 GPUs that ran for less than 2^51 GPU-microseconds
  (71 years on one GPU), the double arithmetic of the code gives the ceiling of the exact
  GPU-hours, and at least one; the roundings of total_seconds, of the product and of the
  quotient never move the bill across a whole hour.
\<close>

theorem bill_gpu_hours_exact:
  assumes "1 \<le> gpu_count" and "gpu_count \<le> 64"
    and "(completed_at - started_at) * gpu_count < 2 ^ 51"
  shows "bill_gpu_hours started_at completed_at gpu_count
    = exact_gpu_hours started_at completed_at gpu_count"
proof (cases "completed_at - started_at \<ge> 0")
  case True
  have "0 \<le> total_seconds (completed_at - started_at)"
    using True by (simp add: total_seconds_def int_truediv_def fl_nonneg)
  then have "max 0 (total_seconds (completed_at - started_at)) = total_seconds (completed_at - started_at)"
    by (rule max_absorb2)
  moreover have "max 0 (completed_at - started_at) = completed_at - started_at" using True by simp
  ultimately show ?thesis
    by (simp only: bill_gpu_hours_def exact_gpu_hours_def Let_def billed_ceiling [OF assms(1,2) True assms(3)])
next
  case False
  have "total_seconds (completed_at - started_at) \<le> 0"
    using False by (simp add: total_seconds_def int_truediv_def fl_nonpos divide_nonpos_pos)
  then have "max 0 (total_seconds (completed_at - started_at)) = 0" by (rule max_absorb1)
  moreover have "max 0 (completed_at - started_at) = 0" using False by simp
  ultimately show ?thesis
    by (simp only: bill_gpu_hours_def exact_gpu_hours_def Let_def) (simp add: float_mul_def float_div_def)
qed

theorem bill_gpu_hours_exact_witness: "bill_gpu_hours 0 3600000001 3 = 4 \<and> bill_gpu_hours 0 3600000000 3 = 3"
  using bill_gpu_hours_exact [of 3 3600000001 0] bill_gpu_hours_exact [of 3 3600000000 0]
  by (simp add: exact_gpu_hours_def)

section \<open>The submission check\<close>

text \<open>\<open>gpu_count * max_duration_seconds / 3600.0\<close>\<close>

definition required_gpu_hours :: "int \<Rightarrow> int \<Rightarrow> rat" where
  "required_gpu_hours gpu_count max_duration_seconds =
     float_div (float_of_int (gpu_count * max_duration_seconds)) 3600"

lemma int_less_float_div_3600:
  assumes "0 \<le> n" and "n < 2 ^ 53"
  shows "of_int c < fl (of_int n / 3600) \<longleftrightarrow> c * 3600 < n"
proof -
  let ?x = "of_int n / 3600 :: rat"
  have x0: "0 \<le> ?x" using assms(1) by simp
  have "of_int n < (of_int (2 ^ 53) :: rat)" using assms(2) by (simp only: of_int_less_iff)
  then have gap: "?x / 2 ^ 53 < 1 / 3600" by (simp add: field_simps)
  consider "c * 3600 = n" | "c * 3600 + 1 \<le> n" | "n + 1 \<le> c * 3600" by linarith
  then show ?thesis
  proof cases
    case 1
    have "\<bar>c\<bar> < 2 ^ 53" using 1 assms by linarith
    then have "fl (of_int c) = of_int c" using float_of_int_exact [of c] by (simp add: float_of_int_def)
    moreover have "?x = of_int c" by (simp flip: 1)
    ultimately have "fl ?x = of_int c" by (simp only:)
    then show ?thesis using 1 by simp
  next
    case 2
    then have "of_int (c * 3600 + 1) \<le> (of_int n :: rat)" by (simp only: of_int_le_iff)
    then have "of_int c + 1 / 3600 \<le> ?x" by (simp add: field_simps)
    with gap have "of_int c < ?x - ?x / 2 ^ 53" by linarith
    with fl_gr_gap [OF x0 this] 2 show ?thesis by simp
  next
    case 3
    then have "of_int (n + 1) \<le> (of_int (c * 3600) :: rat)" by (simp only: of_int_le_iff)
    then have "?x + 1 / 3600 \<le> of_int c" by (simp add: field_simps)
    with gap have "?x + ?x / 2 ^ 53 \<le> of_int c" by linarith
    with fl_le_gap [OF x0 this] 3 show ?thesis by simp
  qed
qed

lemma credits_below_required_iff:
  assumes "0 \<le> gpu_count * max_duration_seconds" and "gpu_count * max_duration_seconds < 2 ^ 53"
  shows "of_int credits < required_gpu_hours gpu_count max_duration_seconds
    \<longleftrightarrow> credits * 3600 < gpu_count * max_duration_seconds"
proof -
  have "float_of_int (gpu_count * max_duration_seconds) = of_int (gpu_count * max_duration_seconds)"
    using assms by (intro float_of_int_exact) simp
  then show ?thesis
    using int_less_float_div_3600 [OF assms, of credits]
    by (simp only: required_gpu_hours_def float_div_def)
qed

end
