(* ===== verification/JobService.thy ===== *)
theory JobService
  imports Status
begin

text \<open>
  \<open>app/services/job_service.py\<close>: submission, scheduling, completion and billing,
  cancellation by the owner and by an administrator, listing and logs. \<open>uuid4\<close> and
  \<open>clock\<close> are indexed by the order in which a method draws from them.
\<close>

section \<open>Submission\<close>

definition submit ::
  "env \<Rightarrow> user \<Rightarrow> string \<Rightarrow> string list \<Rightarrow> int \<Rightarrow> int \<Rightarrow> uuid option \<Rightarrow>
   string option \<Rightarrow> string option \<Rightarrow> job svc" where
  "submit e actor docker_image command gpu_count max_duration_seconds preferred_node_id
      ip_address user_agent =
     (if u_status actor \<noteq> ''active'' then throw (AccountNotActive (u_status actor))
      else let required_hours = required_gpu_hours gpu_count max_duration_seconds in
      if of_int (u_credits_gpu_hours actor) < required_hours
      then throw (InsufficientCredits required_hours (u_credits_gpu_hours actor))
      else bindS (job_repo_create e (uuid4 e 0) (u_id actor) docker_image command gpu_count
             max_duration_seconds preferred_node_id) (\<lambda>job.
        thenS (audit_repo_create e (uuid4 e 1) ''job.submitted'' (Some (u_id actor))
          (Some [(''job_id'', JStr (str_uuid (j_id job))),
                 (''docker_image'', JStr docker_image),
                 (''gpu_count'', JInt gpu_count),
                 (''max_duration_seconds'', JInt max_duration_seconds),
                 (''preferred_node_id'', json_opt_str (map_option str_uuid preferred_node_id))])
          ip_address user_agent)
        (thenS commit (ret job))))"

section \<open>Scheduling\<close>

definition claim_for_node :: "env \<Rightarrow> node \<Rightarrow> job option svc" where
  "claim_for_node e nd =
     (if n_status nd = ''draining'' then ret None
      else bindS (job_repo_get_running_for_node (n_id nd)) (\<lambda>existing.
        case existing of Some _ \<Rightarrow> ret None
        | None \<Rightarrow>
          bindS (job_repo_claim_next_for_node e (clock e 0) (n_id nd) (n_gpu_count nd)) (\<lambda>claimed.
          case claimed of
            None \<Rightarrow> thenS rollback (ret None)
          | Some job \<Rightarrow>
              thenS (audit_repo_create e (uuid4 e 0) ''job.assigned'' (Some (j_user_id job))
                (Some [(''job_id'', JStr (str_uuid (j_id job))),
                       (''node_id'', JStr (str_uuid (n_id nd))),
                       (''gpu_count'', JInt (j_gpu_count job))]) None None)
              (thenS commit (ret (Some job))))))"

section \<open>Completion\<close>

text \<open>A requested cancellation decides the target before the exit code does.\<close>

definition completion_target :: "job \<Rightarrow> int \<Rightarrow> string" where
  "completion_target job exit_code =
     (if j_cancel_requested_at job \<noteq> None then CANCELLED
      else if exit_code = 0 then COMPLETED else FAILED)"

definition charge_user :: "env \<Rightarrow> uuid \<Rightarrow> int \<Rightarrow> unit svc" where
  "charge_user e user_id billed =
     bindS (user_repo_get_by_id user_id) (\<lambda>u.
       case u of None \<Rightarrow> ret ()
       | Some user \<Rightarrow>
           modify (flush_user e user
             (user\<lparr>u_credits_gpu_hours := max 0 (u_credits_gpu_hours user - billed)\<rparr>)))"

definition complete_job ::
  "env \<Rightarrow> node \<Rightarrow> uuid \<Rightarrow> int \<Rightarrow> string option \<Rightarrow> job svc" where
  "complete_job e nd job_id exit_code error_message =
     bindS (job_repo_get_by_id job_id) (\<lambda>found.
     case found of
       None \<Rightarrow> throw (JobNotFound (not_found_message ''job'' job_id))
     | Some job \<Rightarrow>
       (if j_assigned_node_id job \<noteq> Some (n_id nd)
        then throw (JobNotFound (not_found_message ''job'' job_id))
        else let target = completion_target job exit_code in
        thenS (assert_transition (j_status job) target)
        (let completed_at = clock e 0;
             billed = bill_gpu_hours
               (case j_started_at job of None \<Rightarrow> completed_at | Some t \<Rightarrow> t)
               completed_at (j_gpu_count job) in
         thenS (charge_user e (j_user_id job) billed)
        (bindS (job_repo_mark_terminal (clock e 1) job target (Some exit_code) error_message) (\<lambda>finished.
         thenS (audit_repo_create e (uuid4 e 0) (''job.'' @ target) (Some (j_user_id job))
           (Some [(''job_id'', JStr (str_uuid (j_id job))),
                  (''node_id'', JStr (str_uuid (n_id nd))),
                  (''exit_code'', JInt exit_code),
                  (''billed_gpu_hours'', JInt billed),
                  (''error_message'', json_opt_str error_message)]) None None)
        (thenS commit (ret finished)))))))"

section \<open>Cancellation\<close>

definition cancel_or_request_cancel ::
  "env \<Rightarrow> job \<Rightarrow> string \<Rightarrow> user \<Rightarrow> uuid \<Rightarrow> (string \<times> json) list \<Rightarrow>
   string option \<Rightarrow> string option \<Rightarrow> job svc" where
  "cancel_or_request_cancel e job audit_event audit_actor audit_user_id audit_extra
      ip_address user_agent =
     thenS (if j_status job \<in> TERMINAL_STATUSES
            then assert_transition (j_status job) CANCELLED else ret ())
    (bindS
      (if j_status job = QUEUED
       then bindS (job_repo_mark_terminal (clock e 0) job CANCELLED None (Some ''cancelled by user''))
              (\<lambda>job'. ret (job', ''queued''))
       else if j_status job = RUNNING
       then (if j_cancel_requested_at job = None
             then bindS (job_repo_request_cancel (clock e 0) job) (\<lambda>job'. ret (job', ''running''))
             else ret (job, ''running''))
       else thenS (assert_transition (j_status job) CANCELLED) (ret (job, j_status job))) (\<lambda>(job', phase).
     thenS (audit_repo_create e (uuid4 e 0) audit_event (Some audit_user_id)
        (Some ([(''job_id'', JStr (str_uuid (j_id job))),
                (''phase'', JStr phase),
                (''actor_user_id'', JStr (str_uuid (u_id audit_actor))),
                (''actor_email'', JStr (u_email audit_actor))] @ audit_extra))
        ip_address user_agent)
    (thenS commit (ret job'))))"

definition cancel_job ::
  "env \<Rightarrow> user \<Rightarrow> uuid \<Rightarrow> string option \<Rightarrow> string option \<Rightarrow> job svc" where
  "cancel_job e owner job_id ip_address user_agent =
     bindS (job_repo_get_by_id job_id) (\<lambda>found.
     case found of
       None \<Rightarrow> throw (JobNotFound (not_found_message ''job'' job_id))
     | Some job \<Rightarrow>
         (if j_user_id job \<noteq> u_id owner then throw (JobNotFound (not_found_message ''job'' job_id))
          else cancel_or_request_cancel e job ''job.cancelled'' owner (u_id owner) []
                 ip_address user_agent))"

definition admin_force_kill ::
  "env \<Rightarrow> user \<Rightarrow> uuid \<Rightarrow> string option \<Rightarrow> string option \<Rightarrow> job svc" where
  "admin_force_kill e admin job_id ip_address user_agent =
     bindS (job_repo_get_by_id job_id) (\<lambda>found.
     case found of
       None \<Rightarrow> throw (JobNotFound (not_found_message ''job'' job_id))
     | Some job \<Rightarrow>
         cancel_or_request_cancel e job ''admin.job.force_killed'' admin (j_user_id job)
           [(''target_user_id'', JStr (str_uuid (j_user_id job)))] ip_address user_agent)"

section \<open>Reading\<close>

text \<open>
  The cursor of the page is decoded first; the next one is the key of the last row, when
  the page is full.
\<close>

definition next_cursor :: "('r \<Rightarrow> row_key) \<Rightarrow> int \<Rightarrow> 'r list \<Rightarrow> string option" where
  "next_cursor key n rows = (if int (length rows) = n then Some (key_cursor (key (last rows))) else None)"

definition list_jobs_for_user ::
  "env \<Rightarrow> user \<Rightarrow> string option \<Rightarrow> string option \<Rightarrow> int \<Rightarrow> (job list \<times> string option) svc" where
  "list_jobs_for_user e owner status cursor n =
     bindS (lift_result (decoded_cursor e cursor)) (\<lambda>decoded.
     bindS (job_repo_list_for_user (u_id owner) status decoded n)
       (\<lambda>jobs. ret (jobs, next_cursor job_key n jobs)))"

definition get_job_for_user :: "user \<Rightarrow> uuid \<Rightarrow> job svc" where
  "get_job_for_user owner job_id =
     bindS (job_repo_get_by_id job_id) (\<lambda>found.
     case found of
       None \<Rightarrow> throw (JobNotFound (not_found_message ''job'' job_id))
     | Some job \<Rightarrow>
         (if j_user_id job \<noteq> u_id owner then throw (JobNotFound (not_found_message ''job'' job_id))
          else ret job))"

section \<open>Logs\<close>

definition append_logs :: "env \<Rightarrow> node \<Rightarrow> uuid \<Rightarrow> log_entry list \<Rightarrow> nat svc" where
  "append_logs e nd job_id entries =
     bindS (job_repo_get_by_id job_id) (\<lambda>found.
     case found of
       None \<Rightarrow> throw (JobNotFound (not_found_message ''job'' job_id))
     | Some job \<Rightarrow>
         (if j_assigned_node_id job \<noteq> Some (n_id nd)
          then throw (JobNotFound (not_found_message ''job'' job_id))
          else bindS (job_log_repo_append e (j_id job) entries) (\<lambda>inserted.
            thenS commit (ret inserted))))"

definition get_logs_for_user :: "user \<Rightarrow> uuid \<Rightarrow> int \<Rightarrow> int \<Rightarrow> job_log list svc" where
  "get_logs_for_user owner job_id after_sequence n =
     bindS (get_job_for_user owner job_id) (\<lambda>job.
       job_log_repo_list_after (j_id job) after_sequence n)"

lemmas [svc_defs] = submit_def claim_for_node_def complete_job_def charge_user_def
  cancel_or_request_cancel_def cancel_job_def admin_force_kill_def list_jobs_for_user_def
  get_job_for_user_def append_logs_def get_logs_for_user_def

end
