(* ===== verification/NodeService.thy ===== *)
theory NodeService
  imports Status
begin

text \<open>
  \<open>app/services/node_service.py\<close>: claim tokens, registration, agent authentication,
  heartbeats and metrics, draining and removal of nodes.
\<close>

section \<open>Claim tokens and registration\<close>

definition install_command :: "env \<Rightarrow> string \<Rightarrow> string" where
  "install_command e plaintext =
     ''gpu-agent init --control-plane='' @ control_plane_public_url (config e) @
     '' --claim-token='' @ plaintext"

definition create_claim_token ::
  "env \<Rightarrow> user \<Rightarrow> string option \<Rightarrow> string option \<Rightarrow> (claim_token \<times> string \<times> string) svc" where
  "create_claim_token e host ip_address user_agent =
     (if \<not> u_can_host host then throw NotAHost
      else case generate_claim_token e of (plaintext, prefix, token_hash) \<Rightarrow>
        (let expires_at = clock e 0 + timedelta_hours (claim_token_ttl_hours (config e)) in
         bindS (claim_repo_create e (uuid4 e 0) (u_id host) prefix token_hash expires_at) (\<lambda>claim.
         thenS (audit_repo_create e (uuid4 e 1) ''node.claim_token.created'' (Some (u_id host))
            (Some [(''prefix'', JStr prefix), (''expires_at'', JStr (isoformat expires_at))])
            ip_address user_agent)
        (thenS commit (ret (claim, plaintext, install_command e plaintext))))))"

text \<open>\<open>uuid4().hex[:6]\<close>\<close>

definition default_node_name :: "env \<Rightarrow> string" where
  "default_node_name e = ''node-'' @ take 6 (uuid_hex (uuid4 e 0))"

text \<open>\<open>suggested_name or _default_node_name()\<close>: an absent or empty name is replaced.\<close>

definition node_name :: "env \<Rightarrow> string option \<Rightarrow> string" where
  "node_name e suggested_name =
     (case suggested_name of None \<Rightarrow> default_node_name e
      | Some name \<Rightarrow> if name = [] then default_node_name e else name)"

definition register_node ::
  "env \<Rightarrow> string \<Rightarrow> string \<Rightarrow> int \<Rightarrow> int \<Rightarrow> string option \<Rightarrow> string option \<Rightarrow> string option \<Rightarrow>
   (node \<times> string) svc" where
  "register_node e claim_token gpu_model gpu_memory_gb gpu_count suggested_name ip_address user_agent =
     (let prefix = claim_token_lookup_prefix claim_token in
      bindS (claim_repo_get_by_prefix prefix) (\<lambda>found.
      case found of
        None \<Rightarrow> throw (ClaimTokenInvalid ''unknown token'')
      | Some claim \<Rightarrow>
        (if \<not> verify_claim_token e claim_token (c_token_hash claim)
         then throw (ClaimTokenInvalid ''unknown token'')
         else if c_consumed_at claim \<noteq> None then throw (ClaimTokenInvalid ''already used'')
         else if c_expires_at claim \<le> clock e 0 then throw (ClaimTokenInvalid ''expired'')
         else case generate_agent_token e of (agent_token, agent_prefix, agent_hash) \<Rightarrow>
           bindS (node_repo_create e (uuid4 e 1) (c_user_id claim) (node_name e suggested_name)
              gpu_model gpu_memory_gb gpu_count ''online'' (Some agent_prefix) (Some agent_hash)
              (Some (clock e 1))) (\<lambda>node.
           thenS (claim_repo_mark_consumed (clock e 2) claim)
          (thenS (audit_repo_create e (uuid4 e 2) ''node.registered'' (Some (c_user_id claim))
              (Some [(''node_id'', JStr (str_uuid (n_id node))),
                     (''gpu_model'', JStr gpu_model),
                     (''gpu_memory_gb'', JInt gpu_memory_gb),
                     (''gpu_count'', JInt gpu_count),
                     (''claim_token_prefix'', JStr prefix)])
              ip_address user_agent)
          (thenS commit (ret (node, agent_token))))))))"

section \<open>Reading\<close>

definition list_nodes_for_user :: "user \<Rightarrow> node list svc" where
  "list_nodes_for_user host = node_repo_list_for_user (u_id host)"

definition get_owned_node :: "user \<Rightarrow> uuid \<Rightarrow> node svc" where
  "get_owned_node owner node_id =
     bindS (node_repo_get_by_id node_id) (\<lambda>found.
     case found of
       None \<Rightarrow> throw (NodeNotFound (not_found_message ''node'' node_id))
     | Some node \<Rightarrow>
         (if n_user_id node \<noteq> u_id owner
          then throw (NodeNotFound (not_found_message ''node'' node_id)) else ret node))"

definition get_current_job :: "node \<Rightarrow> job option svc" where
  "get_current_job node = job_repo_get_running_for_node (n_id node)"

section \<open>Agents\<close>

definition starts_with :: "string \<Rightarrow> string \<Rightarrow> bool" where
  "starts_with s prefix \<longleftrightarrow> take (length prefix) s = prefix"

definition authenticate_agent :: "env \<Rightarrow> string \<Rightarrow> node option svc" where
  "authenticate_agent e token =
     (if \<not> starts_with token AGENT_TOKEN_PREFIX then ret None
      else bindS (node_repo_get_by_agent_prefix (agent_token_lookup_prefix token)) (\<lambda>found.
        case found of
          None \<Rightarrow> ret None
        | Some node \<Rightarrow>
            (case n_agent_token_hash node of
               None \<Rightarrow> ret None
             | Some h \<Rightarrow> if verify_agent_token e token h then ret (Some node) else ret None)))"

definition record_heartbeat :: "env \<Rightarrow> node \<Rightarrow> node svc" where
  "record_heartbeat e nd =
     bindS (node_repo_update_last_seen (clock e 0) nd) (\<lambda>nd'. thenS commit (ret nd'))"

definition record_metrics :: "env \<Rightarrow> node \<Rightarrow> metric_sample list \<Rightarrow> unit svc" where
  "record_metrics e nd samples =
     thenS (node_metric_repo_upsert_samples (clock e 0) (n_id nd) samples)
    (thenS (node_repo_update_last_seen (clock e 1) nd) commit)"

section \<open>Draining and removal\<close>

definition get_owned_for_actor :: "user \<Rightarrow> uuid \<Rightarrow> user option \<Rightarrow> node svc" where
  "get_owned_for_actor owner node_id allow_admin =
     bindS (node_repo_get_by_id node_id) (\<lambda>found.
     case found of
       None \<Rightarrow> throw (NodeNotFound (not_found_message ''node'' node_id))
     | Some node \<Rightarrow>
         (if (case allow_admin of None \<Rightarrow> False | Some a \<Rightarrow> u_is_admin a) then ret node
          else if n_user_id node \<noteq> u_id owner
          then throw (NodeNotFound (not_found_message ''node'' node_id))
          else ret node))"

text \<open>\<open>actor or owner\<close>\<close>

definition acting_user :: "user \<Rightarrow> user option \<Rightarrow> user" where
  "acting_user owner actor = (case actor of None \<Rightarrow> owner | Some a \<Rightarrow> a)"

definition drain_node ::
  "env \<Rightarrow> user \<Rightarrow> uuid \<Rightarrow> string option \<Rightarrow> string option \<Rightarrow> user option \<Rightarrow> string \<Rightarrow> node svc" where
  "drain_node e owner node_id ip_address user_agent actor audit_event =
     bindS (get_owned_for_actor owner node_id actor) (\<lambda>node.
     if n_status node \<noteq> ''draining''
     then bindS (node_repo_set_status node ''draining'') (\<lambda>node'.
       thenS (audit_repo_create e (uuid4 e 0) audit_event (Some (n_user_id node))
          (Some [(''node_id'', JStr (str_uuid (n_id node))),
                 (''actor_user_id'', JStr (str_uuid (u_id (acting_user owner actor)))),
                 (''actor_email'', JStr (u_email (acting_user owner actor)))])
          ip_address user_agent)
       (thenS commit (ret node')))
     else thenS commit (ret node))"

definition undrain_node ::
  "env \<Rightarrow> user \<Rightarrow> uuid \<Rightarrow> string option \<Rightarrow> string option \<Rightarrow> node svc" where
  "undrain_node e owner node_id ip_address user_agent =
     bindS (get_owned_node owner node_id) (\<lambda>node.
     if n_status node \<noteq> ''draining''
     then throw (NodeNotDraining (str_uuid (n_id node)) (n_status node))
     else bindS (node_repo_set_status node ''online'') (\<lambda>node'.
       thenS (audit_repo_create e (uuid4 e 0) ''node.undrained'' (Some (n_user_id node))
          (Some [(''node_id'', JStr (str_uuid (n_id node))),
                 (''actor_user_id'', JStr (str_uuid (u_id owner))),
                 (''actor_email'', JStr (u_email owner))])
          ip_address user_agent)
       (thenS commit (ret node'))))"

definition admin_force_drain ::
  "env \<Rightarrow> user \<Rightarrow> uuid \<Rightarrow> string option \<Rightarrow> string option \<Rightarrow> node svc" where
  "admin_force_drain e admin node_id ip_address user_agent =
     bindS (node_repo_get_by_id node_id) (\<lambda>found.
     case found of
       None \<Rightarrow> throw (NodeNotFound (not_found_message ''node'' node_id))
     | Some node \<Rightarrow>
       (if n_status node \<noteq> ''draining''
        then bindS (node_repo_set_status node ''draining'') (\<lambda>node'.
          thenS (audit_repo_create e (uuid4 e 0) ''admin.node.force_drained'' (Some (n_user_id node))
             (Some [(''node_id'', JStr (str_uuid (n_id node))),
                    (''actor_user_id'', JStr (str_uuid (u_id admin))),
                    (''actor_email'', JStr (u_email admin)),
                    (''target_user_id'', JStr (str_uuid (n_user_id node)))])
             ip_address user_agent)
          (thenS commit (ret node')))
        else thenS commit (ret node)))"

definition delete_node ::
  "env \<Rightarrow> user \<Rightarrow> uuid \<Rightarrow> string option \<Rightarrow> string option \<Rightarrow> user option \<Rightarrow> string svc" where
  "delete_node e owner node_id ip_address user_agent actor =
     bindS (get_owned_for_actor owner node_id actor) (\<lambda>node.
     bindS (job_repo_get_running_for_node (n_id node)) (\<lambda>running.
     case running of
       Some _ \<Rightarrow> throw (NodeBusy (str_uuid (n_id node)))
     | None \<Rightarrow>
         thenS (audit_repo_create e (uuid4 e 0) ''node.removed'' (Some (n_user_id node))
            (Some [(''node_id'', JStr (str_uuid (n_id node))),
                   (''actor_user_id'', JStr (str_uuid (u_id (acting_user owner actor)))),
                   (''actor_email'', JStr (u_email (acting_user owner actor)))])
            ip_address user_agent)
        (thenS (node_repo_delete node)
        (thenS commit (ret (str_uuid (n_id node)))))))"

lemmas [svc_defs] = create_claim_token_def register_node_def list_nodes_for_user_def
  get_owned_node_def get_current_job_def authenticate_agent_def record_heartbeat_def
  record_metrics_def get_owned_for_actor_def drain_node_def undrain_node_def
  admin_force_drain_def delete_node_def

end
