(* ===== verification/AccountServices.thy ===== *)
theory AccountServices
  imports Status
begin

text \<open>
  Accounts: \<open>auth_service.py\<close> (signup, login), \<open>api_key_service.py\<close> (API keys) and the
  account part of \<open>admin_service.py\<close> (approval, suspension, the audit log).
\<close>

section \<open>Signup and login: \<open>auth_service.py\<close>\<close>

definition signup ::
  "env \<Rightarrow> string \<Rightarrow> string \<Rightarrow> string option \<Rightarrow> string option \<Rightarrow> user svc" where
  "signup e email password ip_address user_agent =
     bindS (user_repo_get_by_email email) (\<lambda>existing.
     case existing of
       Some _ \<Rightarrow> throw (EmailAlreadyExists email)
     | None \<Rightarrow>
         bindS (user_repo_create e (uuid4 e 0) email (hash_password e password)) (\<lambda>user.
         thenS (audit_repo_create e (uuid4 e 1) ''auth.signup'' (Some (u_id user)) None
                  ip_address user_agent)
        (thenS commit (ret user))))"

text \<open>A failed login commits its audit event before it raises.\<close>

definition login_failed ::
  "env \<Rightarrow> string \<Rightarrow> user option \<Rightarrow> string option \<Rightarrow> string option \<Rightarrow> string svc" where
  "login_failed e email user ip_address user_agent =
     thenS (audit_repo_create e (uuid4 e 0) ''auth.login.failed'' (map_option u_id user)
              (Some [(''email'', JStr email)]) ip_address user_agent)
    (thenS commit (throw InvalidCredentials))"

definition login ::
  "env \<Rightarrow> string \<Rightarrow> string \<Rightarrow> string option \<Rightarrow> string option \<Rightarrow> string svc" where
  "login e email password ip_address user_agent =
     bindS (user_repo_get_by_email email) (\<lambda>found.
     case found of
       None \<Rightarrow> login_failed e email None ip_address user_agent
     | Some user \<Rightarrow>
         (if \<not> verify_password e password (u_password_hash user)
          then login_failed e email (Some user) ip_address user_agent
          else
            thenS (audit_repo_create e (uuid4 e 0) ''auth.login.success'' (Some (u_id user)) None
                     ip_address user_agent)
           (thenS commit (ret (create_access_token e (str_uuid (u_id user)))))))"

definition get_user_by_id :: "uuid \<Rightarrow> user svc" where
  "get_user_by_id i =
     bindS (user_repo_get_by_id i) (\<lambda>found.
     case found of None \<Rightarrow> throw (UserNotFound (not_found_message ''user'' i)) | Some u \<Rightarrow> ret u)"

section \<open>API keys: \<open>api_key_service.py\<close>\<close>

definition generate_key ::
  "env \<Rightarrow> user \<Rightarrow> string \<Rightarrow> string option \<Rightarrow> string option \<Rightarrow> (api_key \<times> string) svc" where
  "generate_key e actor name ip_address user_agent =
     (if u_status actor \<noteq> ''active'' then throw (AccountNotActive (u_status actor))
      else case generate_api_key e of (plaintext, prefix, key_hash) \<Rightarrow>
        bindS (api_key_repo_create e (uuid4 e 0) (u_id actor) name prefix key_hash) (\<lambda>api_key.
        thenS (audit_repo_create e (uuid4 e 1) ''apikey.created'' (Some (u_id actor))
           (Some [(''api_key_id'', JStr (str_uuid (k_id api_key))),
                  (''name'', JStr name), (''prefix'', JStr prefix)])
           ip_address user_agent)
       (thenS commit (ret (api_key, plaintext)))))"

definition list_keys_for :: "user \<Rightarrow> api_key list svc" where
  "list_keys_for actor = api_key_repo_list_for_user (u_id actor)"

definition revoke_key ::
  "env \<Rightarrow> user \<Rightarrow> uuid \<Rightarrow> string option \<Rightarrow> string option \<Rightarrow> api_key svc" where
  "revoke_key e actor api_key_id ip_address user_agent =
     bindS (api_key_repo_get_by_id api_key_id) (\<lambda>found.
     case found of
       None \<Rightarrow> throw (ApiKeyNotFound (''api key '' @ str_uuid api_key_id @ '' not found''))
     | Some api_key \<Rightarrow>
       (if k_user_id api_key \<noteq> u_id actor then throw ApiKeyNotOwned
        else if k_revoked_at api_key = None
        then bindS (api_key_repo_revoke (clock e 0) api_key) (\<lambda>api_key'.
          thenS (audit_repo_create e (uuid4 e 0) ''apikey.revoked'' (Some (u_id actor))
             (Some [(''api_key_id'', JStr (str_uuid (k_id api_key))),
                    (''prefix'', JStr (k_prefix api_key))])
             ip_address user_agent)
         (thenS commit (ret api_key')))
        else ret api_key))"

definition authenticate_key :: "env \<Rightarrow> string \<Rightarrow> user option svc" where
  "authenticate_key e plaintext =
     bindS (api_key_repo_get_by_prefix (api_key_lookup_prefix plaintext)) (\<lambda>found.
     case found of
       None \<Rightarrow> ret None
     | Some api_key \<Rightarrow>
       (if k_revoked_at api_key \<noteq> None then ret None
        else if \<not> verify_api_key e plaintext (k_hash api_key) then ret None
        else user_repo_get_by_id (k_user_id api_key)))"

section \<open>Accounts under administration: \<open>admin_service.py\<close>\<close>

definition list_users ::
  "env \<Rightarrow> string option \<Rightarrow> string option \<Rightarrow> string option \<Rightarrow> int \<Rightarrow>
   (user list \<times> string option) svc" where
  "list_users e status email_query cursor n =
     bindS (lift_result (decoded_cursor e cursor)) (\<lambda>decoded.
     bindS (user_repo_list_filtered e status email_query decoded n)
       (\<lambda>us. ret (us, if int (length us) = n then Some (key_cursor (user_key (last us))) else None)))"

definition get_user_detail :: "uuid \<Rightarrow> (user \<times> string option) svc" where
  "get_user_detail user_id =
     bindS (user_repo_get_by_id user_id) (\<lambda>found.
     case found of
       None \<Rightarrow> throw (UserNotFound (not_found_message ''user'' user_id))
     | Some user \<Rightarrow>
         bindS (audit_repo_get_signup_ip user_id) (\<lambda>signup_ip. ret (user, signup_ip)))"

definition approve_user ::
  "env \<Rightarrow> user \<Rightarrow> uuid \<Rightarrow> bool \<Rightarrow> int \<Rightarrow> string option \<Rightarrow> string option \<Rightarrow> user svc" where
  "approve_user e admin user_id can_host credits_gpu_hours ip_address user_agent =
     bindS (user_repo_get_by_id user_id) (\<lambda>found.
     case found of
       None \<Rightarrow> throw (UserNotFound (not_found_message ''user'' user_id))
     | Some user \<Rightarrow>
       (let user' = user\<lparr>u_status := ''active'', u_can_host := can_host,
                         u_credits_gpu_hours := credits_gpu_hours\<rparr> in
        thenS (modify (flush_user e user user'))
       (thenS (audit_repo_create e (uuid4 e 0) ''user.approved'' (Some (u_id user))
          (Some [(''actor_user_id'', JStr (str_uuid (u_id admin))),
                 (''actor_email'', JStr (u_email admin)),
                 (''can_host'', JBool can_host),
                 (''credits_gpu_hours'', JInt credits_gpu_hours)])
          ip_address user_agent)
       (thenS commit (get_user_by_id user_id)))))"

definition suspend_user ::
  "env \<Rightarrow> user \<Rightarrow> uuid \<Rightarrow> string option \<Rightarrow> string option \<Rightarrow> user svc" where
  "suspend_user e admin user_id ip_address user_agent =
     bindS (user_repo_get_by_id user_id) (\<lambda>found.
     case found of
       None \<Rightarrow> throw (UserNotFound (not_found_message ''user'' user_id))
     | Some user \<Rightarrow>
       (let user' = user\<lparr>u_status := ''suspended''\<rparr> in
        thenS (modify (flush_user e user user'))
       (thenS (audit_repo_create e (uuid4 e 0) ''user.suspended'' (Some (u_id user))
          (Some [(''actor_user_id'', JStr (str_uuid (u_id admin))),
                 (''actor_email'', JStr (u_email admin))])
          ip_address user_agent)
       (thenS commit (get_user_by_id user_id)))))"

text \<open>The filters an audit query records about itself: those that were given.\<close>

definition audit_filters ::
  "string option \<Rightarrow> string option \<Rightarrow> string option \<Rightarrow> datetime option \<Rightarrow> datetime option \<Rightarrow>
   (string \<times> json) list" where
  "audit_filters event_type user_email_query ip_address created_from created_to =
     (case event_type of None \<Rightarrow> [] | Some t \<Rightarrow> [(''event_type'', JStr t)]) @
     (case user_email_query of None \<Rightarrow> [] | Some q \<Rightarrow> [(''user_email'', JStr q)]) @
     (case ip_address of None \<Rightarrow> [] | Some ip \<Rightarrow> [(''ip_address'', JStr ip)]) @
     (case created_from of None \<Rightarrow> [] | Some t \<Rightarrow> [(''from'', JStr (isoformat t))]) @
     (case created_to of None \<Rightarrow> [] | Some t \<Rightarrow> [(''to'', JStr (isoformat t))])"

definition list_audit_events ::
  "env \<Rightarrow> user \<Rightarrow> string option \<Rightarrow> string option \<Rightarrow> string option \<Rightarrow> datetime option \<Rightarrow>
   datetime option \<Rightarrow> string option \<Rightarrow> int \<Rightarrow> string option \<Rightarrow> string option \<Rightarrow>
   ((audit_log \<times> string option) list \<times> string option) svc" where
  "list_audit_events e admin event_type user_email_query ip_address created_from created_to cursor n
      viewer_ip viewer_user_agent =
     bindS (lift_result (decoded_cursor e cursor)) (\<lambda>decoded.
     bindS (audit_repo_list_filtered e event_type user_email_query ip_address created_from created_to
              decoded n) (\<lambda>rows.
     thenS (audit_repo_create e (uuid4 e 0) ''audit.viewed'' (Some (u_id admin))
        (Some [(''actor_email'', JStr (u_email admin)),
               (''filters'', JObj (audit_filters event_type user_email_query ip_address
                                     created_from created_to)),
               (''result_count'', JInt (int (length rows)))])
        viewer_ip viewer_user_agent)
    (thenS commit
      (ret (rows, if int (length rows) = n
                  then Some (key_cursor (audit_key (fst (last rows)))) else None)))))"

definition get_audit_event :: "uuid \<Rightarrow> (audit_log \<times> string option) svc" where
  "get_audit_event event_id =
     bindS (audit_repo_get_with_email event_id) (\<lambda>found.
     case found of
       None \<Rightarrow> throw (AuditEventNotFound (''audit event '' @ str_uuid event_id @ '' not found''))
     | Some row \<Rightarrow> ret row)"

section \<open>The command line: \<open>cli.py\<close>\<close>

text \<open>
  \<open>grant-admin\<close>: one UPDATE over the users with this email, which also sets
  \<open>updated_at\<close>; the ids it returns decide whether there was such a user.
\<close>

definition grant_admin :: "env \<Rightarrow> string \<Rightarrow> uuid option svc" where
  "grant_admin e email =
     bindS (query (\<lambda>d. lookup_row u_email email (users d))) (\<lambda>found.
     case found of
       None \<Rightarrow> ret None
     | Some user \<Rightarrow>
         thenS (modify (\<lambda>d. Inr (d\<lparr>users := put_row u_id
            (user\<lparr>u_is_admin := True, u_status := ''active'', u_updated_at := txn_now e\<rparr>) (users d)\<rparr>)))
        (thenS commit (ret (Some (u_id user)))))"

lemmas [svc_defs] = signup_def login_failed_def login_def get_user_by_id_def generate_key_def
  list_keys_for_def revoke_key_def authenticate_key_def list_users_def get_user_detail_def
  approve_user_def suspend_user_def list_audit_events_def get_audit_event_def grant_admin_def

end
