(* ===== verification/Schemas.thy ===== *)
theory Schemas
  imports JobService NodeService AccountServices
begin

text \<open>
  The request and response models of \<open>app/schemas/\<close>: one predicate per request model
  with its field constraints and validators (what fails them is the framework's 422), the
  docker image pattern with its recogniser, and the response models as records filled from
  rows.
\<close>

section \<open>The docker image pattern\<close>

text \<open>Regular expressions as \<open>re\<close> matches them, and the pattern of \<open>_IMAGE_RE\<close>.\<close>

datatype rexp =
    Eps
  | Chars "char \<Rightarrow> bool"
  | Cat rexp rexp
  | Opt rexp
  | Star rexp

definition Plus :: "rexp \<Rightarrow> rexp" where
  "Plus r = Cat r (Star r)"

inductive matches :: "rexp \<Rightarrow> string \<Rightarrow> bool" where
  m_eps: "matches Eps []"
| m_chars: "P c \<Longrightarrow> matches (Chars P) [c]"
| m_cat: "matches r s \<Longrightarrow> matches q t \<Longrightarrow> matches (Cat r q) (s @ t)"
| m_opt_none: "matches (Opt r) []"
| m_opt: "matches r s \<Longrightarrow> matches (Opt r) s"
| m_star_nil: "matches (Star r) []"
| m_star: "matches r s \<Longrightarrow> matches (Star r) t \<Longrightarrow> matches (Star r) (s @ t)"

definition in_range :: "char \<Rightarrow> char \<Rightarrow> char \<Rightarrow> bool" where
  "in_range lo hi c \<longleftrightarrow> byte lo \<le> byte c \<and> byte c \<le> byte hi"

definition lower_alnum :: "char \<Rightarrow> bool" where
  "lower_alnum c \<longleftrightarrow> in_range (CHR ''a'') (CHR ''z'') c \<or> in_range (CHR ''0'') (CHR ''9'') c"

definition separator :: "char \<Rightarrow> bool" where
  "separator c \<longleftrightarrow> c = CHR ''_'' \<or> c = CHR ''.'' \<or> c = CHR ''-'' \<or> c = CHR ''/''"

definition tag_char :: "char \<Rightarrow> bool" where
  "tag_char c \<longleftrightarrow> in_range (CHR ''a'') (CHR ''z'') c \<or> in_range (CHR ''A'') (CHR ''Z'') c \<or>
     in_range (CHR ''0'') (CHR ''9'') c \<or> c = CHR ''_'' \<or> c = CHR ''.'' \<or> c = CHR ''-''"

text \<open>\<open>^[a-z0-9]+([_.\-/][a-z0-9]+)*(:[a-zA-Z0-9_.\-]+)?$\<close>\<close>

definition IMAGE_RE :: rexp where
  "IMAGE_RE =
     Cat (Plus (Chars lower_alnum))
    (Cat (Star (Cat (Chars separator) (Plus (Chars lower_alnum))))
         (Opt (Cat (Chars (\<lambda>c. c = CHR '':'')) (Plus (Chars tag_char)))))"

text \<open>The recogniser: \<open>seg\<close> says that the current name segment is not empty.\<close>

fun image_from :: "bool \<Rightarrow> string \<Rightarrow> bool" where
  "image_from seg [] \<longleftrightarrow> seg"
| "image_from seg (c # s) \<longleftrightarrow>
     (if lower_alnum c then image_from True s
      else seg \<and> (if separator c then image_from False s
                  else c = CHR '':'' \<and> s \<noteq> [] \<and> list_all tag_char s))"

definition valid_image :: "string \<Rightarrow> bool" where
  "valid_image s \<longleftrightarrow> image_from False s"

inductive_cases m_epsE [elim!]: "matches Eps s"
inductive_cases m_charsE [elim!]: "matches (Chars P) s"
inductive_cases m_catE [elim!]: "matches (Cat r q) s"
inductive_cases m_optE [elim]: "matches (Opt r) s"

lemma star_chars_iff: "matches (Star (Chars P)) s \<longleftrightarrow> list_all P s"
proof
  show "matches (Star (Chars P)) s \<Longrightarrow> list_all P s"
    by (induction "Star (Chars P)" s rule: matches.induct) auto
  show "list_all P s \<Longrightarrow> matches (Star (Chars P)) s"
  proof (induction s)
    case (Cons c s)
    then have "matches (Star (Chars P)) ([c] @ s)" by (intro m_star m_chars) auto
    then show ?case by simp
  qed (rule m_star_nil)
qed

lemma plus_chars_iff: "matches (Plus (Chars P)) s \<longleftrightarrow> s \<noteq> [] \<and> list_all P s"
proof
  show "matches (Plus (Chars P)) s \<Longrightarrow> s \<noteq> [] \<and> list_all P s"
    by (auto simp: Plus_def star_chars_iff)
  assume "s \<noteq> [] \<and> list_all P s"
  then obtain c t where "s = [c] @ t" "P c" "list_all P t" by (cases s) auto
  moreover have "matches (Plus (Chars P)) ([c] @ t)"
    unfolding Plus_def using calculation by (intro m_cat m_chars) (simp_all add: star_chars_iff)
  ultimately show "matches (Plus (Chars P)) s" by simp
qed

definition tag_rexp :: rexp where
  "tag_rexp = Opt (Cat (Chars (\<lambda>c. c = CHR '':'')) (Plus (Chars tag_char)))"

lemma tag_rexp_iff:
  "matches tag_rexp s \<longleftrightarrow> s = [] \<or> (\<exists>t. s = CHR '':'' # t \<and> t \<noteq> [] \<and> list_all tag_char t)"
proof
  show "matches tag_rexp s \<Longrightarrow> s = [] \<or> (\<exists>t. s = CHR '':'' # t \<and> t \<noteq> [] \<and> list_all tag_char t)"
    by (auto simp: tag_rexp_def plus_chars_iff)
  assume "s = [] \<or> (\<exists>t. s = CHR '':'' # t \<and> t \<noteq> [] \<and> list_all tag_char t)"
  then show "matches tag_rexp s"
  proof (elim disjE exE conjE)
    fix t assume "s = CHR '':'' # t" "t \<noteq> []" "list_all tag_char t"
    then have "matches (Cat (Chars (\<lambda>c. c = CHR '':'')) (Plus (Chars tag_char))) ([CHR '':''] @ t)"
      by (intro m_cat m_chars) (simp_all add: plus_chars_iff)
    then show ?thesis using \<open>s = CHR '':'' # t\<close> by (simp add: tag_rexp_def m_opt)
  qed (simp add: tag_rexp_def m_opt_none)
qed

definition rest_rexp :: rexp where
  "rest_rexp = Cat (Star (Cat (Chars separator) (Plus (Chars lower_alnum)))) tag_rexp"

lemma char_classes: "separator c \<Longrightarrow> \<not> lower_alnum c" "\<not> lower_alnum (CHR '':'')" "\<not> separator (CHR '':'')"
  by (auto simp: separator_def lower_alnum_def in_range_def byte_def)

lemma image_from_alnum: "list_all lower_alnum s \<Longrightarrow> image_from b (s @ t) \<longleftrightarrow> image_from (b \<or> s \<noteq> []) t"
  by (induction s arbitrary: b) auto

lemma image_from_tag: "matches tag_rexp s \<Longrightarrow> image_from True s"
  by (auto simp: tag_rexp_iff char_classes)

lemma image_from_rest: "matches rest_rexp s \<Longrightarrow> image_from True s"
proof -
  have "matches (Star (Cat (Chars separator) (Plus (Chars lower_alnum)))) u \<Longrightarrow>
      image_from True t \<Longrightarrow> image_from True (u @ t)" for u t
  proof (induction "Star (Cat (Chars separator) (Plus (Chars lower_alnum)))" u arbitrary: t rule: matches.induct)
    case (m_star s u)
    then obtain c w where "s = c # w" "separator c" "w \<noteq> []" "list_all lower_alnum w"
      by (auto simp: plus_chars_iff)
    with m_star show ?case by (simp add: char_classes image_from_alnum)
  qed simp
  then show "matches rest_rexp s \<Longrightarrow> image_from True s"
    by (auto simp: rest_rexp_def dest: image_from_tag)
qed

lemma rest_nil: "matches rest_rexp []"
proof -
  have "matches rest_rexp ([] @ [])"
    unfolding rest_rexp_def by (intro m_cat m_star_nil) (simp add: tag_rexp_iff)
  then show ?thesis by simp
qed

text \<open>From inside a segment: the rest of the segment, then the rest of the pattern.\<close>

lemma image_from_split:
  "image_from b s \<Longrightarrow> \<exists>u t. s = u @ t \<and> list_all lower_alnum u \<and> (b \<or> u \<noteq> []) \<and> matches rest_rexp t"
proof (induction b s rule: image_from.induct)
  case (1 seg)
  then show ?case using rest_nil by auto
next
  case (2 seg c s)
  show ?case
  proof (cases "lower_alnum c")
    case True
    with 2 obtain u t where "s = u @ t" "list_all lower_alnum u" "matches rest_rexp t" by auto
    with True have "c # s = (c # u) @ t \<and> list_all lower_alnum (c # u) \<and> (seg \<or> c # u \<noteq> []) \<and>
        matches rest_rexp t" by simp
    then show ?thesis by blast
  next
    case False
    with "2.prems" have seg: seg by simp
    have "matches rest_rexp (c # s)"
    proof (cases "separator c")
      case True
      with False "2.prems" have "image_from False s" by simp
      with 2(2) False True obtain u t where s: "s = u @ t" "list_all lower_alnum u" "u \<noteq> []"
        and t: "matches rest_rexp t" using seg by auto
      from t obtain w v where t': "t = w @ v"
        "matches (Star (Cat (Chars separator) (Plus (Chars lower_alnum)))) w" "matches tag_rexp v"
        by (auto simp: rest_rexp_def)
      have "matches (Cat (Chars separator) (Plus (Chars lower_alnum))) ([c] @ u)"
        using True s by (intro m_cat m_chars) (simp_all add: plus_chars_iff)
      from m_star [OF this t'(2)] t'(3)
      have "matches rest_rexp ((([c] @ u) @ w) @ v)" unfolding rest_rexp_def by (rule m_cat)
      then show ?thesis by (simp add: s t')
    next
      case False
      with \<open>\<not> lower_alnum c\<close> "2.prems" have "matches tag_rexp (c # s)" by (auto simp: tag_rexp_iff)
      then have "matches rest_rexp ([] @ c # s)" unfolding rest_rexp_def by (intro m_cat m_star_nil)
      then show ?thesis by simp
    qed
    with seg have "c # s = [] @ (c # s) \<and> list_all lower_alnum [] \<and> (seg \<or> [] \<noteq> []) \<and>
        matches rest_rexp (c # s)" by simp
    then show ?thesis by blast
  qed
qed

lemma image_re_rest: "IMAGE_RE = Cat (Plus (Chars lower_alnum)) rest_rexp"
  by (simp add: IMAGE_RE_def rest_rexp_def tag_rexp_def)

text \<open>
  C36. The recogniser of image references that the request model is checked with accepts exactly
  the strings that the regular expression of the source matches in full.
\<close>

theorem valid_image_iff: "valid_image s \<longleftrightarrow> matches IMAGE_RE s"
proof
  assume "valid_image s"
  then obtain u t where "s = u @ t" "list_all lower_alnum u" "u \<noteq> []" "matches rest_rexp t"
    using image_from_split [of False s] by (auto simp: valid_image_def)
  then show "matches IMAGE_RE s" by (simp add: image_re_rest plus_chars_iff m_cat)
next
  assume "matches IMAGE_RE s"
  then obtain u t where "s = u @ t" "list_all lower_alnum u" "u \<noteq> []" "matches rest_rexp t"
    by (auto simp: image_re_rest plus_chars_iff)
  then show "valid_image s" by (simp add: valid_image_def image_from_alnum image_from_rest)
qed

section \<open>Request models\<close>

definition length_between :: "nat \<Rightarrow> nat \<Rightarrow> 'a list \<Rightarrow> bool" where
  "length_between lo hi s \<longleftrightarrow> lo \<le> length s \<and> length s \<le> hi"

definition MAX_JOB_DURATION_SECONDS :: int where
  "MAX_JOB_DURATION_SECONDS = 86400 * 7"

record submit_request =
  r_docker_image :: string
  r_command :: "string list"
  r_gpu_count :: int
  r_max_duration_seconds :: int
  r_preferred_node_id :: "uuid option"

definition valid_command :: "string list \<Rightarrow> bool" where
  "valid_command v \<longleftrightarrow> \<not> list_ex (\<lambda>x. x = []) v"

definition submit_request_ok :: "submit_request \<Rightarrow> bool" where
  "submit_request_ok r \<longleftrightarrow>
     length_between 1 255 (r_docker_image r) \<and> valid_image (r_docker_image r) \<and>
     length_between 1 64 (r_command r) \<and> valid_command (r_command r) \<and>
     1 \<le> r_gpu_count r \<and> r_gpu_count r \<le> 64 \<and>
     1 \<le> r_max_duration_seconds r \<and> r_max_duration_seconds r \<le> MAX_JOB_DURATION_SECONDS"

definition complete_request_ok :: "int \<Rightarrow> string option \<Rightarrow> bool" where
  "complete_request_ok exit_code error_message \<longleftrightarrow>
     - 1024 \<le> exit_code \<and> exit_code \<le> 1024 \<and>
     (case error_message of None \<Rightarrow> True | Some m \<Rightarrow> length_between 0 4000 m)"

definition log_entry_ok :: "log_entry \<Rightarrow> bool" where
  "log_entry_ok x \<longleftrightarrow>
     (e_stream x = ''stdout'' \<or> e_stream x = ''stderr'' \<or> e_stream x = ''system'') \<and>
     length_between 1 (64 * 1024) (e_content x) \<and> 0 \<le> e_sequence x"

definition metric_sample_ok :: "metric_sample \<Rightarrow> bool" where
  "metric_sample_ok x \<longleftrightarrow>
     0 \<le> s_gpu_index x \<and> s_gpu_index x \<le> 63 \<and>
     0 \<le> s_utilization_pct x \<and> s_utilization_pct x \<le> 100 \<and>
     0 \<le> s_memory_used_bytes x \<and> 0 \<le> s_memory_total_bytes x \<and>
     - 50 \<le> s_temperature_c x \<and> s_temperature_c x \<le> 200"

record register_request =
  g_claim_token :: string
  g_gpu_model :: string
  g_gpu_memory_gb :: int
  g_gpu_count :: int
  g_suggested_name :: "string option"

definition register_request_ok :: "register_request \<Rightarrow> bool" where
  "register_request_ok r \<longleftrightarrow>
     length_between 1 128 (g_claim_token r) \<and> length_between 1 100 (g_gpu_model r) \<and>
     1 \<le> g_gpu_memory_gb r \<and> 1 \<le> g_gpu_count r \<and>
     (case g_suggested_name r of None \<Rightarrow> True | Some m \<Rightarrow> length_between 0 100 m)"

text \<open>\<open>ApproveRequest\<close>, \<open>GenerateKeyRequest\<close>, \<open>SignupRequest\<close>, \<open>LoginRequest\<close>.\<close>

definition approve_request_ok :: "int \<Rightarrow> bool" where
  "approve_request_ok credits_gpu_hours \<longleftrightarrow> 0 \<le> credits_gpu_hours"

definition generate_key_request_ok :: "string \<Rightarrow> bool" where
  "generate_key_request_ok name \<longleftrightarrow> length_between 1 100 name"

definition signup_password_ok :: "string \<Rightarrow> bool" where
  "signup_password_ok password \<longleftrightarrow> length_between 8 72 password"

definition login_password_ok :: "string \<Rightarrow> bool" where
  "login_password_ok password \<longleftrightarrow> length_between 1 72 password"

text \<open>Query parameters: \<open>limit\<close> of the list endpoints, and of the log endpoint.\<close>

definition page_limit_ok :: "int \<Rightarrow> bool" where
  "page_limit_ok n \<longleftrightarrow> 1 \<le> n \<and> n \<le> 200"

definition log_query_ok :: "int \<Rightarrow> int \<Rightarrow> bool" where
  "log_query_ok after_sequence n \<longleftrightarrow> - 1 \<le> after_sequence \<and> 1 \<le> n \<and> n \<le> 2000"

section \<open>Response models\<close>

record user_response =
  ur_id :: uuid
  ur_email :: string
  ur_status :: string
  ur_can_host :: bool
  ur_can_rent :: bool
  ur_is_admin :: bool
  ur_credits_gpu_hours :: int
  ur_created_at :: datetime

text \<open>\<open>UserResponse\<close> and \<open>AdminUserListItem\<close> have the same fields.\<close>

definition user_view :: "user \<Rightarrow> user_response" where
  "user_view u = \<lparr>ur_id = u_id u, ur_email = u_email u, ur_status = u_status u,
     ur_can_host = u_can_host u, ur_can_rent = u_can_rent u, ur_is_admin = u_is_admin u,
     ur_credits_gpu_hours = u_credits_gpu_hours u, ur_created_at = u_created_at u\<rparr>"

record token_response =
  tr_access_token :: string
  tr_token_type :: string
  tr_expires_in_seconds :: int

record api_key_public =
  kp_id :: uuid
  kp_name :: string
  kp_prefix :: string
  kp_created_at :: datetime
  kp_revoked_at :: "datetime option"

definition api_key_view :: "api_key \<Rightarrow> api_key_public" where
  "api_key_view k = \<lparr>kp_id = k_id k, kp_name = k_name k, kp_prefix = k_prefix k,
     kp_created_at = k_created_at k, kp_revoked_at = k_revoked_at k\<rparr>"

record api_key_generated =
  kg_id :: uuid
  kg_name :: string
  kg_prefix :: string
  kg_full_key :: string
  kg_created_at :: datetime

record claim_token_response =
  cr_token :: string
  cr_prefix :: string
  cr_install_command :: string
  cr_expires_at :: datetime

record register_response =
  rr_node_id :: uuid
  rr_agent_token :: string
  rr_config_payload :: "(string \<times> string) list"

record node_public =
  np_id :: uuid
  np_name :: string
  np_gpu_model :: string
  np_gpu_memory_gb :: int
  np_gpu_count :: int
  np_status :: string
  np_last_seen_at :: "datetime option"
  np_created_at :: datetime

record node_detail = node_public +
  nd_current_job_id :: "uuid option"

record heartbeat_response =
  hr_received_at :: datetime
  hr_cancel_job_id :: "uuid option"

record job_public =
  jp_id :: uuid
  jp_docker_image :: string
  jp_command :: "string list"
  jp_gpu_count :: int
  jp_max_duration_seconds :: int
  jp_status :: string
  jp_exit_code :: "int option"
  jp_error_message :: "string option"
  jp_assigned_node_id :: "uuid option"
  jp_preferred_node_id :: "uuid option"
  jp_created_at :: datetime
  jp_started_at :: "datetime option"
  jp_completed_at :: "datetime option"

definition job_view :: "job \<Rightarrow> job_public" where
  "job_view j = \<lparr>jp_id = j_id j, jp_docker_image = j_docker_image j, jp_command = j_command j,
     jp_gpu_count = j_gpu_count j, jp_max_duration_seconds = j_max_duration_seconds j,
     jp_status = j_status j, jp_exit_code = j_exit_code j, jp_error_message = j_error_message j,
     jp_assigned_node_id = j_assigned_node_id j, jp_preferred_node_id = j_preferred_node_id j,
     jp_created_at = j_created_at j, jp_started_at = j_started_at j,
     jp_completed_at = j_completed_at j\<rparr>"

record job_assignment =
  ja_job_id :: uuid
  ja_docker_image :: string
  ja_command :: "string list"
  ja_max_duration_seconds :: int

definition job_assignment_of :: "job \<Rightarrow> job_assignment" where
  "job_assignment_of j = \<lparr>ja_job_id = j_id j, ja_docker_image = j_docker_image j,
     ja_command = j_command j, ja_max_duration_seconds = j_max_duration_seconds j\<rparr>"

record log_entry_out =
  lo_stream :: string
  lo_content :: string
  lo_sequence :: int
  lo_received_at :: datetime

definition log_view :: "job_log \<Rightarrow> log_entry_out" where
  "log_view l = \<lparr>lo_stream = l_stream l, lo_content = l_content l, lo_sequence = l_sequence l,
     lo_received_at = l_received_at l\<rparr>"

record audit_event =
  ae_id :: uuid
  ae_event_type :: string
  ae_user_id :: "uuid option"
  ae_user_email :: "string option"
  ae_ip_address :: "string option"
  ae_created_at :: datetime

record audit_event_detail = audit_event +
  ae_user_agent :: "string option"
  ae_event_data :: json

end
