(* ===== verification/Invariant.thy ===== *)
theory Invariant
  imports JobService NodeService AccountServices
begin

text \<open>
  The integrity invariant of the committed database, table by table: primary keys and
  unique columns, foreign keys, and the life-cycle facts no constraint of the schema
  states (which columns of a job are set in which status, one running job per node, a
  running job fits its node and respects its reservation, credits are never negative).
  The second half shows which row operations keep each part.
\<close>

section \<open>The invariant\<close>

definition users_ok :: "user list \<Rightarrow> bool" where
  "users_ok us \<longleftrightarrow> distinct (map u_id us) \<and> distinct (map u_email us) \<and>
     (\<forall>u \<in> set us. 0 \<le> u_credits_gpu_hours u \<and> int4_ok (u_credits_gpu_hours u))"

definition keys_ok :: "uuid set \<Rightarrow> api_key list \<Rightarrow> bool" where
  "keys_ok U ks \<longleftrightarrow> distinct (map k_id ks) \<and> distinct (map k_prefix ks) \<and> k_user_id ` set ks \<subseteq> U"

definition claims_ok :: "uuid set \<Rightarrow> claim_token list \<Rightarrow> bool" where
  "claims_ok U cs \<longleftrightarrow> distinct (map c_id cs) \<and> distinct (map c_prefix cs) \<and> c_user_id ` set cs \<subseteq> U"

definition nodes_ok :: "uuid set \<Rightarrow> node list \<Rightarrow> bool" where
  "nodes_ok U ns \<longleftrightarrow> distinct (map n_id ns) \<and>
     distinct (filter (\<lambda>p. p \<noteq> None) (map n_agent_token_prefix ns)) \<and> n_user_id ` set ns \<subseteq> U \<and>
     (\<forall>nd \<in> set ns. n_status nd = ''online'' \<or> n_status nd = ''draining'')"

definition job_ok :: "job \<Rightarrow> bool" where
  "job_ok j \<longleftrightarrow>
     1 \<le> j_gpu_count j \<and> j_gpu_count j \<le> 64 \<and>
     1 \<le> j_max_duration_seconds j \<and> j_max_duration_seconds j \<le> 604800 \<and>
     (if j_status j = QUEUED then
        j_assigned_node_id j = None \<and> j_started_at j = None \<and> j_completed_at j = None \<and>
        j_exit_code j = None \<and> j_error_message j = None \<and> j_cancel_requested_at j = None
      else if j_status j = RUNNING then
        j_assigned_node_id j \<noteq> None \<and> j_started_at j \<noteq> None \<and> j_completed_at j = None \<and>
        j_exit_code j = None \<and> j_error_message j = None
      else if j_status j = COMPLETED then
        j_started_at j \<noteq> None \<and> j_completed_at j \<noteq> None \<and> j_exit_code j = Some 0 \<and>
        j_cancel_requested_at j = None
      else if j_status j = FAILED then
        j_started_at j \<noteq> None \<and> j_completed_at j \<noteq> None \<and> j_exit_code j \<noteq> None \<and>
        j_exit_code j \<noteq> Some 0 \<and> j_cancel_requested_at j = None
      else
        j_status j = CANCELLED \<and> j_completed_at j \<noteq> None \<and>
        (if j_started_at j = None
         then j_exit_code j = None \<and> j_assigned_node_id j = None \<and> j_cancel_requested_at j = None
         else j_exit_code j \<noteq> None \<and> j_cancel_requested_at j \<noteq> None))"

text \<open>A running job fits the node it runs on and is not reserved for another one.\<close>

definition job_fits :: "node list \<Rightarrow> job \<Rightarrow> bool" where
  "job_fits ns j \<longleftrightarrow> (j_status j = RUNNING \<longrightarrow>
     (\<forall>nd \<in> set ns. j_assigned_node_id j = Some (n_id nd) \<longrightarrow>
        j_gpu_count j \<le> n_gpu_count nd \<and>
        (j_preferred_node_id j = None \<or> j_preferred_node_id j = Some (n_id nd))))"

definition one_running :: "job list \<Rightarrow> bool" where
  "one_running js \<longleftrightarrow> (\<forall>j \<in> set js. \<forall>j' \<in> set js.
     j_status j = RUNNING \<and> j_status j' = RUNNING \<and> j_assigned_node_id j = j_assigned_node_id j'
       \<longrightarrow> j_id j = j_id j')"

definition ref_in :: "uuid set \<Rightarrow> uuid option \<Rightarrow> bool" where
  "ref_in N r \<longleftrightarrow> (case r of None \<Rightarrow> True | Some i \<Rightarrow> i \<in> N)"

definition job_row_ok :: "uuid set \<Rightarrow> node list \<Rightarrow> job \<Rightarrow> bool" where
  "job_row_ok U ns j \<longleftrightarrow> job_ok j \<and> job_fits ns j \<and> j_user_id j \<in> U \<and>
     ref_in (n_id ` set ns) (j_assigned_node_id j) \<and> ref_in (n_id ` set ns) (j_preferred_node_id j)"

definition jobs_ok :: "uuid set \<Rightarrow> node list \<Rightarrow> job list \<Rightarrow> bool" where
  "jobs_ok U ns js \<longleftrightarrow>
     distinct (map j_id js) \<and> one_running js \<and> (\<forall>j \<in> set js. job_row_ok U ns j)"

definition log_key :: "job_log \<Rightarrow> uuid \<times> int" where
  "log_key l = (l_job_id l, l_sequence l)"

definition logs_ok :: "uuid set \<Rightarrow> job_log list \<Rightarrow> bool" where
  "logs_ok J ls \<longleftrightarrow> distinct (map l_id ls) \<and> distinct (map log_key ls) \<and> l_job_id ` set ls \<subseteq> J"

definition metrics_ok :: "uuid set \<Rightarrow> node_metric list \<Rightarrow> bool" where
  "metrics_ok N ms \<longleftrightarrow> distinct (map metric_key ms) \<and> m_node_id ` set ms \<subseteq> N"

definition audits_ok :: "uuid set \<Rightarrow> audit_log list \<Rightarrow> bool" where
  "audits_ok U as \<longleftrightarrow> distinct (map a_id as) \<and> (\<forall>a \<in> set as. ref_in U (a_user_id a))"

definition db_ok :: "db \<Rightarrow> bool" where
  "db_ok d \<longleftrightarrow>
     users_ok (users d) \<and> keys_ok (u_id ` set (users d)) (api_keys d) \<and>
     claims_ok (u_id ` set (users d)) (claim_tokens d) \<and>
     nodes_ok (u_id ` set (users d)) (nodes d) \<and>
     jobs_ok (u_id ` set (users d)) (nodes d) (jobs d) \<and>
     logs_ok (j_id ` set (jobs d)) (job_logs d) \<and>
     metrics_ok (n_id ` set (nodes d)) (node_metrics d) \<and>
     audits_ok (u_id ` set (users d)) (audit_events d)"

lemma db_ok_empty: "db_ok empty_db"
  by (simp add: db_ok_def empty_db_def users_ok_def keys_ok_def claims_ok_def nodes_ok_def
      jobs_ok_def one_running_def logs_ok_def metrics_ok_def audits_ok_def)

section \<open>Rows under a unique key\<close>

lemma map_put_same:
  assumes "distinct (map key rows)" and "lookup_row key (key r) rows = Some old" and "f r = f old"
  shows "map f (put_row key r rows) = map f rows"
proof -
  have "f (if key x = key r then r else x) = f x" if "x \<in> set rows" for x
    using lookup_row_distinct [OF assms(1) that] assms(2,3) by auto
  then show ?thesis by (simp add: put_row_def)
qed

lemma image_put_same:
  assumes "distinct (map key rows)" and "lookup_row key (key r) rows = Some old" and "f r = f old"
  shows "f ` set (put_row key r rows) = f ` set rows"
  using map_put_same [OF assms] by (metis list.set_map)

lemma ball_put:
  "\<forall>x \<in> set rows. P x \<Longrightarrow> P r \<Longrightarrow> \<forall>x \<in> set (put_row key r rows). P x"
  by (auto simp: put_row_def)

lemma lookup_in_keys: "lookup_row key k rows = Some r \<Longrightarrow> k \<in> key ` set rows"
  by (auto dest: lookup_row_SomeD)

section \<open>Which writes keep which part\<close>

named_theorems ok_intros "writes that keep the invariant"

lemma users_ok_put [ok_intros]:
  assumes "users_ok us" and "lookup_row u_id (u_id u') us = Some u"
    and "u_email u' = u_email u" and "0 \<le> u_credits_gpu_hours u'" and "int4_ok (u_credits_gpu_hours u')"
  shows "users_ok (put_row u_id u' us)"
  using assms map_put_same [of u_id us u' u u_email]
  by (auto simp: users_ok_def map_key_put in_set_put)

lemma users_ok_add [ok_intros]:
  "users_ok us \<Longrightarrow> u_id u \<notin> u_id ` set us \<Longrightarrow> u_email u \<notin> u_email ` set us \<Longrightarrow>
   u_credits_gpu_hours u = 0 \<Longrightarrow> users_ok (us @ [u])"
  by (auto simp: users_ok_def int4_ok_def)

lemma keys_ok_add [ok_intros]:
  "keys_ok U ks \<Longrightarrow> k_id k \<notin> k_id ` set ks \<Longrightarrow> k_prefix k \<notin> k_prefix ` set ks \<Longrightarrow>
   k_user_id k \<in> U \<Longrightarrow> keys_ok U (ks @ [k])"
  by (auto simp: keys_ok_def)

lemma keys_ok_put [ok_intros]:
  assumes "keys_ok U ks" and "lookup_row k_id (k_id k') ks = Some k"
    and "k_prefix k' = k_prefix k" and "k_user_id k' = k_user_id k"
  shows "keys_ok U (put_row k_id k' ks)"
  using assms map_put_same [of k_id ks k' k k_prefix] image_put_same [of k_id ks k' k k_user_id]
  by (simp add: keys_ok_def map_key_put)

lemma claims_ok_add [ok_intros]:
  "claims_ok U cs \<Longrightarrow> c_id c \<notin> c_id ` set cs \<Longrightarrow> c_prefix c \<notin> c_prefix ` set cs \<Longrightarrow>
   c_user_id c \<in> U \<Longrightarrow> claims_ok U (cs @ [c])"
  by (auto simp: claims_ok_def)

lemma claims_ok_put [ok_intros]:
  assumes "claims_ok U cs" and "lookup_row c_id (c_id c') cs = Some c"
    and "c_prefix c' = c_prefix c" and "c_user_id c' = c_user_id c"
  shows "claims_ok U (put_row c_id c' cs)"
  using assms map_put_same [of c_id cs c' c c_prefix] image_put_same [of c_id cs c' c c_user_id]
  by (simp add: claims_ok_def map_key_put)

lemma nodes_ok_add [ok_intros]:
  assumes "nodes_ok U ns" and "n_id nd \<notin> n_id ` set ns" and "n_user_id nd \<in> U"
    and "n_agent_token_prefix nd \<noteq> None \<Longrightarrow>
      n_agent_token_prefix nd \<notin> n_agent_token_prefix ` set ns"
    and "n_status nd = ''online'' \<or> n_status nd = ''draining''"
  shows "nodes_ok U (ns @ [nd])"
  using assms by (auto simp: nodes_ok_def)

lemma nodes_ok_put [ok_intros]:
  assumes "nodes_ok U ns" and "lookup_row n_id (n_id nd') ns = Some nd"
    and "n_agent_token_prefix nd' = n_agent_token_prefix nd" and "n_user_id nd' = n_user_id nd"
    and "n_status nd' = ''online'' \<or> n_status nd' = ''draining''"
  shows "nodes_ok U (put_row n_id nd' ns)"
  using assms map_put_same [of n_id ns nd' nd n_agent_token_prefix]
    image_put_same [of n_id ns nd' nd n_user_id]
  by (auto simp: nodes_ok_def map_key_put in_set_put)

lemma nodes_ok_drop [ok_intros]:
  assumes "nodes_ok U ns"
  shows "nodes_ok U (drop_row n_id i ns)"
proof -
  have "distinct (filter P (map f xs)) \<Longrightarrow> distinct (filter P (map f (drop_row n_id i xs)))"
    for P and f :: "node \<Rightarrow> string option" and xs
    by (induction xs) (auto simp: drop_row_def)
  with assms show ?thesis
    by (auto simp: nodes_ok_def distinct_drop row_simps)
qed

lemma audits_ok_add [ok_intros]:
  "audits_ok U as \<Longrightarrow> a_id a \<notin> a_id ` set as \<Longrightarrow> ref_in U (a_user_id a) \<Longrightarrow> audits_ok U (as @ [a])"
  by (auto simp: audits_ok_def)

lemma metrics_ok_upsert:
  assumes "metrics_ok N ms" and "m_node_id m \<in> N"
  shows "metrics_ok N (upsert_metric m ms)"
proof (cases "metric_key m \<in> metric_key ` set ms")
  case True
  then obtain old where old: "lookup_row metric_key (metric_key m) ms = Some old"
    using lookup_row_None [of metric_key "metric_key m" ms] by auto
  then have "m_node_id m = m_node_id old"
    by (auto dest!: lookup_row_SomeD simp: metric_key_def)
  with old assms show ?thesis
    using image_put_same [of metric_key ms m old m_node_id]
    by (simp add: metrics_ok_def upsert_metric_def True map_key_put)
next
  case False
  with assms show ?thesis by (auto simp: metrics_ok_def upsert_metric_def)
qed

lemma metrics_ok_fold [ok_intros]:
  "metrics_ok N ms \<Longrightarrow> \<forall>m \<in> set xs. m_node_id m \<in> N \<Longrightarrow> metrics_ok N (fold upsert_metric xs ms)"
  by (induction xs arbitrary: ms) (auto simp: metrics_ok_upsert)

lemma metrics_ok_drop [ok_intros]:
  "metrics_ok N ms \<Longrightarrow> metrics_ok (N - {i}) (filter (\<lambda>m. m_node_id m \<noteq> i) ms)"
  by (auto simp: metrics_ok_def distinct_map_filter)

lemma log_present_key:
  "log_present job_id sq ls \<longleftrightarrow> (job_id, sq) \<in> log_key ` set ls"
  by (auto simp: log_present_def log_key_def image_iff)

lemma logs_ok_insert [ok_intros]:
  assumes "logs_ok J ls" and "insert_logs e i k xs ls = Inr (m, ls')" and "i \<in> J"
  shows "logs_ok J ls'"
  using assms
proof (induction e i k xs ls arbitrary: m ls' rule: insert_logs.induct)
  case (2 e i k x xs ls)
  let ?l = "\<lparr>l_id = uuid4 e k, l_job_id = i, l_stream = e_stream x, l_content = e_content x,
    l_sequence = e_sequence x, l_received_at = txn_now e\<rparr>"
  show ?case
  proof (cases "log_present i (e_sequence x) ls")
    case True
    with 2 show ?thesis by (auto split: if_splits)
  next
    case False
    with "2.prems" have "uuid4 e k \<notin> l_id ` set ls" and int4: "int4_ok (e_sequence x)"
      by (auto split: if_splits)
    with False "2.prems"(1,3) have "logs_ok J (ls @ [?l])"
      by (auto simp: logs_ok_def log_present_key) (auto simp: log_key_def)
    moreover obtain m' where "insert_logs e i (Suc k) xs (ls @ [?l]) = Inr (m', ls')"
      using "2.prems"(2) False by (auto split: if_splits sum.splits)
    ultimately show ?thesis
      using 2 False int4 by (auto split: if_splits)
  qed
qed simp

lemma ref_in_mono: "ref_in N r \<Longrightarrow> N \<subseteq> M \<Longrightarrow> ref_in M r"
  by (auto simp: ref_in_def split: option.splits)

lemma ref_in_None [simp]: "ref_in N None"
  and ref_in_Some [simp]: "ref_in N (Some i) \<longleftrightarrow> i \<in> N"
  by (simp_all add: ref_in_def)

lemma node_ref_ok_iff: "node_ref_ok d r \<longleftrightarrow> ref_in (n_id ` set (nodes d)) r"
  by (simp add: node_ref_ok_def ref_in_def)

subsection \<open>More users\<close>

lemma keys_ok_insert [ok_intros]: "keys_ok U ks \<Longrightarrow> keys_ok (insert i U) ks"
  by (auto simp: keys_ok_def)

lemma claims_ok_insert [ok_intros]: "claims_ok U cs \<Longrightarrow> claims_ok (insert i U) cs"
  by (auto simp: claims_ok_def)

lemma nodes_ok_insert [ok_intros]: "nodes_ok U ns \<Longrightarrow> nodes_ok (insert i U) ns"
  by (auto simp: nodes_ok_def)

lemma job_row_ok_insert: "job_row_ok U ns j \<Longrightarrow> job_row_ok (insert i U) ns j"
  by (simp add: job_row_ok_def)

lemma jobs_ok_insert [ok_intros]: "jobs_ok U ns js \<Longrightarrow> jobs_ok (insert i U) ns js"
  by (simp add: jobs_ok_def job_row_ok_insert)

lemma audits_ok_insert [ok_intros]: "audits_ok U as \<Longrightarrow> audits_ok (insert i U) as"
  by (auto simp: audits_ok_def ref_in_def split: option.splits)

lemma logs_ok_insert_job [ok_intros]: "logs_ok J ls \<Longrightarrow> logs_ok (insert i J) ls"
  by (auto simp: logs_ok_def)

lemma metrics_ok_insert [ok_intros]: "metrics_ok N ms \<Longrightarrow> metrics_ok (insert i N) ms"
  by (auto simp: metrics_ok_def)

subsection \<open>Jobs\<close>

lemma one_runningD:
  "one_running js \<Longrightarrow> j \<in> set js \<Longrightarrow> j' \<in> set js \<Longrightarrow> j_status j = RUNNING \<Longrightarrow>
   j_status j' = RUNNING \<Longrightarrow> j_assigned_node_id j = j_assigned_node_id j' \<Longrightarrow> j_id j = j_id j'"
  unfolding one_running_def by blast

lemma one_runningI:
  assumes "\<And>x y. x \<in> set js \<Longrightarrow> y \<in> set js \<Longrightarrow> j_status x = RUNNING \<Longrightarrow> j_status y = RUNNING \<Longrightarrow>
    j_assigned_node_id x = j_assigned_node_id y \<Longrightarrow> j_id x = j_id y"
  shows "one_running js"
  unfolding one_running_def using assms by blast

lemma jobs_okD:
  assumes "jobs_ok U ns js" and "j \<in> set js"
  shows "job_ok j" "job_fits ns j" "j_user_id j \<in> U"
    "ref_in (n_id ` set ns) (j_assigned_node_id j)" "ref_in (n_id ` set ns) (j_preferred_node_id j)"
  using assms by (simp_all add: jobs_ok_def job_row_ok_def)

lemma jobs_ok_distinct: "jobs_ok U ns js \<Longrightarrow> distinct (map j_id js)"
  by (simp add: jobs_ok_def)

lemma jobs_ok_one_running: "jobs_ok U ns js \<Longrightarrow> one_running js"
  by (simp add: jobs_ok_def)

lemma jobs_ok_rows:
  assumes "jobs_ok U ns js" and "map j_id js' = map j_id js" and "one_running js'"
    and "\<And>j. j \<in> set js' \<Longrightarrow> job_row_ok U' ns' j"
  shows "jobs_ok U' ns' js'"
  using assms by (simp add: jobs_ok_def)

lemma one_running_add:
  assumes "one_running js" and "j_status j \<noteq> RUNNING"
  shows "one_running (js @ [j])"
proof (rule one_runningI)
  fix x y assume xy: "x \<in> set (js @ [j])" "y \<in> set (js @ [j])"
    and run: "j_status x = RUNNING" "j_status y = RUNNING"
    and same: "j_assigned_node_id x = j_assigned_node_id y"
  from xy run assms(2) have "x \<in> set js" "y \<in> set js" by (auto simp del: job_status_distinct)
  then show "j_id x = j_id y" using run same by (rule one_runningD [OF assms(1)])
qed

lemma one_running_put:
  assumes "one_running js"
    and "\<And>x. x \<in> set js \<Longrightarrow> j_status j' = RUNNING \<Longrightarrow> j_status x = RUNNING \<Longrightarrow>
      j_assigned_node_id x = j_assigned_node_id j' \<Longrightarrow> j_id x = j_id j'"
  shows "one_running (put_row j_id j' js)"
proof (rule one_runningI)
  fix x y assume xy: "x \<in> set (put_row j_id j' js)" "y \<in> set (put_row j_id j' js)"
    and run: "j_status x = RUNNING" "j_status y = RUNNING"
    and same: "j_assigned_node_id x = j_assigned_node_id y"
  from xy consider "x = j'" "y = j'" | "x = j'" "y \<in> set js" | "x \<in> set js" "y = j'"
    | "x \<in> set js" "y \<in> set js" by (auto simp only: in_set_put)
  then show "j_id x = j_id y"
  proof cases
    case 2
    with run same assms(2) [of y] show ?thesis by metis
  next
    case 3
    with run same assms(2) [of x] show ?thesis by metis
  next
    case 4
    then show ?thesis using run same by (rule one_runningD [OF assms(1)])
  qed simp
qed

lemma jobs_ok_add [ok_intros]:
  assumes "jobs_ok U ns js" and "j_id j \<notin> j_id ` set js" and "j_user_id j \<in> U" and "job_ok j"
    and "j_status j = QUEUED" and "j_assigned_node_id j = None"
    and "ref_in (n_id ` set ns) (j_preferred_node_id j)"
  shows "jobs_ok U ns (js @ [j])"
proof -
  have "job_row_ok U ns j" using assms by (simp add: job_row_ok_def job_fits_def)
  with assms(1,2,5) show ?thesis by (auto simp: jobs_ok_def one_running_add)
qed

lemma jobs_ok_put [ok_intros]:
  assumes "jobs_ok U ns js" and "lookup_row j_id (j_id j') js = Some j"
    and "j_user_id j' = j_user_id j" and "job_ok j'" and "job_fits ns j'"
    and "ref_in (n_id ` set ns) (j_assigned_node_id j')"
    and "ref_in (n_id ` set ns) (j_preferred_node_id j')"
    and "\<And>x. x \<in> set js \<Longrightarrow> j_status j' = RUNNING \<Longrightarrow> j_status x = RUNNING \<Longrightarrow>
      j_assigned_node_id x = j_assigned_node_id j' \<Longrightarrow> j_id x = j_id j'"
  shows "jobs_ok U ns (put_row j_id j' js)"
proof (rule jobs_ok_rows [OF assms(1) map_key_put])
  show "one_running (put_row j_id j' js)"
    using jobs_ok_one_running [OF assms(1)] assms(8) by (rule one_running_put)
  have "j \<in> set js" using lookup_row_SomeD [OF assms(2)] by simp
  then have "job_row_ok U ns j'"
    using jobs_okD(3) [OF assms(1)] assms(3-7) by (simp add: job_row_ok_def)
  then show "job_row_ok U ns x" if "x \<in> set (put_row j_id j' js)" for x
    using that assms(1) by (auto simp: in_set_put jobs_ok_def)
qed

lemma job_fits_nodes:
  assumes "job_fits ns j"
    and "\<And>nd'. nd' \<in> set ns' \<Longrightarrow> j_assigned_node_id j = Some (n_id nd') \<Longrightarrow>
      \<exists>nd \<in> set ns. n_id nd = n_id nd' \<and> n_gpu_count nd = n_gpu_count nd'"
  shows "job_fits ns' j"
  using assms unfolding job_fits_def by metis

lemma jobs_ok_nodes:
  assumes "jobs_ok U ns js" and "n_id ` set ns \<subseteq> n_id ` set ns'"
    and "\<And>nd'. nd' \<in> set ns' \<Longrightarrow> n_id nd' \<in> n_id ` set ns \<Longrightarrow>
      \<exists>nd \<in> set ns. n_id nd = n_id nd' \<and> n_gpu_count nd = n_gpu_count nd'"
  shows "jobs_ok U ns' js"
proof (rule jobs_ok_rows [OF assms(1) refl jobs_ok_one_running [OF assms(1)]])
  fix j assume j: "j \<in> set js"
  note row = jobs_okD [OF assms(1) j]
  have "job_fits ns' j"
    using row(2) by (rule job_fits_nodes) (use assms(3) row(4) in \<open>auto simp: ref_in_def\<close>)
  with row assms(2) show "job_row_ok U ns' j" by (auto simp: job_row_ok_def intro: ref_in_mono)
qed

lemma jobs_ok_nodes_put [ok_intros]:
  assumes "jobs_ok U ns js" and "lookup_row n_id (n_id nd') ns = Some nd"
    and "n_gpu_count nd' = n_gpu_count nd"
  shows "jobs_ok U (put_row n_id nd' ns) js"
  using assms(1)
proof (rule jobs_ok_nodes)
  have "nd \<in> set ns \<and> n_id nd = n_id nd'" using assms(2) by (rule lookup_row_SomeD)
  then show "\<exists>x \<in> set ns. n_id x = n_id y \<and> n_gpu_count x = n_gpu_count y"
    if "y \<in> set (put_row n_id nd' ns)" for y
    using that assms(3) by (auto simp: in_set_put)
qed (simp add: keys_put)

lemma jobs_ok_nodes_add [ok_intros]:
  assumes "jobs_ok U ns js" and "n_id nd \<notin> n_id ` set ns"
  shows "jobs_ok U (ns @ [nd]) js"
  using assms(1) by (rule jobs_ok_nodes) (use assms(2) in auto)

lemma forget_node_simps [simp]:
  "j_id (forget_node i j) = j_id j" "j_status (forget_node i j) = j_status j"
  "j_user_id (forget_node i j) = j_user_id j" "j_gpu_count (forget_node i j) = j_gpu_count j"
  "j_max_duration_seconds (forget_node i j) = j_max_duration_seconds j"
  "j_started_at (forget_node i j) = j_started_at j"
  "j_completed_at (forget_node i j) = j_completed_at j"
  "j_exit_code (forget_node i j) = j_exit_code j"
  "j_error_message (forget_node i j) = j_error_message j"
  "j_cancel_requested_at (forget_node i j) = j_cancel_requested_at j"
  "j_created_at (forget_node i j) = j_created_at j"
  "j_assigned_node_id (forget_node i j) =
     (if j_assigned_node_id j = Some i then None else j_assigned_node_id j)"
  "j_preferred_node_id (forget_node i j) =
     (if j_preferred_node_id j = Some i then None else j_preferred_node_id j)"
  by (simp_all add: forget_node_def)

lemma job_ok_forget:
  "job_ok j \<Longrightarrow> \<not> (j_status j = RUNNING \<and> j_assigned_node_id j = Some i) \<Longrightarrow> job_ok (forget_node i j)"
  by (auto simp: job_ok_def)

lemma ref_in_drop:
  assumes "ref_in (n_id ` set ns) r"
  shows "ref_in (n_id ` set (drop_row n_id i ns)) (if r = Some i then None else r)"
proof (cases r)
  case (Some k)
  with assms obtain nd where "nd \<in> set ns" "n_id nd = k" by auto
  then have "k \<noteq> i \<Longrightarrow> k \<in> n_id ` set (drop_row n_id i ns)" by (auto simp: drop_row_def)
  with Some show ?thesis by simp
qed simp

lemma one_running_forget:
  assumes "one_running js"
    and "\<And>j. j \<in> set js \<Longrightarrow> \<not> (j_status j = RUNNING \<and> j_assigned_node_id j = Some i)"
  shows "one_running (map (forget_node i) js)"
proof (rule one_runningI)
  fix x y assume x: "x \<in> set (map (forget_node i) js)" and y: "y \<in> set (map (forget_node i) js)"
    and h: "j_status x = RUNNING" "j_status y = RUNNING" "j_assigned_node_id x = j_assigned_node_id y"
  from x y obtain a b where ab: "a \<in> set js" "x = forget_node i a" "b \<in> set js" "y = forget_node i b"
    by auto
  with h assms(2) [of a] assms(2) [of b] have "j_assigned_node_id a = j_assigned_node_id b"
    by simp
  with ab h one_runningD [OF assms(1) ab(1,3)] show "j_id x = j_id y" by simp
qed

lemma jobs_ok_drop_node [ok_intros]:
  assumes ok: "jobs_ok U ns js"
    and idle: "\<And>j. j \<in> set js \<Longrightarrow> \<not> (j_status j = RUNNING \<and> j_assigned_node_id j = Some i)"
  shows "jobs_ok U (drop_row n_id i ns) (map (forget_node i) js)"
  using ok
proof (rule jobs_ok_rows)
  show "map j_id (map (forget_node i) js) = map j_id js" by simp
  show "one_running (map (forget_node i) js)"
    using jobs_ok_one_running [OF ok] idle by (rule one_running_forget)
  fix x assume "x \<in> set (map (forget_node i) js)"
  then obtain j where j: "j \<in> set js" and x: "x = forget_node i j" by auto
  note row = jobs_okD [OF ok j]
  have "job_fits (drop_row n_id i ns) x"
    using row(2) idle [OF j] by (auto simp: x job_fits_def drop_row_def)
  then show "job_row_ok U (drop_row n_id i ns) x"
    using row(1,3,4,5) idle [OF j] job_ok_forget [OF row(1)]
    by (simp only: job_row_ok_def x forget_node_simps ref_in_drop simp_thms)
qed

end
