(* ===== verification/Preservation.thy ===== *)
theory Preservation
  imports Invariant
begin

text \<open>
  Every service operation keeps the integrity invariant of the committed database, run as
  one request. An operation that writes with what it read (a job, a node, a user) keeps it
  because the row it writes back is the row it found in the same transaction; the
  operations that receive an authenticated row as an argument assume that it is current.
\<close>

definition ok_run :: "'a svc \<Rightarrow> db \<Rightarrow> bool" where
  "ok_run m d \<longleftrightarrow> wp m (\<lambda>_ s. db_ok (committed s)) (begin_session d)"

lemma ok_run_snd: "ok_run m d \<Longrightarrow> db_ok (snd (run_svc m d))"
  by (auto simp: ok_run_def wp_def run_svc_def split: prod.splits)

lemma session_begin [simp]:
  "committed (begin_session d) = d" "working (begin_session d) = d"
  by (simp_all add: begin_session_def)

lemma user_ref_ok:
  "(case r of None \<Rightarrow> False | Some i \<Rightarrow> i \<notin> N) \<longleftrightarrow> \<not> ref_in N r"
  by (simp add: ref_in_def split: option.splits)

section \<open>The common tail: an audit event and the commit\<close>

lemma insert_audit_ok:
  "db_ok d \<Longrightarrow> insert_audit a d = Inr d' \<Longrightarrow> db_ok d'"
  by (auto simp: insert_audit_def user_ref_ok db_ok_def audits_ok_add split: if_splits)

lemma insert_audit_frame:
  "insert_audit a d = Inr d' \<Longrightarrow> users d' = users d \<and> api_keys d' = api_keys d \<and>
     claim_tokens d' = claim_tokens d \<and> nodes d' = nodes d \<and> jobs d' = jobs d \<and>
     job_logs d' = job_logs d \<and> node_metrics d' = node_metrics d \<and>
     audit_events d' = audit_events d @ [a]"
  by (auto simp: insert_audit_def split: if_splits option.splits)

lemma wp_audit_intro [ok_intros]:
  assumes "db_ok (working s)" and "\<And>err. Q (Inl err) s"
    and "\<And>a w. db_ok w \<Longrightarrow> insert_audit a (working s) = Inr w \<Longrightarrow> Q (Inr a) (s\<lparr>working := w\<rparr>)"
  shows "wp (audit_repo_create e i t u fs ip ua) Q s"
  using assms by (auto simp: audit_repo_create_def Let_def wp_simps intro: insert_audit_ok split: sum.splits)

section \<open>Reads of one row\<close>

lemma find_user_distinct:
  "db_ok d \<Longrightarrow> lookup_row u_email m (users d) = Some u \<Longrightarrow> find_user (u_id u) d = Some u"
  by (auto simp: db_ok_def users_ok_def dest!: lookup_row_SomeD intro: lookup_row_distinct)

lemma find_claim_distinct:
  "db_ok d \<Longrightarrow> lookup_row c_prefix p (claim_tokens d) = Some c \<Longrightarrow>
   lookup_row c_id (c_id c) (claim_tokens d) = Some c"
  by (auto simp: db_ok_def claims_ok_def dest!: lookup_row_SomeD intro: lookup_row_distinct)

lemma find_job_current:
  "find_job i d = Some j \<Longrightarrow> find_job (j_id j) d = Some j"
  by (auto dest: lookup_row_SomeD)

section \<open>Jobs\<close>

lemma new_job_ok:
  assumes "1 \<le> g" "g \<le> 64" "1 \<le> t" "t \<le> 604800"
  shows "job_ok (new_job e i u img cmd g t p)"
  using assms by (simp add: job_ok_def new_job_def job_status_literals)

lemma insert_job_ok:
  assumes "db_ok d" and "insert_job j d = Inr d'" and "job_ok j"
    and "j_status j = QUEUED" and "j_assigned_node_id j = None"
  shows "db_ok d'"
  using assms by (auto simp: insert_job_def node_ref_ok_iff db_ok_def jobs_ok_add logs_ok_insert_job
      split: if_splits)

lemma submit_ok:
  assumes "db_ok d" and "1 \<le> gpu_count" "gpu_count \<le> 64"
    and "1 \<le> max_duration_seconds" "max_duration_seconds \<le> 604800"
  shows "ok_run (submit e actor img cmd gpu_count max_duration_seconds p ip ua) d"
proof -
  let ?j = "new_job e (uuid4 e 0) (u_id actor) img cmd gpu_count max_duration_seconds p"
  have "db_ok d'" if "insert_job ?j d = Inr d'" for d'
    using assms(1) that
    by (rule insert_job_ok) (simp_all add: new_job_ok assms, simp_all add: new_job_def job_status_literals)
  then show ?thesis using assms(1)
    by (auto simp: ok_run_def submit_def job_repo_create_def Let_def wp_simps
        split: sum.splits intro!: wp_audit_intro)
qed

text \<open>Claiming: the candidate is a queued row, and the node has no running job yet.\<close>

lemma next_claimable_in:
  "next_claimable e i g js = Some j \<Longrightarrow> j \<in> set js \<and> claimable e i g j"
proof -
  assume "next_claimable e i g js = Some j"
  then obtain ys where "sort_key job_key (filter (claimable e i g) js) = j # ys"
    by (auto simp: next_claimable_def split: list.splits)
  then have "j \<in> set (sort_key job_key (filter (claimable e i g) js))"
    by (metis list.set_intros(1))
  then show ?thesis by simp
qed

lemma not_running_on:
  "find (running_on i) js = None \<Longrightarrow> j \<in> set js \<Longrightarrow>
   \<not> (j_status j = RUNNING \<and> j_assigned_node_id j = Some i)"
  by (auto simp: find_None_iff running_on_def job_status_literals)

lemma db_ok_jobs:
  "db_ok d \<Longrightarrow> jobs_ok (u_id ` set (users d)) (nodes d) (jobs d)"
  by (simp add: db_ok_def)

lemma db_ok_put_job:
  assumes "db_ok d" and "find_job (j_id j') d = Some j" and "j_user_id j' = j_user_id j"
    and "job_ok j'" and "job_fits (nodes d) j'"
    and "ref_in (n_id ` set (nodes d)) (j_assigned_node_id j')"
    and "j_preferred_node_id j' = j_preferred_node_id j"
    and "\<And>x. x \<in> set (jobs d) \<Longrightarrow> j_status j' = RUNNING \<Longrightarrow> j_status x = RUNNING \<Longrightarrow>
      j_assigned_node_id x = j_assigned_node_id j' \<Longrightarrow> j_id x = j_id j'"
  shows "db_ok (d\<lparr>jobs := put_row j_id j' (jobs d)\<rparr>)"
proof -
  have "j \<in> set (jobs d)" using assms(2) by (auto dest: lookup_row_SomeD)
  then have "ref_in (n_id ` set (nodes d)) (j_preferred_node_id j')"
    using jobs_okD(5) [OF db_ok_jobs [OF assms(1)]] assms(7) by simp
  with assms have "jobs_ok (u_id ` set (users d)) (nodes d) (put_row j_id j' (jobs d))"
    by (intro jobs_ok_put [OF db_ok_jobs [OF assms(1)] assms(2)])
  with assms(1) show ?thesis by (simp add: db_ok_def keys_put)
qed

lemma assign_job_ok:
  assumes "db_ok d" and node: "find_node (n_id nd) d = Some nd"
    and idle: "find (running_on (n_id nd)) (jobs d) = None"
    and cand: "next_claimable e (n_id nd) (n_gpu_count nd) (jobs d) = Some j"
    and assign: "assign_job (j\<lparr>j_status := ''running'', j_assigned_node_id := Some (n_id nd),
      j_started_at := Some now\<rparr>) d = Inr d'"
  shows "db_ok d'"
proof -
  let ?j = "j\<lparr>j_status := ''running'', j_assigned_node_id := Some (n_id nd), j_started_at := Some now\<rparr>"
  note jd = next_claimable_in [OF cand]
  have js: "jobs_ok (u_id ` set (users d)) (nodes d) (jobs d)" using assms(1) by (rule db_ok_jobs)
  have cur: "find_job (j_id ?j) d = Some j"
    using lookup_row_distinct [OF jobs_ok_distinct [OF js]] jd by simp
  have q: "j_status j = QUEUED" using jd by (simp add: claimable_def job_status_literals)
  have ok: "job_ok ?j" using jobs_okD(1) [OF js] jd q by (auto simp: job_ok_def job_status_literals)
  have nodes: "distinct (map n_id (nodes d))" using assms(1) by (simp add: db_ok_def nodes_ok_def)
  have fits: "job_fits (nodes d) ?j"
    unfolding job_fits_def
  proof (intro impI ballI)
    fix x assume "x \<in> set (nodes d)" and "j_assigned_node_id ?j = Some (n_id x)"
    then have "x = nd" using lookup_row_distinct [OF nodes, of x] node by simp
    with jd show "j_gpu_count ?j \<le> n_gpu_count x \<and>
        (j_preferred_node_id ?j = None \<or> j_preferred_node_id ?j = Some (n_id x))"
      by (simp add: claimable_def)
  qed
  have "d' = d\<lparr>jobs := put_row j_id ?j (jobs d)\<rparr>"
    using assign by (auto simp: assign_job_def flush_job_def split: if_splits)
  then show ?thesis
    using db_ok_put_job [OF assms(1) cur _ ok fits] not_running_on [OF idle] lookup_in_keys [OF node]
    by simp
qed

lemma claim_for_node_ok:
  assumes "db_ok d" and "find_node (n_id nd) d = Some nd"
  shows "ok_run (claim_for_node e nd) d"
  using assms assign_job_ok [OF assms, of e _ "clock e 0"]
  by (auto simp: ok_run_def claim_for_node_def job_repo_get_running_for_node_def
      job_repo_claim_next_for_node_def Let_def wp_simps
      split: sum.splits option.splits intro!: wp_audit_intro)

section \<open>Completion and cancellation\<close>

lemma flush_user_ok:
  assumes "db_ok d" and "find_user (u_id u) d = Some u" and "u_id u' = u_id u"
    and "u_email u' = u_email u" and "0 \<le> u_credits_gpu_hours u'"
    and "flush_user e u u' d = Inr d'"
  shows "db_ok d'"
proof (cases "u' = u")
  case True
  with assms show ?thesis by (simp add: flush_user_def)
next
  case False
  with assms(6) have d': "d' = d\<lparr>users := put_row u_id (u'\<lparr>u_updated_at := txn_now e\<rparr>) (users d)\<rparr>"
    and c: "int4_ok (u_credits_gpu_hours u')"
    by (auto simp: flush_user_def split: if_splits)
  have "users_ok (users d')"
    using assms(1-5) c by (simp add: d' db_ok_def) (rule users_ok_put, auto)
  with assms(1) show ?thesis by (simp add: d' db_ok_def keys_put)
qed

lemma flush_user_frame:
  "flush_user e u u' d = Inr d' \<Longrightarrow> nodes d' = nodes d \<and> jobs d' = jobs d"
  by (auto simp: flush_user_def split: if_splits)

lemma wp_charge_user:
  assumes "db_ok (working s)"
    and "\<And>w. db_ok w \<Longrightarrow> nodes w = nodes (working s) \<Longrightarrow> jobs w = jobs (working s) \<Longrightarrow>
      Q (Inr ()) (s\<lparr>working := w\<rparr>)"
    and "\<And>err. Q (Inl err) s"
  shows "wp (charge_user e i billed) Q s"
proof (cases "find_user i (working s)")
  case None
  then show ?thesis using assms(2) [of "working s"] assms(1)
    by (simp add: charge_user_def user_repo_get_by_id_def wp_simps)
next
  case (Some u)
  then have u: "find_user (u_id u) (working s) = Some u" by (auto dest: lookup_row_SomeD)
  have "Q (Inr ()) (s\<lparr>working := w\<rparr>)" if "flush_user e u u' (working s) = Inr w"
    and "u_id u' = u_id u" "u_email u' = u_email u" "0 \<le> u_credits_gpu_hours u'" for u' w
    using assms(2) flush_user_ok [OF assms(1) u that(2-4,1)] flush_user_frame [OF that(1)] by blast
  then show ?thesis
    using Some assms(3)
    by (simp add: charge_user_def user_repo_get_by_id_def wp_simps split: sum.splits)
qed

lemma terminal_of_running:
  assumes "job_ok j" and "j_status j = RUNNING" and "t = completion_target j code"
  shows "job_ok (j\<lparr>j_status := t, j_exit_code := Some code, j_error_message := msg,
    j_completed_at := Some now\<rparr>)"
  using assms by (auto simp: job_ok_def completion_target_def)

lemma cancelled_of_queued:
  assumes "job_ok j" and "j_status j = QUEUED"
  shows "job_ok (j\<lparr>j_status := CANCELLED, j_exit_code := None, j_error_message := msg,
    j_completed_at := Some now\<rparr>)"
  using assms by (auto simp: job_ok_def)

lemma cancel_requested_of_running:
  assumes "job_ok j" and "j_status j = RUNNING"
  shows "job_ok (j\<lparr>j_cancel_requested_at := Some now\<rparr>)"
  using assms by (auto simp: job_ok_def)

lemma find_job_in: "find_job i d = Some j \<Longrightarrow> j \<in> set (jobs d) \<and> j_id j = i"
  by (rule lookup_row_SomeD)

text \<open>Writing back a found job with a new outcome: id, owner and node references stay.\<close>

lemma db_ok_put_outcome:
  assumes ok: "db_ok d" and find: "find_job i d = Some j" and "job_ok j'"
    and same: "j_id j' = j_id j" "j_user_id j' = j_user_id j" "j_gpu_count j' = j_gpu_count j"
      "j_assigned_node_id j' = j_assigned_node_id j" "j_preferred_node_id j' = j_preferred_node_id j"
    and st: "j_status j' = RUNNING \<Longrightarrow> j_status j = RUNNING"
  shows "db_ok (d\<lparr>jobs := put_row j_id j' (jobs d)\<rparr>)"
proof -
  note js = db_ok_jobs [OF ok]
  have j: "j \<in> set (jobs d)" using find_job_in [OF find] by simp
  have cur: "find_job (j_id j') d = Some j" using find find_job_in [OF find] same by simp
  have fits: "job_fits (nodes d) j'"
    using jobs_okD(2) [OF js j] same st by (auto simp: job_fits_def)
  show ?thesis
  proof (rule db_ok_put_job [OF ok cur same(2) assms(3) fits _ same(5)])
    show "ref_in (n_id ` set (nodes d)) (j_assigned_node_id j')"
      using jobs_okD(4) [OF js j] same by simp
    show "j_id x = j_id j'" if "x \<in> set (jobs d)" "j_status j' = RUNNING" "j_status x = RUNNING"
      "j_assigned_node_id x = j_assigned_node_id j'" for x
      using one_runningD [OF jobs_ok_one_running [OF js] that(1) j that(3) st [OF that(2)]] that(4) same
      by metis
  qed
qed

lemma job_ok_found: "db_ok d \<Longrightarrow> find_job i d = Some j \<Longrightarrow> job_ok j"
  using jobs_okD(1) [OF db_ok_jobs] find_job_in by blast

lemma allowed_target_running:
  assumes "(j_status j, completion_target j code) \<in> ALLOWED_TRANSITIONS" and "job_ok j"
  shows "j_status j = RUNNING"
  using assms by (auto simp: ALLOWED_TRANSITIONS_def completion_target_def job_ok_def split: if_splits)

lemma complete_job_ok:
  assumes "db_ok d"
  shows "ok_run (complete_job e nd i code msg) d"
proof (cases "find_job i d")
  case None
  then show ?thesis using assms
    by (simp add: ok_run_def complete_job_def job_repo_get_by_id_def wp_simps)
next
  case (Some j)
  have jok: "job_ok j" using assms Some by (rule job_ok_found)
  let ?t = "completion_target j code"
  show ?thesis
  proof (cases "(j_status j, ?t) \<in> ALLOWED_TRANSITIONS")
    case False
    then show ?thesis using Some assms
      by (simp add: ok_run_def complete_job_def job_repo_get_by_id_def wp_simps Let_def)
  next
    case True
    then have run: "j_status j = RUNNING" using jok by (rule allowed_target_running)
    have done_ok: "db_ok (w\<lparr>jobs := put_row j_id (j\<lparr>j_status := ?t, j_exit_code := Some code,
        j_error_message := msg, j_completed_at := Some now\<rparr>) (jobs d)\<rparr>)"
      if "db_ok w" "jobs w = jobs d" for w now
    proof -
      have "db_ok (w\<lparr>jobs := put_row j_id (j\<lparr>j_status := ?t, j_exit_code := Some code,
        j_error_message := msg, j_completed_at := Some now\<rparr>) (jobs w)\<rparr>)"
        using that(1)
        by (rule db_ok_put_outcome [where j = j and i = i])
          (use Some that terminal_of_running [OF jok run refl] run in \<open>auto simp: completion_target_def\<close>)
      then show ?thesis by (simp add: that(2))
    qed
    show ?thesis using Some assms True
      by (auto simp: ok_run_def complete_job_def job_repo_get_by_id_def job_repo_mark_terminal_def
          flush_job_def wp_simps Let_def done_ok intro!: wp_charge_user wp_audit_intro)
  qed
qed

lemma cancel_or_request_cancel_ok:
  assumes "db_ok d" and "find_job i d = Some j"
  shows "wp (cancel_or_request_cancel e j ev u uid extra ip ua) (\<lambda>_ s. db_ok (committed s)) (begin_session d)"
proof -
  have jok: "job_ok j" using assms by (rule job_ok_found)
  have c: "db_ok (d\<lparr>jobs := put_row j_id (j\<lparr>j_status := CANCELLED, j_exit_code := None,
      j_error_message := msg, j_completed_at := Some now\<rparr>) (jobs d)\<rparr>)"
    if "j_status j = QUEUED" for msg now
    using assms by (rule db_ok_put_outcome) (use that cancelled_of_queued [OF jok] in auto)
  have r: "db_ok (d\<lparr>jobs := put_row j_id (j\<lparr>j_cancel_requested_at := Some now\<rparr>) (jobs d)\<rparr>)"
    if "j_status j = RUNNING" for now
    using assms by (rule db_ok_put_outcome) (use that cancel_requested_of_running [OF jok] in auto)
  show ?thesis using assms c r
    by (auto simp: cancel_or_request_cancel_def job_repo_mark_terminal_def job_repo_request_cancel_def
        flush_job_def wp_simps Let_def intro!: wp_audit_intro)
qed

lemma cancel_job_ok: "db_ok d \<Longrightarrow> ok_run (cancel_job e owner i ip ua) d"
  by (auto simp: ok_run_def cancel_job_def job_repo_get_by_id_def wp_simps
      split: option.splits intro: cancel_or_request_cancel_ok)

lemma admin_force_kill_ok: "db_ok d \<Longrightarrow> ok_run (admin_force_kill e admin i ip ua) d"
  by (auto simp: ok_run_def admin_force_kill_def job_repo_get_by_id_def wp_simps
      split: option.splits intro: cancel_or_request_cancel_ok)

lemma append_log_rows_ok:
  assumes "db_ok d" and "append_log_rows e k xs d = Inr (m, w)"
  shows "db_ok w"
  using assms by (auto simp: append_log_rows_def db_ok_def intro: logs_ok_insert split: if_splits sum.splits)

lemma map_sum_snd_Inr: "map_sum id snd r = Inr w \<longleftrightarrow> (\<exists>m. r = Inr (m, w))"
  by (cases r) auto

lemma append_logs_ok: "db_ok d \<Longrightarrow> ok_run (append_logs e nd i entries) d"
  by (auto simp: ok_run_def append_logs_def job_repo_get_by_id_def job_log_repo_append_def wp_simps
      map_sum_snd_Inr intro: append_log_rows_ok split: option.splits sum.splits)

section \<open>Accounts\<close>

lemma insert_user_ok:
  "db_ok d \<Longrightarrow> insert_user (new_user e i m h) d = Inr d' \<Longrightarrow> db_ok d'"
  by (auto simp: insert_user_def new_user_def db_ok_def users_ok_add keys_ok_insert claims_ok_insert
      nodes_ok_insert jobs_ok_insert audits_ok_insert split: if_splits)

lemma signup_ok: "db_ok d \<Longrightarrow> ok_run (signup e m pw ip ua) d"
  by (auto simp: ok_run_def signup_def user_repo_get_by_email_def user_repo_create_def Let_def wp_simps
      split: option.splits sum.splits intro!: wp_audit_intro intro: insert_user_ok)

lemma login_ok: "db_ok d \<Longrightarrow> ok_run (login e m pw ip ua) d"
  by (auto simp: ok_run_def login_def login_failed_def user_repo_get_by_email_def wp_simps
      split: option.splits intro!: wp_audit_intro)

lemma flush_found_user_ok:
  assumes "db_ok d" and "find_user i d = Some u" and "flush_user e u u' d = Inr d'"
    and "u_id u' = u_id u" "u_email u' = u_email u" "0 \<le> u_credits_gpu_hours u'"
  shows "db_ok d'"
proof -
  have "find_user (u_id u) d = Some u" using assms(2) by (auto dest: lookup_row_SomeD)
  with assms show ?thesis by (blast intro: flush_user_ok)
qed

lemma credits_nonneg: "db_ok d \<Longrightarrow> find_user i d = Some u \<Longrightarrow> 0 \<le> u_credits_gpu_hours u"
  by (auto simp: db_ok_def users_ok_def dest!: lookup_row_SomeD)

lemma approve_user_ok: "db_ok d \<Longrightarrow> 0 \<le> cr \<Longrightarrow> ok_run (approve_user e ad i h cr ip ua) d"
  by (auto simp: ok_run_def approve_user_def get_user_by_id_def user_repo_get_by_id_def Let_def wp_simps
      split: option.splits sum.splits intro!: wp_audit_intro dest: flush_found_user_ok)

lemma flush_suspended_ok:
  "db_ok d \<Longrightarrow> find_user i d = Some u \<Longrightarrow> flush_user e u (u\<lparr>u_status := st\<rparr>) d = Inr d' \<Longrightarrow> db_ok d'"
  using flush_found_user_ok [of d i u e "u\<lparr>u_status := st\<rparr>" d'] credits_nonneg [of d i u] by simp

lemma suspend_user_ok: "db_ok d \<Longrightarrow> ok_run (suspend_user e ad i ip ua) d"
  by (auto simp: ok_run_def suspend_user_def get_user_by_id_def user_repo_get_by_id_def Let_def wp_simps
      split: option.splits sum.splits intro!: wp_audit_intro intro: flush_suspended_ok)

lemma list_audit_events_ok: "db_ok d \<Longrightarrow> ok_run (list_audit_events e ad t q ip f u cur n vip vua) d"
  by (auto simp: ok_run_def list_audit_events_def audit_repo_list_filtered_def wp_simps split: sum.splits
      intro!: wp_audit_intro)

lemma insert_api_key_ok: "db_ok d \<Longrightarrow> insert_api_key k d = Inr d' \<Longrightarrow> db_ok d'"
  by (auto simp: insert_api_key_def db_ok_def keys_ok_add split: if_splits)

lemma generate_key_ok: "db_ok d \<Longrightarrow> ok_run (generate_key e actor name ip ua) d"
  by (auto simp: ok_run_def generate_key_def api_key_repo_create_def Let_def wp_simps
      split: prod.splits sum.splits intro!: wp_audit_intro intro: insert_api_key_ok)

lemma put_api_key_ok:
  assumes "db_ok d" and "lookup_row k_id i (api_keys d) = Some k"
  shows "db_ok (d\<lparr>api_keys := put_row k_id (k\<lparr>k_revoked_at := r\<rparr>) (api_keys d)\<rparr>)"
proof -
  have "lookup_row k_id (k_id (k\<lparr>k_revoked_at := r\<rparr>)) (api_keys d) = Some k"
    using assms(2) by (auto dest: lookup_row_SomeD)
  from keys_ok_put [OF _ this] assms(1) show ?thesis by (auto simp: db_ok_def)
qed

lemma revoke_key_ok: "db_ok d \<Longrightarrow> ok_run (revoke_key e actor i ip ua) d"
  by (auto simp: ok_run_def revoke_key_def api_key_repo_get_by_id_def api_key_repo_revoke_def Let_def
      wp_simps put_api_key_ok split: option.splits intro!: wp_audit_intro)

lemma grant_admin_ok:
  assumes "db_ok d" shows "ok_run (grant_admin e m) d"
proof (cases "lookup_row u_email m (users d)")
  case None
  then show ?thesis using assms by (simp add: ok_run_def grant_admin_def wp_simps)
next
  case (Some u)
  let ?u = "u\<lparr>u_is_admin := True, u_status := ''active'', u_updated_at := txn_now e\<rparr>"
  have cur: "find_user (u_id u) d = Some u" using assms Some by (rule find_user_distinct)
  have "users_ok (users d)" using assms by (simp add: db_ok_def)
  then have "users_ok (put_row u_id ?u (users d))"
    by (rule users_ok_put [where u = u])
      (use cur credits_nonneg [OF assms cur] assms in
        \<open>auto simp: db_ok_def users_ok_def dest!: lookup_row_SomeD\<close>)
  with assms have "db_ok (d\<lparr>users := put_row u_id ?u (users d)\<rparr>)"
    by (simp add: db_ok_def keys_put)
  then show ?thesis using Some by (simp add: ok_run_def grant_admin_def wp_simps)
qed

section \<open>Nodes\<close>

lemma insert_claim_ok: "db_ok d \<Longrightarrow> insert_claim c d = Inr d' \<Longrightarrow> db_ok d'"
  by (auto simp: insert_claim_def db_ok_def claims_ok_add split: if_splits)

lemma create_claim_token_ok: "db_ok d \<Longrightarrow> ok_run (create_claim_token e host ip ua) d"
  by (auto simp: ok_run_def create_claim_token_def claim_repo_create_def Let_def wp_simps
      split: prod.splits sum.splits intro!: wp_audit_intro intro: insert_claim_ok)

lemma insert_node_ok:
  assumes "db_ok d" and "insert_node nd d = Inr d'" and "n_status nd = ''online''"
  shows "db_ok d'"
proof -
  have d': "d' = d\<lparr>nodes := nodes d @ [nd]\<rparr>" "n_id nd \<notin> n_id ` set (nodes d)"
    "n_user_id nd \<in> u_id ` set (users d)"
    "n_agent_token_prefix nd \<noteq> None \<Longrightarrow> n_agent_token_prefix nd \<notin> n_agent_token_prefix ` set (nodes d)"
    using assms(2) by (auto simp: insert_node_def split: if_splits)
  have "nodes_ok (u_id ` set (users d)) (nodes d @ [nd])"
    by (rule nodes_ok_add [OF _ d'(2,3)]) (use assms d'(4) in \<open>auto simp: db_ok_def\<close>)
  with assms(1) d' show ?thesis by (simp add: db_ok_def jobs_ok_nodes_add metrics_ok_insert)
qed

lemma insert_node_frame: "insert_node nd d = Inr d' \<Longrightarrow> claim_tokens d' = claim_tokens d"
  by (auto simp: insert_node_def split: if_splits)

lemma put_claim_ok:
  assumes "db_ok d" and "lookup_row c_prefix p (claim_tokens d) = Some c"
  shows "db_ok (d\<lparr>claim_tokens := put_row c_id (c\<lparr>c_consumed_at := t\<rparr>) (claim_tokens d)\<rparr>)"
proof -
  have "lookup_row c_id (c_id (c\<lparr>c_consumed_at := t\<rparr>)) (claim_tokens d) = Some c"
    using find_claim_distinct [OF assms] by simp
  from claims_ok_put [OF _ this] assms(1) show ?thesis by (auto simp: db_ok_def)
qed

lemma register_put_claim_ok:
  assumes "db_ok d" and "insert_node nd d = Inr w" and "n_status nd = ''online''"
    and "lookup_row c_prefix p (claim_tokens d) = Some c"
  shows "db_ok (w\<lparr>claim_tokens := put_row c_id (c\<lparr>c_consumed_at := t\<rparr>) (claim_tokens w)\<rparr>)"
  using put_claim_ok [OF insert_node_ok [OF assms(1-3)], of p c t] insert_node_frame [OF assms(2)]
    assms(4) by simp

lemma register_node_ok: "db_ok d \<Longrightarrow> ok_run (register_node e tok gm mem gc nm ip ua) d"
  by (auto simp: ok_run_def register_node_def claim_repo_get_by_prefix_def node_repo_create_def
      claim_repo_mark_consumed_def Let_def wp_simps
      split: option.splits prod.splits sum.splits intro!: wp_audit_intro register_put_claim_ok)

lemma put_node_ok:
  assumes "db_ok d" and "find_node (n_id nd') d = Some nd"
    and "n_agent_token_prefix nd' = n_agent_token_prefix nd" "n_user_id nd' = n_user_id nd"
      "n_gpu_count nd' = n_gpu_count nd"
    and "n_status nd' = ''online'' \<or> n_status nd' = ''draining''"
  shows "db_ok (d\<lparr>nodes := put_row n_id nd' (nodes d)\<rparr>)"
  using assms nodes_ok_put [OF _ assms(2-4,6)] jobs_ok_nodes_put [OF _ assms(2,5)]
  by (simp add: db_ok_def keys_put)

lemma node_status_cases:
  "db_ok d \<Longrightarrow> find_node i d = Some nd \<Longrightarrow> n_status nd = ''online'' \<or> n_status nd = ''draining''"
  by (auto simp: db_ok_def nodes_ok_def dest!: lookup_row_SomeD)

lemma find_node_current: "find_node i d = Some nd \<Longrightarrow> find_node (n_id nd) d = Some nd"
  by (auto dest: lookup_row_SomeD)

lemma put_last_seen_ok:
  "db_ok d \<Longrightarrow> find_node i d = Some nd \<Longrightarrow>
   db_ok (d\<lparr>nodes := put_row n_id (nd\<lparr>n_last_seen_at := t\<rparr>) (nodes d)\<rparr>)"
  using node_status_cases [of d i nd] find_node_current [of i d nd]
  by (auto intro!: put_node_ok [where nd = nd])

lemma put_status_ok:
  "db_ok d \<Longrightarrow> find_node i d = Some nd \<Longrightarrow> st = ''online'' \<or> st = ''draining'' \<Longrightarrow>
   db_ok (d\<lparr>nodes := put_row n_id (nd\<lparr>n_status := st\<rparr>) (nodes d)\<rparr>)"
  using find_node_current [of i d nd] by (auto intro!: put_node_ok [where nd = nd])

lemma record_heartbeat_ok:
  "db_ok d \<Longrightarrow> find_node (n_id nd) d = Some nd \<Longrightarrow> ok_run (record_heartbeat e nd) d"
  by (simp add: ok_run_def record_heartbeat_def node_repo_update_last_seen_def flush_node_def Let_def
      wp_simps put_last_seen_ok)

lemma upsert_metric_rows_ok:
  assumes "db_ok d" and "upsert_metric_rows i now xs d = Inr w"
  shows "db_ok w \<and> nodes w = nodes d"
  using assms
  by (auto simp: upsert_metric_rows_def Let_def db_ok_def metric_of_sample_def
      intro!: metrics_ok_fold split: if_splits)

lemma record_metrics_ok:
  assumes "db_ok d" and "find_node (n_id nd) d = Some nd"
  shows "ok_run (record_metrics e nd xs) d"
proof -
  have "db_ok (w\<lparr>nodes := put_row n_id (nd\<lparr>n_last_seen_at := t\<rparr>) (nodes w)\<rparr>)"
    if "upsert_metric_rows i now xs d = Inr w" for i now w t
    using upsert_metric_rows_ok [OF assms(1) that] assms(2) put_last_seen_ok [of w "n_id nd" nd t] by simp
  then show ?thesis using assms
    by (auto simp: ok_run_def record_metrics_def node_metric_repo_upsert_samples_def
        node_repo_update_last_seen_def flush_node_def Let_def wp_simps put_last_seen_ok split: sum.splits)
qed

lemma drain_node_ok: "db_ok d \<Longrightarrow> ok_run (drain_node e owner i ip ua actor ev) d"
  by (auto simp: ok_run_def drain_node_def get_owned_for_actor_def node_repo_get_by_id_def
      node_repo_set_status_def flush_node_def Let_def wp_simps put_status_ok
      split: option.splits intro!: wp_audit_intro)

lemma undrain_node_ok: "db_ok d \<Longrightarrow> ok_run (undrain_node e owner i ip ua) d"
  by (auto simp: ok_run_def undrain_node_def get_owned_node_def node_repo_get_by_id_def
      node_repo_set_status_def flush_node_def Let_def wp_simps put_status_ok
      split: option.splits intro!: wp_audit_intro)

lemma admin_force_drain_ok: "db_ok d \<Longrightarrow> ok_run (admin_force_drain e ad i ip ua) d"
  by (auto simp: ok_run_def admin_force_drain_def node_repo_get_by_id_def
      node_repo_set_status_def flush_node_def Let_def wp_simps put_status_ok
      split: option.splits intro!: wp_audit_intro)

lemma delete_node_row_ok:
  assumes "db_ok d" and "find (running_on i) (jobs d) = None" and "delete_node_row i d = Inr w"
  shows "db_ok w"
proof -
  have "jobs_ok (u_id ` set (users d)) (drop_row n_id i (nodes d)) (map (forget_node i) (jobs d))"
    by (rule jobs_ok_drop_node) (use assms not_running_on in \<open>auto simp: db_ok_def\<close>)
  moreover have "n_id ` set (drop_row n_id i (nodes d)) = n_id ` set (nodes d) - {i}"
    by (auto simp: drop_row_def)
  ultimately show ?thesis using assms(1,3)
    by (auto simp: delete_node_row_def db_ok_def nodes_ok_drop metrics_ok_drop image_image)
qed

lemma delete_node_ok:
  assumes "db_ok d"
  shows "ok_run (delete_node e owner i ip ua actor) d"
proof -
  have "db_ok w'" if "find (running_on k) (jobs d) = None" "insert_audit a d = Inr w"
    "delete_node_row k w = Inr w'" for k a w w'
    using that insert_audit_ok [OF assms that(2)] insert_audit_frame [OF that(2)]
    by (auto intro: delete_node_row_ok)
  then show ?thesis using assms
    by (auto simp: ok_run_def delete_node_def get_owned_for_actor_def node_repo_get_by_id_def
        job_repo_get_running_for_node_def node_repo_delete_def wp_simps
        split: option.splits sum.splits intro!: wp_audit_intro)
qed

end
