(* ===== verification/Dashboard.thy ===== *)
theory Dashboard
  imports AccountServices "HOL-Library.AList"
begin

text \<open>
  The dashboard of \<open>admin_service.py\<close> and the dictionaries of counters it and the metrics
  endpoint share: \<open>SELECT status, count(*) ... GROUP BY status\<close> read into a dictionary with
  fixed keys, and one that is incremented node by node.
\<close>

section \<open>Dictionaries of counters\<close>

text \<open>A dictionary with string keys, in insertion order.\<close>

type_synonym counts = "(string \<times> int) list"

definition zeros :: "string list \<Rightarrow> counts" where
  "zeros ks = map (\<lambda>k. (k, 0)) ks"

text \<open>The rows of a \<open>GROUP BY\<close>: one per value that occurs, with its number of rows.\<close>

definition group_counts :: "('r \<Rightarrow> string) \<Rightarrow> 'r list \<Rightarrow> counts" where
  "group_counts f rows = map (\<lambda>s. (s, int (length (filter (\<lambda>r. f r = s) rows)))) (remdups (map f rows))"

text \<open>\<open>for status, count in rows: if status in counts: counts[status] = count\<close>\<close>

definition read_groups :: "counts \<Rightarrow> counts \<Rightarrow> counts" where
  "read_groups groups m =
     fold (\<lambda>(s, c) m. if s \<in> fst ` set m then AList.update s c m else m) groups m"

text \<open>\<open>counts[compute_node_status(n, now)] += 1\<close>, a \<open>KeyError\<close> when the key is missing.\<close>

definition increment :: "string \<Rightarrow> counts \<Rightarrow> error + counts" where
  "increment k m =
     (case map_of m k of None \<Rightarrow> Inl (KeyError k) | Some c \<Rightarrow> Inr (AList.update k (c + 1) m))"

fun count_nodes :: "datetime \<Rightarrow> node list \<Rightarrow> counts \<Rightarrow> error + counts" where
  "count_nodes now [] m = Inr m"
| "count_nodes now (nd # nds) m =
     (case increment (compute_node_status nd now) m of
        Inl err \<Rightarrow> Inl err | Inr m' \<Rightarrow> count_nodes now nds m')"

definition NODE_STATUSES :: "string list" where
  "NODE_STATUSES = [''online'', ''offline'', ''draining'']"

text \<open>How many rows have a value.\<close>

definition rows_with :: "('r \<Rightarrow> 'k) \<Rightarrow> 'k \<Rightarrow> 'r list \<Rightarrow> int" where
  "rows_with f k rows = int (length (filter (\<lambda>r. f r = k) rows))"

lemma rows_with_simps [simp]:
  "rows_with f k [] = 0"
  "rows_with f k (r # rows) = (if f r = k then 1 else 0) + rows_with f k rows"
  by (simp_all add: rows_with_def)

lemma rows_with_none: "k \<notin> f ` set rows \<Longrightarrow> rows_with f k rows = 0"
  by (induction rows) auto

lemma group_counts_lookup:
  "map_of (group_counts f rows) k = (if k \<in> f ` set rows then Some (rows_with f k rows) else None)"
  by (auto simp: group_counts_def map_of_map_restrict rows_with_def comp_def)

lemma distinct_groups: "distinct (map fst (group_counts f rows))"
  by (simp add: group_counts_def comp_def)

lemma keys_update: "k \<in> fst ` set m \<Longrightarrow> map fst (AList.update k v m) = map fst m"
  by (induction m) auto

lemma read_groups_lookup:
  assumes "distinct (map fst groups)"
  shows "map_of (read_groups groups m) k =
    (if k \<in> fst ` set m then (case map_of groups k of None \<Rightarrow> map_of m k | Some c \<Rightarrow> Some c) else None) \<and>
    map fst (read_groups groups m) = map fst m"
  using assms
proof (induction groups arbitrary: m)
  case Nil
  then show ?case by (simp add: read_groups_def map_of_eq_None_iff)
next
  case (Cons g groups)
  obtain s c where g: "g = (s, c)" by (cases g)
  let ?m = "if s \<in> fst ` set m then AList.update s c m else m"
  have keys: "map fst ?m = map fst m" by (simp add: keys_update)
  then have "fst ` set ?m = fst ` set m" by (metis list.set_map)
  moreover have "map_of groups s = None" using Cons.prems by (simp add: g map_of_eq_None_iff)
  moreover have "read_groups (g # groups) m = read_groups groups ?m" by (simp add: read_groups_def g)
  ultimately show ?case using Cons.IH [of ?m] Cons.prems keys
    by (auto simp: g update_conv' split: option.splits)
qed

text \<open>So a dictionary of zeros that is read from a query holds the number of rows of each key.\<close>

lemma tally_lookup:
  "map_of (read_groups (group_counts f rows) (zeros ks)) k =
     (if k \<in> set ks then Some (rows_with f k rows) else None)"
proof -
  have "fst ` set (zeros ks) = set ks" by (force simp: zeros_def)
  moreover have "map_of (zeros ks) k = (if k \<in> set ks then Some 0 else None)"
    by (induction ks) (auto simp: zeros_def)
  ultimately show ?thesis
    using read_groups_lookup [OF distinct_groups, of f rows "zeros ks" k]
    by (auto simp: group_counts_lookup rows_with_none)
qed

lemma tally_keys: "map fst (read_groups (group_counts f rows) (zeros ks)) = ks"
  using read_groups_lookup [OF distinct_groups, of f rows "zeros ks"]
  by (simp add: zeros_def comp_def)

lemma computed_status: "compute_node_status nd now \<in> set NODE_STATUSES"
  by (simp add: compute_node_status_def NODE_STATUSES_def split: option.splits)

lemma count_nodes_lookup:
  assumes "set NODE_STATUSES \<subseteq> fst ` set m"
  shows "\<exists>m'. count_nodes now nds m = Inr m' \<and> map fst m' = map fst m \<and>
    (\<forall>k. map_of m' k = map_option (\<lambda>c. c + rows_with (\<lambda>nd. compute_node_status nd now) k nds) (map_of m k))"
  using assms
proof (induction nds arbitrary: m)
  case (Cons nd nds)
  let ?s = "compute_node_status nd now"
  have mem: "?s \<in> fst ` set m" using Cons.prems computed_status by blast
  then obtain c where c: "map_of m ?s = Some c" by (metis domD domIff map_of_eq_None_iff)
  have keys: "map fst (AList.update ?s (c + 1) m) = map fst m" using mem by (rule keys_update)
  then have "fst ` set (AList.update ?s (c + 1) m) = fst ` set m" by (metis list.set_map)
  with Cons.IH [of "AList.update ?s (c + 1) m"] Cons.prems keys c show ?case
    by (auto simp: increment_def update_conv')
qed (auto simp: option.map_ident)

section \<open>The dashboard\<close>

record user_counts =
  uc_total :: int
  uc_pending :: int
  uc_active :: int
  uc_suspended :: int

record node_counts =
  nc_online :: int
  nc_offline :: int
  nc_draining :: int

record job_counts =
  jc_queued :: int
  jc_running :: int
  jc_completed_24h :: int
  jc_failed_24h :: int
  jc_cancelled_24h :: int

record dashboard_response =
  db_users :: user_counts
  db_nodes :: node_counts
  db_jobs :: job_counts
  db_gpu_hours_served_24h :: int

definition USER_STATUSES :: "string list" where
  "USER_STATUSES = [''pending'', ''active'', ''suspended'']"

text \<open>\<open>dictionary[key]\<close> of a key that is there.\<close>

definition entry :: "counts \<Rightarrow> string \<Rightarrow> int" where
  "entry m k = (case map_of m k of None \<Rightarrow> 0 | Some c \<Rightarrow> c)"

definition finished_since :: "datetime \<Rightarrow> string \<Rightarrow> job \<Rightarrow> bool" where
  "finished_since cutoff st j \<longleftrightarrow> j_status j = st \<and>
     (case j_completed_at j of None \<Rightarrow> False | Some t \<Rightarrow> cutoff \<le> t)"

text \<open>\<open>for j in completed_jobs\<close>: a job that never ran is not billed.\<close>

definition served_hours :: "job list \<Rightarrow> int" where
  "served_hours js = fold (\<lambda>j h. case (j_started_at j, j_completed_at j) of
       (Some t0, Some t1) \<Rightarrow> h + bill_gpu_hours t0 t1 (j_gpu_count j) | _ \<Rightarrow> h) js 0"

definition dashboard :: "env \<Rightarrow> dashboard_response svc" where
  "dashboard e =
     (let now = clock e 0; cutoff = now - timedelta_hours 24 in
      bindS (query (\<lambda>d. group_counts u_status (users d))) (\<lambda>user_rows.
      let user_counts = read_groups user_rows (zeros USER_STATUSES);
          total_users = fold (\<lambda>(_, c) n. n + c) user_rows 0 in
      bindS (query nodes) (\<lambda>node_rows.
      bindS (lift_result (count_nodes now node_rows (zeros NODE_STATUSES))) (\<lambda>node_counts.
      bindS (query (\<lambda>d. group_counts j_status (jobs d))) (\<lambda>job_rows.
      let (queued, running) = fold (\<lambda>(s, c) (q, r).
             if s = ''queued'' then (c, r) else if s = ''running'' then (q, c) else (q, r)) job_rows (0, 0) in
      bindS (query (\<lambda>d. int (length (filter (finished_since cutoff ''completed'') (jobs d))))) (\<lambda>completed_24h.
      bindS (query (\<lambda>d. int (length (filter (finished_since cutoff ''failed'') (jobs d))))) (\<lambda>failed_24h.
      bindS (query (\<lambda>d. int (length (filter (finished_since cutoff ''cancelled'') (jobs d))))) (\<lambda>cancelled_24h.
      bindS (query (\<lambda>d. filter (\<lambda>j. finished_since cutoff ''completed'' j \<or>
                finished_since cutoff ''failed'' j \<or> finished_since cutoff ''cancelled'' j) (jobs d)))
        (\<lambda>completed_jobs.
      ret \<lparr>db_users = \<lparr>uc_total = total_users, uc_pending = entry user_counts ''pending'',
             uc_active = entry user_counts ''active'', uc_suspended = entry user_counts ''suspended''\<rparr>,
           db_nodes = \<lparr>nc_online = entry node_counts ''online'', nc_offline = entry node_counts ''offline'',
             nc_draining = entry node_counts ''draining''\<rparr>,
           db_jobs = \<lparr>jc_queued = queued, jc_running = running, jc_completed_24h = completed_24h,
             jc_failed_24h = failed_24h, jc_cancelled_24h = cancelled_24h\<rparr>,
           db_gpu_hours_served_24h = served_hours completed_jobs\<rparr>)))))))))"

end
