(* ===== verification/Controllers.thy ===== *)
theory Controllers
  imports Schemas Preservation Dashboard
begin

text \<open>
  \<open>app/deps.py\<close> (who is calling) and the handlers of \<open>app/controllers/\<close>: each
  resolves its caller, validates its parameters, calls one service operation and fills the
  response model. FastAPI resolves the dependencies first, so a missing or bad credential
  is answered before an invalid body.
\<close>

section \<open>Callers: \<open>deps.py\<close>\<close>

text \<open>
  What a request carries: the bearer credentials, if there are any, the client address and
  the \<open>User-Agent\<close> header.
\<close>

record http_request =
  credentials :: "string option"
  client_host :: "string option"
  user_agent_header :: "string option"

definition unauthorized :: "string \<Rightarrow> error" where
  "unauthorized detail = HTTPException 401 detail True"

definition get_current_user :: "env \<Rightarrow> http_request \<Rightarrow> user svc" where
  "get_current_user e r =
     (case credentials r of
        None \<Rightarrow> throw (unauthorized ''Not authenticated'')
      | Some token \<Rightarrow>
          if starts_with token API_KEY_PREFIX
          then bindS (authenticate_key e token) (\<lambda>found.
            case found of None \<Rightarrow> throw (unauthorized ''Invalid or revoked API key'') | Some u \<Rightarrow> ret u)
          else (case decode_token e token of
              None \<Rightarrow> throw (unauthorized ''Invalid or expired token'')
            | Some payload \<Rightarrow>
              (case json_get ''sub'' payload of
                 None \<Rightarrow> throw (unauthorized ''Invalid or expired token'')
               | Some JNull \<Rightarrow> throw (unauthorized ''Invalid token subject'')
               | Some (JStr sub) \<Rightarrow>
                   (case parse_uuid sub of
                      None \<Rightarrow> throw (unauthorized ''Invalid token subject'')
                    | Some i \<Rightarrow>
                        catch (get_user_by_id i) (\<lambda>err. case err of
                            UserNotFound _ \<Rightarrow> throw (unauthorized ''User no longer exists'')
                          | _ \<Rightarrow> throw err))
               | Some _ \<Rightarrow> throw AttributeError)))"

definition require_admin :: "env \<Rightarrow> http_request \<Rightarrow> user svc" where
  "require_admin e r =
     bindS (get_current_user e r) (\<lambda>u.
       if \<not> u_is_admin u then throw (HTTPException 403 ''Admin privileges required'' False) else ret u)"

definition get_current_node :: "env \<Rightarrow> http_request \<Rightarrow> node svc" where
  "get_current_node e r =
     (case credentials r of
        None \<Rightarrow> throw (unauthorized ''Not authenticated'')
      | Some token \<Rightarrow>
          bindS (authenticate_agent e token) (\<lambda>found.
          case found of None \<Rightarrow> throw (unauthorized ''Invalid agent token'') | Some nd \<Rightarrow> ret nd))"

text \<open>A body or query that fails its model.\<close>

definition validated :: "bool \<Rightarrow> 'a svc \<Rightarrow> 'a svc" where
  "validated ok m = (if ok then m else throw RequestValidationError)"

definition validated_email :: "env \<Rightarrow> string \<Rightarrow> (string \<Rightarrow> 'a svc) \<Rightarrow> 'a svc" where
  "validated_email e email f =
     (case validate_email e email of None \<Rightarrow> throw RequestValidationError | Some m \<Rightarrow> f m)"

text \<open>\<open>except InvalidCursorError: raise InvalidPaginationCursor()\<close>\<close>

definition catch_cursor :: "'a svc \<Rightarrow> 'a svc" where
  "catch_cursor m =
     catch m (\<lambda>err. case err of InvalidCursorError \<Rightarrow> throw InvalidPaginationCursor | _ \<Rightarrow> throw err)"

section \<open>Accounts: \<open>auth.py\<close>, \<open>users.py\<close>, \<open>api_keys.py\<close>\<close>

definition h_signup :: "env \<Rightarrow> http_request \<Rightarrow> string \<Rightarrow> string \<Rightarrow> user_response svc" where
  "h_signup e r email password =
     validated_email e email (\<lambda>m. validated (signup_password_ok password)
       (bindS (signup e m password (client_host r) (user_agent_header r)) (\<lambda>u. ret (user_view u))))"

definition h_login :: "env \<Rightarrow> http_request \<Rightarrow> string \<Rightarrow> string \<Rightarrow> token_response svc" where
  "h_login e r email password =
     validated_email e email (\<lambda>m. validated (login_password_ok password)
       (bindS (login e m password (client_host r) (user_agent_header r)) (\<lambda>token.
          ret \<lparr>tr_access_token = token, tr_token_type = ''bearer'',
               tr_expires_in_seconds = jwt_expire_days (config e) * 86400\<rparr>)))"

definition h_me :: "env \<Rightarrow> http_request \<Rightarrow> user_response svc" where
  "h_me e r = bindS (get_current_user e r) (\<lambda>u. ret (user_view u))"

definition h_generate_key :: "env \<Rightarrow> http_request \<Rightarrow> string \<Rightarrow> api_key_generated svc" where
  "h_generate_key e r name =
     bindS (get_current_user e r) (\<lambda>u. validated (generate_key_request_ok name)
       (bindS (generate_key e u name (client_host r) (user_agent_header r)) (\<lambda>(k, plaintext).
          ret \<lparr>kg_id = k_id k, kg_name = k_name k, kg_prefix = k_prefix k, kg_full_key = plaintext,
               kg_created_at = k_created_at k\<rparr>)))"

definition h_list_keys :: "env \<Rightarrow> http_request \<Rightarrow> api_key_public list svc" where
  "h_list_keys e r =
     bindS (get_current_user e r) (\<lambda>u. bindS (list_keys_for u) (\<lambda>ks. ret (map api_key_view ks)))"

definition h_revoke_key :: "env \<Rightarrow> http_request \<Rightarrow> uuid \<Rightarrow> api_key_public svc" where
  "h_revoke_key e r api_key_id =
     bindS (get_current_user e r) (\<lambda>u.
     bindS (revoke_key e u api_key_id (client_host r) (user_agent_header r)) (\<lambda>k. ret (api_key_view k)))"

section \<open>Jobs: \<open>jobs.py\<close>\<close>

definition h_submit_job :: "env \<Rightarrow> http_request \<Rightarrow> submit_request \<Rightarrow> job_public svc" where
  "h_submit_job e r p =
     bindS (get_current_user e r) (\<lambda>u. validated (submit_request_ok p)
       (bindS (submit e u (r_docker_image p) (r_command p) (r_gpu_count p) (r_max_duration_seconds p)
          (r_preferred_node_id p) (client_host r) (user_agent_header r)) (\<lambda>j. ret (job_view j))))"

definition h_list_jobs ::
  "env \<Rightarrow> http_request \<Rightarrow> string option \<Rightarrow> string option \<Rightarrow> int \<Rightarrow>
   (job_public list \<times> string option) svc" where
  "h_list_jobs e r status cursor n =
     bindS (get_current_user e r) (\<lambda>u. validated (page_limit_ok n)
       (bindS (catch_cursor (list_jobs_for_user e u status cursor n)) (\<lambda>(js, next).
          ret (map job_view js, next))))"

text \<open>\<open>None\<close> is the 204 response.\<close>

definition h_claim_job :: "env \<Rightarrow> http_request \<Rightarrow> job_assignment option svc" where
  "h_claim_job e r =
     bindS (get_current_node e r) (\<lambda>nd.
     bindS (claim_for_node e nd) (\<lambda>job. ret (map_option job_assignment_of job)))"

definition h_get_job :: "env \<Rightarrow> http_request \<Rightarrow> uuid \<Rightarrow> job_public svc" where
  "h_get_job e r job_id =
     bindS (get_current_user e r) (\<lambda>u. bindS (get_job_for_user u job_id) (\<lambda>j. ret (job_view j)))"

definition h_cancel_job :: "env \<Rightarrow> http_request \<Rightarrow> uuid \<Rightarrow> job_public svc" where
  "h_cancel_job e r job_id =
     bindS (get_current_user e r) (\<lambda>u.
     bindS (cancel_job e u job_id (client_host r) (user_agent_header r)) (\<lambda>j. ret (job_view j)))"

definition h_complete_job ::
  "env \<Rightarrow> http_request \<Rightarrow> uuid \<Rightarrow> int \<Rightarrow> string option \<Rightarrow> job_public svc" where
  "h_complete_job e r job_id exit_code error_message =
     bindS (get_current_node e r) (\<lambda>nd. validated (complete_request_ok exit_code error_message)
       (bindS (complete_job e nd job_id exit_code error_message) (\<lambda>j. ret (job_view j))))"

definition h_push_logs :: "env \<Rightarrow> http_request \<Rightarrow> uuid \<Rightarrow> log_entry list \<Rightarrow> unit svc" where
  "h_push_logs e r job_id entries =
     bindS (get_current_node e r) (\<lambda>nd. validated (list_all log_entry_ok entries)
       (if entries = [] then ret ()
        else bindS (append_logs e nd job_id entries) (\<lambda>_. ret ())))"

definition h_get_logs :: "env \<Rightarrow> http_request \<Rightarrow> uuid \<Rightarrow> int \<Rightarrow> int \<Rightarrow> log_entry_out list svc" where
  "h_get_logs e r job_id after_sequence n =
     bindS (get_current_user e r) (\<lambda>u. validated (log_query_ok after_sequence n)
       (bindS (get_logs_for_user u job_id after_sequence n) (\<lambda>rows. ret (map log_view rows))))"

section \<open>Nodes: \<open>nodes.py\<close>\<close>

definition public_view :: "node \<Rightarrow> string \<Rightarrow> node_public" where
  "public_view nd computed_status = \<lparr>np_id = n_id nd, np_name = n_name nd,
     np_gpu_model = n_gpu_model nd, np_gpu_memory_gb = n_gpu_memory_gb nd,
     np_gpu_count = n_gpu_count nd, np_status = computed_status,
     np_last_seen_at = n_last_seen_at nd, np_created_at = n_created_at nd\<rparr>"

definition node_detail_of :: "node \<Rightarrow> datetime \<Rightarrow> job option \<Rightarrow> node_detail" where
  "node_detail_of nd now current =
     node_public.extend (public_view nd (compute_node_status nd now))
       (node_detail.fields (map_option j_id current))"

definition h_create_claim_token :: "env \<Rightarrow> http_request \<Rightarrow> claim_token_response svc" where
  "h_create_claim_token e r =
     bindS (get_current_user e r) (\<lambda>u.
     bindS (create_claim_token e u (client_host r) (user_agent_header r)) (\<lambda>(claim, plaintext, cmd).
       ret \<lparr>cr_token = plaintext, cr_prefix = c_prefix claim, cr_install_command = cmd,
            cr_expires_at = c_expires_at claim\<rparr>))"

definition h_register_node :: "env \<Rightarrow> http_request \<Rightarrow> register_request \<Rightarrow> register_response svc" where
  "h_register_node e r p =
     validated (register_request_ok p)
       (bindS (register_node e (g_claim_token p) (g_gpu_model p) (g_gpu_memory_gb p) (g_gpu_count p)
          (g_suggested_name p) (client_host r) (user_agent_header r)) (\<lambda>(nd, agent_token).
        ret \<lparr>rr_node_id = n_id nd, rr_agent_token = agent_token,
             rr_config_payload = [(''control_plane_url'', control_plane_public_url (config e)),
               (''node_id'', str_uuid (n_id nd)), (''agent_token'', agent_token)]\<rparr>))"

definition h_list_nodes :: "env \<Rightarrow> http_request \<Rightarrow> node_public list svc" where
  "h_list_nodes e r =
     bindS (get_current_user e r) (\<lambda>u. bindS (list_nodes_for_user u) (\<lambda>nds.
       ret (map (\<lambda>nd. public_view nd (compute_node_status nd (clock e 0))) nds)))"

definition h_get_node :: "env \<Rightarrow> http_request \<Rightarrow> uuid \<Rightarrow> node_detail svc" where
  "h_get_node e r node_id =
     bindS (get_current_user e r) (\<lambda>u. bindS (get_owned_node u node_id) (\<lambda>nd.
     bindS (get_current_job nd) (\<lambda>current. ret (node_detail_of nd (clock e 0) current))))"

text \<open>An agent may only act for the node its token belongs to.\<close>

definition same_node :: "node \<Rightarrow> uuid \<Rightarrow> 'a svc \<Rightarrow> 'a svc" where
  "same_node nd node_id m =
     (if n_id nd \<noteq> node_id then throw (HTTPException 403 ''Agent token does not match node'' False) else m)"

definition h_heartbeat :: "env \<Rightarrow> http_request \<Rightarrow> uuid \<Rightarrow> heartbeat_response svc" where
  "h_heartbeat e r node_id =
     bindS (get_current_node e r) (\<lambda>nd. same_node nd node_id
       (thenS (record_heartbeat e nd)
       (bindS (get_current_job nd) (\<lambda>current.
          ret \<lparr>hr_received_at = clock e 1,
               hr_cancel_job_id = (case current of None \<Rightarrow> None
                 | Some j \<Rightarrow> if j_cancel_requested_at j \<noteq> None then Some (j_id j) else None)\<rparr>))))"

definition h_drain_node :: "env \<Rightarrow> http_request \<Rightarrow> uuid \<Rightarrow> node_detail svc" where
  "h_drain_node e r node_id =
     bindS (get_current_user e r) (\<lambda>u.
     bindS (drain_node e u node_id (client_host r) (user_agent_header r) None ''node.drained'') (\<lambda>nd.
     bindS (get_current_job nd) (\<lambda>current. ret (node_detail_of nd (clock e 0) current))))"

definition h_undrain_node :: "env \<Rightarrow> http_request \<Rightarrow> uuid \<Rightarrow> node_detail svc" where
  "h_undrain_node e r node_id =
     bindS (get_current_user e r) (\<lambda>u.
     bindS (undrain_node e u node_id (client_host r) (user_agent_header r)) (\<lambda>nd.
     bindS (get_current_job nd) (\<lambda>current. ret (node_detail_of nd (clock e 0) current))))"

definition h_delete_node :: "env \<Rightarrow> http_request \<Rightarrow> uuid \<Rightarrow> unit svc" where
  "h_delete_node e r node_id =
     bindS (get_current_user e r) (\<lambda>u.
     bindS (delete_node e u node_id (client_host r) (user_agent_header r) None) (\<lambda>_. ret ()))"

definition h_push_metrics :: "env \<Rightarrow> http_request \<Rightarrow> uuid \<Rightarrow> metric_sample list \<Rightarrow> unit svc" where
  "h_push_metrics e r node_id samples =
     bindS (get_current_node e r) (\<lambda>nd. validated (list_all metric_sample_ok samples)
       (same_node nd node_id (record_metrics e nd samples)))"

section \<open>Administration: \<open>admin.py\<close>\<close>

definition h_list_users ::
  "env \<Rightarrow> http_request \<Rightarrow> string option \<Rightarrow> string option \<Rightarrow> string option \<Rightarrow> int \<Rightarrow>
   (user_response list \<times> string option) svc" where
  "h_list_users e r status email cursor n =
     bindS (require_admin e r) (\<lambda>_. validated (page_limit_ok n)
       (bindS (catch_cursor (list_users e status email cursor n)) (\<lambda>(us, next).
          ret (map user_view us, next))))"

definition h_get_user_detail ::
  "env \<Rightarrow> http_request \<Rightarrow> uuid \<Rightarrow> (user_response \<times> string option) svc" where
  "h_get_user_detail e r user_id =
     bindS (require_admin e r) (\<lambda>_. bindS (get_user_detail user_id) (\<lambda>(u, signup_ip).
       ret (user_view u, signup_ip)))"

definition h_approve_user ::
  "env \<Rightarrow> http_request \<Rightarrow> uuid \<Rightarrow> bool \<Rightarrow> int \<Rightarrow> (string \<times> user_response) svc" where
  "h_approve_user e r user_id can_host credits_gpu_hours =
     bindS (require_admin e r) (\<lambda>admin. validated (approve_request_ok credits_gpu_hours)
       (bindS (approve_user e admin user_id can_host credits_gpu_hours (client_host r) (user_agent_header r))
         (\<lambda>u. ret (''User approved'', user_view u))))"

definition h_suspend_user :: "env \<Rightarrow> http_request \<Rightarrow> uuid \<Rightarrow> (string \<times> user_response) svc" where
  "h_suspend_user e r user_id =
     bindS (require_admin e r) (\<lambda>admin.
     bindS (suspend_user e admin user_id (client_host r) (user_agent_header r)) (\<lambda>u.
       ret (''User suspended'', user_view u)))"

definition audit_event_to_schema :: "audit_log \<Rightarrow> string option \<Rightarrow> audit_event" where
  "audit_event_to_schema a email = \<lparr>ae_id = a_id a, ae_event_type = a_event_type a,
     ae_user_id = a_user_id a, ae_user_email = email, ae_ip_address = a_ip_address a,
     ae_created_at = a_created_at a\<rparr>"

definition h_list_audit_events ::
  "env \<Rightarrow> http_request \<Rightarrow> string option \<Rightarrow> string option \<Rightarrow> string option \<Rightarrow> datetime option \<Rightarrow>
   datetime option \<Rightarrow> string option \<Rightarrow> int \<Rightarrow> (audit_event list \<times> string option) svc" where
  "h_list_audit_events e r event_type user_email ip created_from created_to cursor n =
     bindS (require_admin e r) (\<lambda>admin. validated (page_limit_ok n)
       (bindS (catch_cursor (list_audit_events e admin event_type user_email ip created_from created_to
          cursor n (client_host r) (user_agent_header r))) (\<lambda>(rows, next).
        ret (map (\<lambda>(a, email). audit_event_to_schema a email) rows, next))))"

definition h_dashboard :: "env \<Rightarrow> http_request \<Rightarrow> dashboard_response svc" where
  "h_dashboard e r = bindS (require_admin e r) (\<lambda>_. dashboard e)"

definition h_get_audit_event :: "env \<Rightarrow> http_request \<Rightarrow> uuid \<Rightarrow> audit_event_detail svc" where
  "h_get_audit_event e r event_id =
     bindS (require_admin e r) (\<lambda>_. bindS (get_audit_event event_id) (\<lambda>(a, email).
       ret (audit_event.extend (audit_event_to_schema a email)
              (audit_event_detail.fields (a_user_agent a) (a_event_data a)))))"

definition h_force_kill_job :: "env \<Rightarrow> http_request \<Rightarrow> uuid \<Rightarrow> job_public svc" where
  "h_force_kill_job e r job_id =
     bindS (require_admin e r) (\<lambda>admin.
     bindS (admin_force_kill e admin job_id (client_host r) (user_agent_header r)) (\<lambda>j.
       ret (job_view j)))"

definition h_force_drain_node :: "env \<Rightarrow> http_request \<Rightarrow> uuid \<Rightarrow> node_detail svc" where
  "h_force_drain_node e r node_id =
     bindS (require_admin e r) (\<lambda>admin.
     bindS (admin_force_drain e admin node_id (client_host r) (user_agent_header r)) (\<lambda>nd.
     bindS (get_current_job nd) (\<lambda>current. ret (node_detail_of nd (clock e 0) current))))"

end
