(* ===== verification/System.thy ===== *)
theory System
  imports Controllers
begin

text \<open>
  The control plane as a state machine over the committed database: an action is an HTTP
  request to one of the API's endpoints, with its environment, or a run of the command
  line tool. The reachable databases are those that some sequence of actions leads to, and
  all of them satisfy the integrity invariant.
\<close>

section \<open>Endpoints\<close>

datatype request =
    PostSignup string string
  | PostLogin string string
  | GetMe
  | PostKey string
  | GetKeys
  | DeleteKey uuid
  | PostJob submit_request
  | GetJobs "string option" "string option" int
  | PostClaim
  | GetJob uuid
  | PostCancel uuid
  | PostComplete uuid int "string option"
  | PostLogs uuid "log_entry list"
  | GetLogs uuid int int
  | PostClaimToken
  | PostRegister register_request
  | GetNodes
  | GetNode uuid
  | PostHeartbeat uuid
  | PostDrain uuid
  | PostUndrain uuid
  | DeleteNode uuid
  | PostMetrics uuid "metric_sample list"
  | GetUsers "string option" "string option" "string option" int
  | GetUser uuid
  | PostApprove uuid bool int
  | PostSuspend uuid
  | GetAudit "string option" "string option" "string option" "datetime option" "datetime option"
      "string option" int
  | GetAuditEvent uuid
  | PostForceKill uuid
  | PostForceDrain uuid
  | GetDashboard

datatype response =
    NoContent
  | RUser user_response
  | RToken token_response
  | RKey api_key_generated
  | RKeys "api_key_public list"
  | RKeyPublic api_key_public
  | RJob job_public
  | RJobs "job_public list" "string option"
  | RAssignment job_assignment
  | RLogs "log_entry_out list"
  | RClaimToken claim_token_response
  | RRegistered register_response
  | RNodes "node_public list"
  | RNode node_detail
  | RHeartbeat heartbeat_response
  | RUsers "user_response list" "string option"
  | RUserDetail user_response "string option"
  | RAdminAction string user_response
  | RAudit "audit_event list" "string option"
  | RAuditEvent audit_event_detail
  | RDashboard dashboard_response

definition respond :: "('a \<Rightarrow> response) \<Rightarrow> 'a svc \<Rightarrow> response svc" where
  "respond f m = bindS m (\<lambda>x. ret (f x))"

fun handle :: "env \<Rightarrow> http_request \<Rightarrow> request \<Rightarrow> response svc" where
  "handle e r (PostSignup email pw) = respond RUser (h_signup e r email pw)"
| "handle e r (PostLogin email pw) = respond RToken (h_login e r email pw)"
| "handle e r GetMe = respond RUser (h_me e r)"
| "handle e r (PostKey name) = respond RKey (h_generate_key e r name)"
| "handle e r GetKeys = respond RKeys (h_list_keys e r)"
| "handle e r (DeleteKey i) = respond RKeyPublic (h_revoke_key e r i)"
| "handle e r (PostJob p) = respond RJob (h_submit_job e r p)"
| "handle e r (GetJobs st cur n) = respond (\<lambda>(js, c). RJobs js c) (h_list_jobs e r st cur n)"
| "handle e r PostClaim =
     respond (\<lambda>a. case a of None \<Rightarrow> NoContent | Some x \<Rightarrow> RAssignment x) (h_claim_job e r)"
| "handle e r (GetJob i) = respond RJob (h_get_job e r i)"
| "handle e r (PostCancel i) = respond RJob (h_cancel_job e r i)"
| "handle e r (PostComplete i code msg) = respond RJob (h_complete_job e r i code msg)"
| "handle e r (PostLogs i xs) = respond (\<lambda>_. NoContent) (h_push_logs e r i xs)"
| "handle e r (GetLogs i sq n) = respond RLogs (h_get_logs e r i sq n)"
| "handle e r PostClaimToken = respond RClaimToken (h_create_claim_token e r)"
| "handle e r (PostRegister p) = respond RRegistered (h_register_node e r p)"
| "handle e r GetNodes = respond RNodes (h_list_nodes e r)"
| "handle e r (GetNode i) = respond RNode (h_get_node e r i)"
| "handle e r (PostHeartbeat i) = respond RHeartbeat (h_heartbeat e r i)"
| "handle e r (PostDrain i) = respond RNode (h_drain_node e r i)"
| "handle e r (PostUndrain i) = respond RNode (h_undrain_node e r i)"
| "handle e r (DeleteNode i) = respond (\<lambda>_. NoContent) (h_delete_node e r i)"
| "handle e r (PostMetrics i xs) = respond (\<lambda>_. NoContent) (h_push_metrics e r i xs)"
| "handle e r (GetUsers st q cur n) = respond (\<lambda>(us, c). RUsers us c) (h_list_users e r st q cur n)"
| "handle e r (GetUser i) = respond (\<lambda>(u, ip). RUserDetail u ip) (h_get_user_detail e r i)"
| "handle e r (PostApprove i host credits) =
     respond (\<lambda>(m, u). RAdminAction m u) (h_approve_user e r i host credits)"
| "handle e r (PostSuspend i) = respond (\<lambda>(m, u). RAdminAction m u) (h_suspend_user e r i)"
| "handle e r (GetAudit t q ip lo hi cur n) =
     respond (\<lambda>(as, c). RAudit as c) (h_list_audit_events e r t q ip lo hi cur n)"
| "handle e r (GetAuditEvent i) = respond RAuditEvent (h_get_audit_event e r i)"
| "handle e r (PostForceKill i) = respond RJob (h_force_kill_job e r i)"
| "handle e r (PostForceDrain i) = respond RNode (h_force_drain_node e r i)"
| "handle e r GetDashboard = respond RDashboard (h_dashboard e r)"

text \<open>The status code of a successful answer.\<close>

definition created :: "request \<Rightarrow> bool" where
  "created q = (case q of PostSignup _ _ \<Rightarrow> True | PostKey _ \<Rightarrow> True | PostJob _ \<Rightarrow> True
     | PostClaimToken \<Rightarrow> True | PostRegister _ \<Rightarrow> True | _ \<Rightarrow> False)"

definition success_status :: "request \<Rightarrow> response \<Rightarrow> int" where
  "success_status q x =
     (if created q then 201 else case x of NoContent \<Rightarrow> 204 | _ \<Rightarrow> 200)"

definition serve :: "env \<Rightarrow> http_request \<Rightarrow> request \<Rightarrow> db \<Rightarrow> (error + response) \<times> db" where
  "serve e r q d = run_svc (handle e r q) d"

definition http_status :: "request \<Rightarrow> error + response \<Rightarrow> int" where
  "http_status q x =
     (case x of Inl err \<Rightarrow> status_code (error_response err) | Inr resp \<Rightarrow> success_status q resp)"

section \<open>Actions and reachable databases\<close>

datatype action =
    Http env http_request request
  | GrantAdmin env string

fun execute :: "action \<Rightarrow> db \<Rightarrow> db" where
  "execute (Http e r q) d = snd (serve e r q d)"
| "execute (GrantAdmin e email) d = snd (run_svc (grant_admin e email) d)"

inductive reachable :: "db \<Rightarrow> bool" where
  reachable_init: "reachable empty_db"
| reachable_step: "reachable d \<Longrightarrow> reachable (execute a d)"

section \<open>Methods that only read\<close>

definition reads :: "'a svc \<Rightarrow> bool" where
  "reads m \<longleftrightarrow> (\<forall>s. snd (m s) = s)"

named_theorems reads_intros "methods that only read"

lemma reads_ret [reads_intros]: "reads (ret x)"
  and reads_throw [reads_intros]: "reads (throw err)"
  and reads_query [reads_intros]: "reads (query f)"
  and reads_lift_result [reads_intros]: "reads (lift_result y)"
  by (simp_all add: reads_def ret_def throw_def query_def lift_result_def)

lemma reads_bindS [reads_intros]: "reads m \<Longrightarrow> (\<And>x. reads (f x)) \<Longrightarrow> reads (bindS m f)"
  by (auto simp: reads_def bindS_def split: prod.splits sum.splits) (metis snd_conv)+

lemma reads_catch [reads_intros]: "reads m \<Longrightarrow> (\<And>x. reads (h x)) \<Longrightarrow> reads (catch m h)"
  by (auto simp: reads_def catch_def split: prod.splits sum.splits) (metis snd_conv)+

lemma reads_prod [reads_intros]: "(\<And>a b. reads (f a b)) \<Longrightarrow> reads (case x of (a, b) \<Rightarrow> f a b)"
  by (cases x) simp

lemma reads_wp: "reads m \<Longrightarrow> (\<And>x. fst (m s) = x \<Longrightarrow> Q x s) \<Longrightarrow> wp m Q s"
  by (auto simp: reads_def wp_def split: prod.splits) (metis snd_conv)

text \<open>
  \<open>after R m d\<close>: one request that runs \<open>m\<close> takes the committed database \<open>d\<close> to one
  that \<open>R\<close> relates to it.
\<close>

definition after :: "(db \<Rightarrow> db \<Rightarrow> bool) \<Rightarrow> 'a svc \<Rightarrow> db \<Rightarrow> bool" where
  "after R m d \<longleftrightarrow> wp m (\<lambda>_ s. R d (committed s)) (begin_session d)"

lemma after_run: "after R m d \<Longrightarrow> R d (snd (run_svc m d))"
  by (auto simp: after_def wp_def run_svc_def split: prod.splits)

lemma after_ok_run: "after (\<lambda>_. db_ok) m d \<longleftrightarrow> ok_run m d"
  by (simp add: after_def ok_run_def)

lemma after_keeps: "keeps (R d) m \<Longrightarrow> R d d \<Longrightarrow> after R m d"
proof -
  assume "keeps (R d) m" and "R d d"
  then have "wp m (\<lambda>_ s. R d (committed s) \<and> R d (working s)) (begin_session d)"
    by (simp add: keeps_def)
  then show ?thesis unfolding after_def by (rule wp_mono) simp
qed

lemma after_reads: "reads m \<Longrightarrow> R d d \<Longrightarrow> after R m d"
  unfolding after_def by (rule reads_wp) auto

lemma after_read_then:
  assumes "reads m" and "R d d" and "\<And>x. fst (m (begin_session d)) = Inr x \<Longrightarrow> after R (f x) d"
  shows "after R (bindS m f) d"
  unfolding after_def wp_bindS
  using assms(1)
  by (rule reads_wp) (use assms(2,3) in \<open>auto simp: after_def split: sum.splits\<close>)

lemma after_then_read:
  assumes "after R m d" and "\<And>x. reads (f x)"
  shows "after R (bindS m f) d"
  unfolding after_def wp_bindS
  by (rule wp_mono [OF assms(1) [unfolded after_def]])
    (auto split: sum.splits intro!: reads_wp [OF assms(2)])

lemma after_thenS_read: "after R m d \<Longrightarrow> reads k \<Longrightarrow> after R (thenS m k) d"
  by (simp add: thenS_def after_then_read)

lemma after_validated: "R d d \<Longrightarrow> (ok \<Longrightarrow> after R m d) \<Longrightarrow> after R (validated ok m) d"
  by (simp add: validated_def after_reads reads_throw)

lemma after_catch_cursor: "after R m d \<Longrightarrow> after R (catch_cursor m) d"
  unfolding after_def catch_cursor_def wp_catch
  by (erule wp_mono) (auto simp: wp_simps split: sum.splits error.splits)

lemma after_respond: "after R m d \<Longrightarrow> after R (respond f m) d"
  unfolding respond_def by (rule after_then_read) (auto intro: reads_intros)

lemma reads_catch_cursor [reads_intros]: "reads m \<Longrightarrow> reads (catch_cursor m)"
  unfolding catch_cursor_def by (auto intro!: reads_intros split: error.splits)

lemma reads_validated [reads_intros]: "reads m \<Longrightarrow> reads (validated ok m)"
  by (simp add: validated_def reads_throw)

lemma reads_respond [reads_intros]: "reads m \<Longrightarrow> reads (respond f m)"
  unfolding respond_def by (intro reads_intros)

section \<open>Callers are read from the database\<close>

lemma reads_authenticate_key [reads_intros]: "reads (authenticate_key e token)"
  unfolding authenticate_key_def api_key_repo_get_by_prefix_def user_repo_get_by_id_def
  by (auto intro!: reads_intros split: option.splits)

lemma reads_get_user_by_id [reads_intros]: "reads (get_user_by_id i)"
  unfolding get_user_by_id_def user_repo_get_by_id_def
  by (auto intro!: reads_intros split: option.splits)

lemma reads_current_user [reads_intros]: "reads (get_current_user e r)"
  unfolding get_current_user_def
  by (auto intro!: reads_intros split: option.splits json.splits error.splits)

lemma reads_require_admin [reads_intros]: "reads (require_admin e r)"
  unfolding require_admin_def by (auto intro!: reads_intros)

lemma reads_authenticate_agent [reads_intros]: "reads (authenticate_agent e token)"
  unfolding authenticate_agent_def node_repo_get_by_agent_prefix_def
  by (auto intro!: reads_intros split: option.splits)

lemma reads_current_node [reads_intros]: "reads (get_current_node e r)"
  unfolding get_current_node_def by (auto intro!: reads_intros split: option.splits)

lemma reads_services [reads_intros]:
  "reads (list_keys_for u)" "reads (get_job_for_user u i)" "reads (get_logs_for_user u i sq n)"
  "reads (list_nodes_for_user u)" "reads (get_owned_node u i)" "reads (get_current_job nd)"
  "reads (get_user_detail i)" "reads (get_audit_event i)"
  "reads (list_jobs_for_user e u st cur n)" "reads (list_users e st q cur n)" "reads (dashboard e)"
  unfolding list_keys_for_def api_key_repo_list_for_user_def get_job_for_user_def
    job_repo_get_by_id_def get_logs_for_user_def job_log_repo_list_after_def list_nodes_for_user_def
    node_repo_list_for_user_def get_owned_node_def node_repo_get_by_id_def get_current_job_def
    job_repo_get_running_for_node_def get_user_detail_def user_repo_get_by_id_def
    audit_repo_get_signup_ip_def get_audit_event_def audit_repo_get_with_email_def
    list_jobs_for_user_def job_repo_list_for_user_def list_users_def user_repo_list_filtered_def
    dashboard_def Let_def
  by (auto intro!: reads_intros split: option.splits)

text \<open>The node a request authenticates as is the current row of that node.\<close>

lemma current_node_row:
  assumes "db_ok d" and "fst (get_current_node e r (begin_session d)) = Inr nd"
  shows "find_node (n_id nd) d = Some nd"
proof -
  have "nd \<in> set (nodes d)"
    using assms(2)
    by (auto simp: get_current_node_def authenticate_agent_def node_repo_get_by_agent_prefix_def
        throw_def ret_def bindS_def query_def split: option.splits prod.splits sum.splits if_splits
        dest!: lookup_row_SomeD)
  moreover have "distinct (map n_id (nodes d))" using assms(1) by (simp add: db_ok_def nodes_ok_def)
  ultimately show ?thesis by (rule lookup_row_distinct [rotated])
qed

text \<open>The endpoints that only read.\<close>

lemma reads_handlers [reads_intros]:
  "reads (h_me e r)" "reads (h_list_keys e r)" "reads (h_list_jobs e r st cur n)"
  "reads (h_get_job e r i)" "reads (h_get_logs e r i sq n)" "reads (h_list_nodes e r)"
  "reads (h_get_node e r i)" "reads (h_list_users e r st q cur n)" "reads (h_get_user_detail e r i)"
  "reads (h_get_audit_event e r i)" "reads (h_dashboard e r)"
  unfolding h_me_def h_list_keys_def h_list_jobs_def h_get_job_def h_get_logs_def h_list_nodes_def
    h_get_node_def h_list_users_def h_get_user_detail_def h_get_audit_event_def
    h_dashboard_def
  by (intro reads_intros)+

section \<open>What one action does, from what the services do\<close>

text \<open>
  A relation between the committed database before and after a request holds for every
  action when it is reflexive and every service operation that writes establishes it, run as
  a request with the arguments the handlers give it. The contract comes in parts, because
  some relations hold for every operation but the one with which an administrator sets
  credits, some for every operation but the one of the command line, and some for every
  operation but the report that ends a job.
\<close>

locale quiet_contract =
  fixes R :: "db \<Rightarrow> db \<Rightarrow> bool"
  assumes base: "db_ok d \<Longrightarrow> R d d"
    and signup: "db_ok d \<Longrightarrow> after R (signup e m pw ip ua) d"
    and login: "db_ok d \<Longrightarrow> after R (login e m pw ip ua) d"
    and generate_key: "db_ok d \<Longrightarrow> after R (generate_key e u name ip ua) d"
    and revoke_key: "db_ok d \<Longrightarrow> after R (revoke_key e u i ip ua) d"
    and submit: "db_ok d \<Longrightarrow> submit_request_ok p \<Longrightarrow>
      after R (submit e u (r_docker_image p) (r_command p) (r_gpu_count p) (r_max_duration_seconds p)
        (r_preferred_node_id p) ip ua) d"
    and claim_for_node: "db_ok d \<Longrightarrow> find_node (n_id nd) d = Some nd \<Longrightarrow> after R (claim_for_node e nd) d"
    and cancel_job: "db_ok d \<Longrightarrow> after R (cancel_job e u i ip ua) d"
    and admin_force_kill: "db_ok d \<Longrightarrow> after R (admin_force_kill e u i ip ua) d"
    and append_logs: "db_ok d \<Longrightarrow> after R (append_logs e nd i xs) d"
    and create_claim_token: "db_ok d \<Longrightarrow> after R (create_claim_token e u ip ua) d"
    and register_node: "db_ok d \<Longrightarrow> after R (register_node e tok gm mem gc nm ip ua) d"
    and record_heartbeat: "db_ok d \<Longrightarrow> find_node (n_id nd) d = Some nd \<Longrightarrow> after R (record_heartbeat e nd) d"
    and record_metrics: "db_ok d \<Longrightarrow> find_node (n_id nd) d = Some nd \<Longrightarrow> after R (record_metrics e nd ss) d"
    and drain_node: "db_ok d \<Longrightarrow> after R (drain_node e u i ip ua actor ev) d"
    and undrain_node: "db_ok d \<Longrightarrow> after R (undrain_node e u i ip ua) d"
    and admin_force_drain: "db_ok d \<Longrightarrow> after R (admin_force_drain e u i ip ua) d"
    and delete_node: "db_ok d \<Longrightarrow> after R (delete_node e u i ip ua actor) d"
    and suspend_user: "db_ok d \<Longrightarrow> after R (suspend_user e u i ip ua) d"
    and list_audit_events: "db_ok d \<Longrightarrow> after R (list_audit_events e u t q ip' lo hi cur n ip ua) d"
begin

lemma with_user:
  "db_ok d \<Longrightarrow> (\<And>u. after R (f u) d) \<Longrightarrow> after R (bindS (get_current_user e r) f) d"
  by (rule after_read_then) (auto intro: reads_intros base)

lemma with_admin:
  "db_ok d \<Longrightarrow> (\<And>u. after R (f u) d) \<Longrightarrow> after R (bindS (require_admin e r) f) d"
  by (rule after_read_then) (auto intro: reads_intros base)

lemma with_node:
  "db_ok d \<Longrightarrow> (\<And>nd. find_node (n_id nd) d = Some nd \<Longrightarrow> after R (f nd) d) \<Longrightarrow>
   after R (bindS (get_current_node e r) f) d"
  by (rule after_read_then) (auto intro: reads_intros current_node_row base)

lemma on_same_node: "db_ok d \<Longrightarrow> after R m d \<Longrightarrow> after R (same_node nd i m) d"
  by (simp add: same_node_def after_reads reads_throw base)

lemma with_email:
  "db_ok d \<Longrightarrow> (\<And>m. after R (f m) d) \<Longrightarrow> after R (validated_email e email f) d"
  by (simp add: validated_email_def after_reads reads_throw base split: option.splits)

lemma with_valid: "db_ok d \<Longrightarrow> (ok \<Longrightarrow> after R m d) \<Longrightarrow> after R (validated ok m) d"
  by (rule after_validated) (rule base)

lemmas wrappers = with_user with_admin with_node on_same_node with_email with_valid after_catch_cursor

lemmas services = signup login generate_key revoke_key submit claim_for_node cancel_job
  admin_force_kill append_logs create_claim_token register_node record_heartbeat record_metrics
  drain_node undrain_node admin_force_drain delete_node suspend_user list_audit_events

lemma account_writers:
  assumes "db_ok d"
  shows "after R (h_signup e r email pw) d" "after R (h_login e r email pw) d"
    "after R (h_generate_key e r name) d" "after R (h_revoke_key e r i) d"
    "after R (h_suspend_user e r i) d"
    "after R (h_list_audit_events e r t uq ip lo hi cur n) d"
  unfolding h_signup_def h_login_def h_generate_key_def h_revoke_key_def
    h_suspend_user_def h_list_audit_events_def
  by (intro wrappers assms; (rule after_then_read)?, auto intro!: services reads_intros assms)+

lemma node_writers:
  assumes "db_ok d"
  shows "after R (h_create_claim_token e r) d" "after R (h_register_node e r g) d"
    "after R (h_drain_node e r i) d" "after R (h_undrain_node e r i) d"
    "after R (h_delete_node e r i) d" "after R (h_push_metrics e r i ss) d"
    "after R (h_force_drain_node e r i) d"
  unfolding h_create_claim_token_def h_register_node_def h_drain_node_def h_undrain_node_def
    h_delete_node_def h_push_metrics_def h_force_drain_node_def
  by (intro wrappers assms; (rule after_then_read)?, auto intro!: services reads_intros assms)+

lemma heartbeat: "db_ok d \<Longrightarrow> after R (h_heartbeat e r i) d"
  unfolding h_heartbeat_def
  by (intro wrappers; (auto intro!: after_thenS_read record_heartbeat reads_intros)?)

lemma job_writers:
  assumes "db_ok d"
  shows "after R (h_submit_job e r p) d" "after R (h_claim_job e r) d" "after R (h_cancel_job e r i) d"
    "after R (h_force_kill_job e r i) d"
  unfolding h_submit_job_def h_claim_job_def h_cancel_job_def h_force_kill_job_def
  by (intro wrappers assms; (rule after_then_read)?, auto intro!: services reads_intros assms)+

lemma push_logs: "db_ok d \<Longrightarrow> after R (h_push_logs e r i xs) d"
  unfolding h_push_logs_def
  by (cases "xs = []"; simp; intro wrappers;
      (auto intro: after_then_read append_logs after_reads base reads_intros)?)

lemma handled_quiet:
  "db_ok d \<Longrightarrow> (\<And>i host c. q \<noteq> PostApprove i host c) \<Longrightarrow> (\<And>i code msg. q \<noteq> PostComplete i code msg) \<Longrightarrow>
   after R (handle e r q) d"
  by (cases q)
    (auto intro: after_respond account_writers node_writers heartbeat job_writers push_logs
      after_reads reads_respond reads_handlers base)

end

locale quiet_approval_contract = quiet_contract +
  assumes approve_user: "db_ok d \<Longrightarrow> 0 \<le> c \<Longrightarrow> after R (approve_user e u i host c ip ua) d"
begin

lemma approve: "db_ok d \<Longrightarrow> after R (h_approve_user e r i host c) d"
  unfolding h_approve_user_def approve_request_ok_def
  by (intro wrappers; (auto intro!: after_then_read approve_user reads_intros)?)

lemma handled_unreported:
  assumes "db_ok d" and "\<And>i code msg. q \<noteq> PostComplete i code msg"
  shows "after R (handle e r q) d"
proof (cases "\<exists>i host c. q = PostApprove i host c")
  case True
  then show ?thesis using assms(1) by (auto intro!: after_respond intro: approve)
qed (use assms in \<open>blast intro: handled_quiet\<close>)

end

locale unreported_contract = quiet_approval_contract +
  assumes grant_admin: "db_ok d \<Longrightarrow> after R (grant_admin e m) d"
begin

lemma executed_unreported:
  assumes "db_ok d" and "\<And>e r i code msg. a \<noteq> Http e r (PostComplete i code msg)"
  shows "R d (execute a d)"
proof (cases a)
  case (Http e r q)
  with assms have "after R (handle e r q) d" by (intro handled_unreported) auto
  then show ?thesis by (simp add: Http serve_def after_run)
qed (use assms(1) in \<open>simp add: after_run grant_admin\<close>)

end

locale request_contract = quiet_contract +
  assumes complete_job: "db_ok d \<Longrightarrow> find_node (n_id nd) d = Some nd \<Longrightarrow>
      after R (complete_job e nd i code msg) d"
begin

lemma completion: "db_ok d \<Longrightarrow> after R (h_complete_job e r i code msg) d"
  unfolding h_complete_job_def
  by (intro wrappers; (auto intro!: after_then_read complete_job reads_intros)?)

lemma handled_other:
  assumes "db_ok d" and "\<And>i host c. q \<noteq> PostApprove i host c"
  shows "after R (handle e r q) d"
proof (cases "\<exists>i code msg. q = PostComplete i code msg")
  case True
  then show ?thesis using assms(1) by (auto intro!: after_respond intro: completion)
qed (use assms in \<open>blast intro: handled_quiet\<close>)

lemma served_other:
  "db_ok d \<Longrightarrow> (\<And>i host c. q \<noteq> PostApprove i host c) \<Longrightarrow> R d (snd (serve e r q d))"
  using after_run [of R "handle e r q" d] handled_other [of d q e r] by (simp add: serve_def)

end

locale approval_contract = request_contract + quiet_approval_contract
begin

lemma handled_request: "db_ok d \<Longrightarrow> after R (handle e r q) d"
proof (cases "\<exists>i host c. q = PostApprove i host c")
  case True
  then show "db_ok d \<Longrightarrow> ?thesis" by (auto intro!: after_respond intro: approve)
qed (blast intro: handled_other)

lemma served: "db_ok d \<Longrightarrow> R d (snd (serve e r q d))"
  using after_run [of R "handle e r q" d] handled_request [of d e r q] by (simp add: serve_def)

end

locale step_contract_base = request_contract +
  assumes grant_admin: "db_ok d \<Longrightarrow> after R (grant_admin e m) d"
begin

lemma executed_other:
  assumes "db_ok d" and "\<And>e r i host c. a \<noteq> Http e r (PostApprove i host c)"
  shows "R d (execute a d)"
proof (cases a)
  case (Http e r q)
  have "R d (snd (serve e r q d))" using assms(1) by (rule served_other) (use assms(2) Http in auto)
  then show ?thesis by (simp add: Http)
qed (use assms(1) in \<open>simp add: after_run grant_admin\<close>)

end

locale step_contract = approval_contract + step_contract_base
begin

lemma executed: "db_ok d \<Longrightarrow> R d (execute a d)"
  by (cases a) (auto intro: served simp: after_run grant_admin)

end

text \<open>The integrity invariant is such a relation.\<close>

lemma submit_request_bounds:
  "submit_request_ok p \<Longrightarrow> 1 \<le> r_gpu_count p \<and> r_gpu_count p \<le> 64 \<and>
    1 \<le> r_max_duration_seconds p \<and> r_max_duration_seconds p \<le> 604800"
  by (simp add: submit_request_ok_def MAX_JOB_DURATION_SECONDS_def)

lemmas service_ok = signup_ok login_ok generate_key_ok revoke_key_ok claim_for_node_ok
  complete_job_ok cancel_job_ok admin_force_kill_ok append_logs_ok create_claim_token_ok
  register_node_ok record_heartbeat_ok record_metrics_ok drain_node_ok undrain_node_ok
  admin_force_drain_ok delete_node_ok approve_user_ok suspend_user_ok list_audit_events_ok grant_admin_ok

interpretation integrity: step_contract "\<lambda>_. db_ok"
proof (unfold_locales, unfold after_ok_run)
  show "ok_run (submit e u (r_docker_image p) (r_command p) (r_gpu_count p) (r_max_duration_seconds p)
      (r_preferred_node_id p) ip ua) d" if "db_ok d" "submit_request_ok p" for d e u p ip ua
    using that(1) by (rule submit_ok) (use submit_request_bounds [OF that(2)] in auto)
qed (assumption | rule service_ok)+

lemma reachable_ok: "reachable d \<Longrightarrow> db_ok d"
  by (induction rule: reachable.induct) (auto intro: db_ok_empty integrity.executed)

lemma reachable_executed:
  assumes "step_contract R" and "reachable d"
  shows "R d (execute a d)"
  using assms step_contract.executed reachable_ok by blast

section \<open>Runs\<close>

definition run_actions :: "action list \<Rightarrow> db \<Rightarrow> db" where
  "run_actions as d = fold execute as d"

lemma run_actions_simps [simp]:
  "run_actions [] d = d" "run_actions (a # as) d = run_actions as (execute a d)"
  by (simp_all add: run_actions_def)

lemma reachable_run: "reachable d \<Longrightarrow> reachable (run_actions as d)"
  by (induction as arbitrary: d) (auto intro: reachable_step)

lemma run_ok: "db_ok d \<Longrightarrow> db_ok (run_actions as d)"
  by (induction as arbitrary: d) (auto intro: integrity.executed)

lemma run_contract:
  assumes "step_contract R" and "\<And>d1 d2 d3. R d1 d2 \<Longrightarrow> R d2 d3 \<Longrightarrow> R d1 d3" and "db_ok d"
  shows "R d (run_actions as d)"
  using assms(3)
proof (induction as arbitrary: d)
  case Nil
  have "R d d"
    by (rule quiet_contract.base [OF request_contract.axioms(1) [OF approval_contract.axioms(1)
          [OF step_contract.axioms(1) [OF assms(1)]]] Nil.prems])
  then show ?case by simp
next
  case (Cons a as)
  have "R d (execute a d)" using assms(1) Cons.prems by (rule step_contract.executed)
  with Cons.IH [OF integrity.executed [OF Cons.prems]] assms(2) show ?case by simp
qed

end
