(* ===== verification/Lifecycle.thy ===== *)
theory Lifecycle
  imports System
begin

text \<open>
  The life cycle of a job as an abstract state machine, and the simulation: under every
  action of the system each job takes at most one step of the machine, keeps what it was
  submitted with, and keeps its outcome once it has one; no action deletes or reorders jobs.
\<close>

section \<open>The abstract machine\<close>

text \<open>
  A job waits, runs on a node (with or without a requested cancellation), or is finished
  with a status and, when it ran, an exit code.
\<close>

datatype phase =
    Waiting
  | On uuid bool
  | Finished string "int option"

inductive phase_step :: "phase \<Rightarrow> phase \<Rightarrow> bool" where
  assign: "phase_step Waiting (On n False)"
| withdraw: "phase_step Waiting (Finished CANCELLED None)"
| ask_cancel: "phase_step (On n False) (On n True)"
| succeed: "phase_step (On n False) (Finished COMPLETED (Some 0))"
| fail: "c \<noteq> 0 \<Longrightarrow> phase_step (On n False) (Finished FAILED (Some c))"
| confirm_cancel: "phase_step (On n True) (Finished CANCELLED (Some c))"

inductive_cases from_finishedE [elim!]: "phase_step (Finished st c) p"
inductive_cases from_waitingE: "phase_step Waiting p"
inductive_cases from_onE: "phase_step (On n b) p"

definition job_phase :: "job \<Rightarrow> phase" where
  "job_phase j =
     (if j_status j = QUEUED then Waiting
      else if j_status j = RUNNING then On (the (j_assigned_node_id j)) (j_cancel_requested_at j \<noteq> None)
      else Finished (j_status j) (j_exit_code j))"

definition phase_status :: "phase \<Rightarrow> string" where
  "phase_status p = (case p of Waiting \<Rightarrow> QUEUED | On _ _ \<Rightarrow> RUNNING | Finished st _ \<Rightarrow> st)"

lemma status_of_phase: "j_status j = phase_status (job_phase j)"
  by (simp add: phase_status_def job_phase_def)

lemma phase_step_allowed:
  "phase_step p q \<Longrightarrow> phase_status p = phase_status q \<or> (phase_status p, phase_status q) \<in> ALLOWED_TRANSITIONS"
  by (induction rule: phase_step.induct) (simp_all add: phase_status_def ALLOWED_TRANSITIONS_def)

section \<open>Evolution of jobs\<close>

definition same_order :: "job \<Rightarrow> job \<Rightarrow> bool" where
  "same_order j j' \<longleftrightarrow> j_id j' = j_id j \<and> j_user_id j' = j_user_id j \<and>
     j_docker_image j' = j_docker_image j \<and> j_command j' = j_command j \<and>
     j_gpu_count j' = j_gpu_count j \<and> j_max_duration_seconds j' = j_max_duration_seconds j \<and>
     j_created_at j' = j_created_at j"

definition same_outcome :: "job \<Rightarrow> job \<Rightarrow> bool" where
  "same_outcome j j' \<longleftrightarrow> j_status j' = j_status j \<and> j_exit_code j' = j_exit_code j \<and>
     j_error_message j' = j_error_message j \<and> j_started_at j' = j_started_at j \<and>
     j_completed_at j' = j_completed_at j \<and> j_cancel_requested_at j' = j_cancel_requested_at j"

definition job_evolves :: "job \<Rightarrow> job \<Rightarrow> bool" where
  "job_evolves j j' \<longleftrightarrow> same_order j j' \<and>
     (job_phase j' = job_phase j \<or> phase_step (job_phase j) (job_phase j')) \<and>
     (j_status j \<in> TERMINAL_STATUSES \<longrightarrow> same_outcome j j') \<and>
     (j_started_at j \<noteq> None \<longrightarrow> j_started_at j' = j_started_at j)"

definition jobs_evolve :: "db \<Rightarrow> db \<Rightarrow> bool" where
  "jobs_evolve d d' \<longleftrightarrow> (\<exists>js new. jobs d' = js @ new \<and> list_all2 job_evolves (jobs d) js \<and>
     (\<forall>j \<in> set new. job_phase j = Waiting \<and> j_id j \<notin> j_id ` set (jobs d)))"

lemma job_evolves_refl [simp]: "job_evolves j j"
  by (simp add: job_evolves_def same_order_def same_outcome_def)

lemma jobs_evolve_same: "jobs d' = jobs d \<Longrightarrow> jobs_evolve d d'"
  unfolding jobs_evolve_def by (intro exI [of _ "jobs d"] exI [of _ "[]"]) (simp add: list.rel_refl)

lemma evolve_put:
  assumes "distinct (map j_id js)" and "lookup_row j_id (j_id j') js = Some j" and "job_evolves j j'"
  shows "list_all2 job_evolves js (put_row j_id j' js)"
proof -
  have "job_evolves x (if j_id x = j_id j' then j' else x)" if "x \<in> set js" for x
    using lookup_row_distinct [OF assms(1) that] assms(2,3) by auto
  then show ?thesis by (simp add: put_row_def list_all2_conv_all_nth)
qed

lemma jobs_evolve_put:
  assumes "db_ok d" and "find_job i d = Some j" and "job_evolves j j'"
    and "jobs d' = put_row j_id j' (jobs d)"
  shows "jobs_evolve d d'"
proof -
  have i: "j_id j = i" using find_job_in [OF assms(2)] by simp
  have "j_id j' = i" using assms(3) i by (simp add: job_evolves_def same_order_def)
  with assms(2) have "find_job (j_id j') d = Some j" by simp
  then have "list_all2 job_evolves (jobs d) (put_row j_id j' (jobs d))"
    using jobs_ok_distinct [OF db_ok_jobs [OF assms(1)]] assms(3) by (intro evolve_put)
  then show ?thesis using assms(4) unfolding jobs_evolve_def
    by (intro exI [of _ "put_row j_id j' (jobs d)"] exI [of _ "[]"]) simp
qed

lemma jobs_evolve_add:
  assumes "jobs d' = jobs d @ [j]" and "job_phase j = Waiting" and "j_id j \<notin> j_id ` set (jobs d)"
  shows "jobs_evolve d d'"
  using assms unfolding jobs_evolve_def
  by (intro exI [of _ "jobs d"] exI [of _ "[j]"]) (simp add: list.rel_refl)

lemma forget_evolves:
  assumes "\<not> (j_status j = RUNNING \<and> j_assigned_node_id j = Some i)"
  shows "job_evolves j (forget_node i j)"
proof -
  have "job_phase (forget_node i j) = job_phase j"
    using assms by (simp add: job_phase_def)
  moreover have "j_docker_image (forget_node i j) = j_docker_image j"
    "j_command (forget_node i j) = j_command j" by (simp_all add: forget_node_def)
  ultimately show ?thesis by (simp add: job_evolves_def same_order_def same_outcome_def)
qed

lemma jobs_evolve_forget:
  assumes "find (running_on i) (jobs d) = None" and "jobs d' = map (forget_node i) (jobs d)"
  shows "jobs_evolve d d'"
proof -
  have "list_all2 job_evolves (jobs d) (map (forget_node i) (jobs d))"
    using not_running_on [OF assms(1)] forget_evolves by (simp add: list_all2_conv_all_nth)
  then show ?thesis using assms(2) unfolding jobs_evolve_def
    by (intro exI [of _ "map (forget_node i) (jobs d)"] exI [of _ "[]"]) simp
qed

section \<open>Operations that do not touch jobs\<close>

abbreviation jobs_are :: "job list \<Rightarrow> db \<Rightarrow> bool" where
  "jobs_are js w \<equiv> jobs w = js"

lemma keeps_audit:
  assumes "\<And>w as. I w \<Longrightarrow> I (w\<lparr>audit_events := as\<rparr>)"
  shows "keeps I (audit_repo_create e i t u fs ip ua)"
  unfolding audit_repo_create_def Let_def
  by (intro keeps_intros) (auto simp: insert_audit_def assms split: if_splits)

lemma keeps_jobs_accounts:
  "keeps (jobs_are js) (signup e m pw ip ua)" "keeps (jobs_are js) (login e m pw ip ua)"
  "keeps (jobs_are js) (generate_key e u name ip ua)" "keeps (jobs_are js) (revoke_key e u i ip ua)"
  "keeps (jobs_are js) (approve_user e u i host c ip ua)" "keeps (jobs_are js) (suspend_user e u i ip ua)"
  "keeps (jobs_are js) (list_audit_events e u t q ip' lo hi cur n ip ua)"
  "keeps (jobs_are js) (grant_admin e m)"
  unfolding signup_def login_def login_failed_def generate_key_def revoke_key_def approve_user_def
    suspend_user_def list_audit_events_def grant_admin_def get_user_by_id_def
    user_repo_get_by_email_def user_repo_get_by_id_def user_repo_create_def api_key_repo_create_def
    api_key_repo_get_by_id_def api_key_repo_revoke_def audit_repo_list_filtered_def Let_def
  by (auto intro!: keeps_audit keeps_intros simp: flush_user_def insert_user_def insert_api_key_def
      split: if_splits prod.splits)

lemma keeps_jobs_nodes:
  "keeps (jobs_are js) (create_claim_token e u ip ua)"
  "keeps (jobs_are js) (register_node e tok gm mem gc nm ip ua)"
  "keeps (jobs_are js) (record_heartbeat e nd)" "keeps (jobs_are js) (record_metrics e nd ss)"
  "keeps (jobs_are js) (drain_node e u i ip ua actor ev)" "keeps (jobs_are js) (undrain_node e u i ip ua)"
  "keeps (jobs_are js) (admin_force_drain e u i ip ua)" "keeps (jobs_are js) (append_logs e nd i xs)"
  unfolding create_claim_token_def register_node_def record_heartbeat_def record_metrics_def
    drain_node_def undrain_node_def admin_force_drain_def append_logs_def claim_repo_create_def
    claim_repo_get_by_prefix_def claim_repo_mark_consumed_def node_repo_create_def
    node_repo_update_last_seen_def node_metric_repo_upsert_samples_def get_owned_for_actor_def
    get_owned_node_def node_repo_get_by_id_def node_repo_set_status_def job_repo_get_by_id_def
    job_log_repo_append_def Let_def
  by (auto intro!: keeps_audit keeps_intros simp: flush_node_def insert_claim_def insert_node_def upsert_metric_rows_def Let_def
      append_log_rows_def map_sum_snd_Inr split: if_splits prod.splits sum.splits)

lemma after_jobs_are: "keeps (jobs_are (jobs d)) m \<Longrightarrow> after jobs_evolve m d"
proof -
  assume k: "keeps (jobs_are (jobs d)) m"
  have "wp m (\<lambda>_ s. jobs (committed s) = jobs d \<and> jobs (working s) = jobs d) (begin_session d)"
    using k by (simp add: keeps_def)
  then show ?thesis unfolding after_def by (rule wp_mono) (simp add: jobs_evolve_same)
qed

section \<open>Operations that move a job\<close>

lemma wp_audit_jobs:
  assumes "\<And>err. Q (Inl err) s" and "\<And>a w. jobs w = jobs (working s) \<Longrightarrow> Q (Inr a) (s\<lparr>working := w\<rparr>)"
  shows "wp (audit_repo_create e i t u fs ip ua) Q s"
  using assms by (auto simp: audit_repo_create_def Let_def wp_simps dest: insert_audit_frame split: sum.splits)

lemma submit_evolves: "after jobs_evolve (submit e u img cmd g t p ip ua) d"
proof -
  let ?j = "new_job e (uuid4 e 0) (u_id u) img cmd g t p"
  have "jobs_evolve d w" if "insert_job ?j d = Inr d'" "jobs w = jobs d'" for d' w
    using that by (intro jobs_evolve_add [where j = ?j])
      (auto simp: insert_job_def new_job_def job_phase_def job_status_literals split: if_splits)
  then show ?thesis
    by (auto simp: after_def submit_def job_repo_create_def Let_def wp_simps jobs_evolve_same
        split: sum.splits intro!: wp_audit_jobs)
qed

lemma claim_evolves:
  assumes "db_ok d"
  shows "after jobs_evolve (claim_for_node e nd) d"
proof -
  have "jobs_evolve d w"
    if cand: "next_claimable e (n_id nd) g (jobs d) = Some j"
      and assign: "assign_job (j\<lparr>j_status := ''running'', j_assigned_node_id := Some (n_id nd),
        j_started_at := Some now\<rparr>) d = Inr d'" and w: "jobs w = jobs d'" for g j now d' w
  proof -
    note jd = next_claimable_in [OF cand]
    have js: "jobs_ok (u_id ` set (users d)) (nodes d) (jobs d)" using assms by (rule db_ok_jobs)
    have cur: "find_job (j_id j) d = Some j"
      using lookup_row_distinct [OF jobs_ok_distinct [OF js]] jd by simp
    have q: "j_status j = QUEUED" using jd by (simp add: claimable_def job_status_literals)
    have free: "j_cancel_requested_at j = None" "j_started_at j = None"
      using jobs_okD(1) [OF js] jd q by (auto simp: job_ok_def)
    have "job_evolves j (j\<lparr>j_status := ''running'', j_assigned_node_id := Some (n_id nd),
        j_started_at := Some now\<rparr>)"
      using q free
      by (simp add: job_evolves_def same_order_def job_phase_def job_status_literals phase_step.assign)
    then show ?thesis
      using assign w by (intro jobs_evolve_put [OF assms cur]) (auto simp: assign_job_def flush_job_def split: if_splits)
  qed
  then show ?thesis
    by (auto simp: after_def claim_for_node_def job_repo_get_running_for_node_def
        job_repo_claim_next_for_node_def Let_def wp_simps jobs_evolve_same
        split: sum.splits option.splits intro!: wp_audit_jobs)
qed

lemma terminal_evolves:
  assumes "job_ok j" and "j_status j = RUNNING"
  shows "job_evolves j (j\<lparr>j_status := completion_target j code, j_exit_code := Some code,
    j_error_message := msg, j_completed_at := Some now\<rparr>)"
proof -
  have "j_assigned_node_id j \<noteq> None" using assms by (auto simp: job_ok_def)
  then show ?thesis using assms(2)
    by (auto simp: job_evolves_def same_order_def job_phase_def completion_target_def
        intro: phase_step.intros)
qed

lemma complete_evolves:
  assumes "db_ok d"
  shows "after jobs_evolve (complete_job e nd i code msg) d"
proof (cases "find_job i d")
  case None
  then show ?thesis
    by (simp add: after_def complete_job_def job_repo_get_by_id_def wp_simps jobs_evolve_same)
next
  case (Some j)
  let ?t = "completion_target j code"
  show ?thesis
  proof (cases "(j_status j, ?t) \<in> ALLOWED_TRANSITIONS")
    case False
    then show ?thesis using Some
      by (simp add: after_def complete_job_def job_repo_get_by_id_def wp_simps Let_def jobs_evolve_same)
  next
    case True
    have ok: "job_ok j" using assms Some by (rule job_ok_found)
    with True have run: "j_status j = RUNNING" by (rule allowed_target_running)
    have put: "jobs_evolve d w" if "jobs w = put_row j_id (j\<lparr>j_status := ?t, j_exit_code := Some code,
        j_error_message := msg, j_completed_at := Some now\<rparr>) (jobs d)" for w now
      using assms Some terminal_evolves [OF ok run] that by (rule jobs_evolve_put)
    show ?thesis using Some True assms
      by (auto simp: after_def complete_job_def job_repo_get_by_id_def job_repo_mark_terminal_def
          flush_job_def wp_simps Let_def put jobs_evolve_same intro!: wp_charge_user wp_audit_jobs)
  qed
qed

lemma cancel_evolves:
  assumes "db_ok d" and "find_job i d = Some j"
  shows "wp (cancel_or_request_cancel e j ev u uid extra ip ua) (\<lambda>_ s. jobs_evolve d (committed s)) (begin_session d)"
proof -
  have ok: "job_ok j" using assms by (rule job_ok_found)
  have c: "jobs_evolve d w" if "jobs w = put_row j_id (j\<lparr>j_status := CANCELLED, j_exit_code := None,
      j_error_message := msg, j_completed_at := Some now\<rparr>) (jobs d)" "j_status j = QUEUED" for w msg now
    using assms _ that(1)
    by (rule jobs_evolve_put)
      (use ok that(2) in \<open>auto simp: job_evolves_def same_order_def job_phase_def job_ok_def
         intro: phase_step.intros\<close>)
  have r: "jobs_evolve d w" if "jobs w = put_row j_id (j\<lparr>j_cancel_requested_at := Some now\<rparr>) (jobs d)"
    "j_status j = RUNNING" "j_cancel_requested_at j = None" for w now
    using assms _ that(1)
    by (rule jobs_evolve_put)
      (use that(2,3) in \<open>auto simp: job_evolves_def same_order_def job_phase_def intro: phase_step.intros\<close>)
  show ?thesis using assms
    by (auto simp: cancel_or_request_cancel_def job_repo_mark_terminal_def job_repo_request_cancel_def
        flush_job_def wp_simps Let_def jobs_evolve_same intro!: wp_audit_jobs intro: c r)
qed

lemma cancel_job_evolves: "db_ok d \<Longrightarrow> after jobs_evolve (cancel_job e u i ip ua) d"
  by (auto simp: after_def cancel_job_def job_repo_get_by_id_def wp_simps jobs_evolve_same
      split: option.splits intro: cancel_evolves)

lemma force_kill_evolves: "db_ok d \<Longrightarrow> after jobs_evolve (admin_force_kill e u i ip ua) d"
  by (auto simp: after_def admin_force_kill_def job_repo_get_by_id_def wp_simps jobs_evolve_same
      split: option.splits intro: cancel_evolves)

lemma delete_node_evolves: "after jobs_evolve (delete_node e u i ip ua actor) d"
proof -
  have "jobs_evolve d w'" if "find (running_on k) (jobs d) = None" "jobs w = jobs d"
    "delete_node_row k w = Inr w'" for k w w'
    using that by (intro jobs_evolve_forget [OF that(1)]) (auto simp: delete_node_row_def)
  then show ?thesis
    by (auto simp: after_def delete_node_def get_owned_for_actor_def node_repo_get_by_id_def
        job_repo_get_running_for_node_def node_repo_delete_def wp_simps jobs_evolve_same
        split: option.splits sum.splits intro!: wp_audit_jobs)
qed

interpretation lifecycle: step_contract jobs_evolve
  by unfold_locales
    (auto intro: jobs_evolve_same after_jobs_are keeps_jobs_accounts keeps_jobs_nodes submit_evolves
      claim_evolves complete_evolves cancel_job_evolves force_kill_evolves delete_node_evolves)

text \<open>What the relation says of one job.\<close>

lemma jobs_evolve_found:
  assumes "jobs_evolve d d'" and "find_job i d = Some j"
  shows "\<exists>j'. find_job i d' = Some j' \<and> job_evolves j j'"
proof -
  obtain js new where d': "jobs d' = js @ new" and all: "list_all2 job_evolves (jobs d) js"
    using assms(1) by (auto simp: jobs_evolve_def)
  have "list_all2 job_evolves xs ys \<Longrightarrow> lookup_row j_id i xs = Some j \<Longrightarrow>
      \<exists>j'. lookup_row j_id i ys = Some j' \<and> job_evolves j j'" for xs ys
    by (induction rule: list_all2_induct)
      (auto simp: lookup_row_def job_evolves_def same_order_def split: if_splits)
  then obtain j' where "lookup_row j_id i js = Some j'" "job_evolves j j'" using all assms(2) by blast
  moreover have "lookup_row j_id i (js @ new) = Some j'" if "lookup_row j_id i js = Some j'"
    using that by (induction js) (auto simp: lookup_row_def)
  ultimately show ?thesis by (auto simp: d')
qed

lemma action_evolves:
  "db_ok d \<Longrightarrow> find_job i d = Some j \<Longrightarrow> \<exists>j'. find_job i (execute a d) = Some j' \<and> job_evolves j j'"
  using lifecycle.executed jobs_evolve_found by blast

end
