(* ===== verification/Atomicity.thy ===== *)
theory Atomicity
  imports Lifecycle
begin

text \<open>
  Requests are atomic: an operation commits last, so a request that is answered with an
  error leaves the committed database as it was. The one exception is a failed login, which
  commits its audit event first.
\<close>

section \<open>Commits come last\<close>

text \<open>
  \<open>quiet\<close> methods never commit, \<open>sure\<close> methods never fail, and an \<open>atomic\<close> method
  that fails has not committed anything.
\<close>

definition quiet :: "'a svc \<Rightarrow> bool" where
  "quiet m \<longleftrightarrow> (\<forall>s. wp m (\<lambda>_ s'. committed s' = committed s) s)"

definition sure :: "'a svc \<Rightarrow> bool" where
  "sure m \<longleftrightarrow> (\<forall>s. wp m (\<lambda>r s'. (\<exists>x. r = Inr x) \<and> committed s' = committed s) s)"

definition atomic :: "'a svc \<Rightarrow> bool" where
  "atomic m \<longleftrightarrow> (\<forall>s. wp m (\<lambda>r s'. case r of Inl _ \<Rightarrow> committed s' = committed s | Inr _ \<Rightarrow> True) s)"

named_theorems quiet_intros "methods that do not commit"
named_theorems atomic_intros "methods that commit last"

lemma quiet_ret [quiet_intros]: "quiet (ret x)"
  and quiet_throw [quiet_intros]: "quiet (throw err)"
  and quiet_query [quiet_intros]: "quiet (query f)"
  and quiet_lift_result [quiet_intros]: "quiet (lift_result y)"
  and quiet_rollback [quiet_intros]: "quiet rollback"
  by (simp_all add: quiet_def wp_simps)

lemma quiet_modify [quiet_intros]: "quiet (modify f)"
  by (simp add: quiet_def wp_simps split: sum.splits)

lemma quietD: "quiet m \<Longrightarrow> committed s = d \<Longrightarrow> wp m (\<lambda>_ s'. committed s' = d) s"
  by (auto simp: quiet_def)

lemma quiet_bindS [quiet_intros]:
  assumes "quiet m" and "\<And>x. quiet (f x)"
  shows "quiet (bindS m f)"
  unfolding quiet_def wp_bindS
proof
  fix s :: session
  show "wp m (\<lambda>r s'. case r of Inl e \<Rightarrow> committed s' = committed s
      | Inr x \<Rightarrow> wp (f x) (\<lambda>_ s''. committed s'' = committed s) s') s"
    by (rule wp_mono [OF quietD [OF assms(1) refl]]) (simp add: quietD [OF assms(2)] split: sum.split)
qed

lemma quiet_thenS [quiet_intros]: "quiet m \<Longrightarrow> quiet k \<Longrightarrow> quiet (thenS m k)"
  by (simp add: thenS_def quiet_bindS)

lemma quiet_reads: "reads m \<Longrightarrow> quiet m"
  unfolding quiet_def by (auto intro: reads_wp)

lemma quiet_audit [quiet_intros]: "quiet (audit_repo_create e i t u fs ip ua)"
  unfolding audit_repo_create_def Let_def by (intro quiet_intros)

lemma quiet_assert [quiet_intros]: "quiet (assert_transition s t)"
  unfolding assert_transition_def by (auto intro: quiet_intros)

text \<open>The postcondition of an atomic method that starts from the committed database \<open>d\<close>.\<close>

definition unless_failed :: "db \<Rightarrow> error + 'a \<Rightarrow> session \<Rightarrow> bool" where
  "unless_failed d r s \<longleftrightarrow> (case r of Inl _ \<Rightarrow> committed s = d | Inr _ \<Rightarrow> True)"

lemma atomicD: "atomic m \<Longrightarrow> committed s = d \<Longrightarrow> wp m (unless_failed d) s"
  by (auto simp: atomic_def unless_failed_def [abs_def])

lemma atomicI: "(\<And>s. wp m (unless_failed (committed s)) s) \<Longrightarrow> atomic m"
  by (simp add: atomic_def unless_failed_def [abs_def])

lemma unless_failed_simps [simp]:
  "unless_failed d (Inl err) s \<longleftrightarrow> committed s = d" "unless_failed d (Inr x) s"
  by (simp_all add: unless_failed_def)

lemma atomic_quiet: "quiet m \<Longrightarrow> atomic m"
  by (rule atomicI, rule wp_mono [OF quietD [OF _ refl]]) (auto simp: unless_failed_def split: sum.split)

lemma atomic_commit_ret [atomic_intros]: "atomic (thenS commit (ret x))"
  by (simp add: atomic_def wp_simps)

lemma atomic_throw [atomic_intros]: "atomic (throw err)"
  by (simp add: atomic_def wp_simps)

lemma atomic_ret [atomic_intros]: "atomic (ret x)"
  by (simp add: atomic_def wp_simps)

lemma atomic_commit [atomic_intros]: "atomic commit"
  by (simp add: atomic_def wp_simps)

lemma atomic_bindS:
  assumes "quiet m" and "\<And>x. atomic (f x)"
  shows "atomic (bindS m f)"
proof (rule atomicI, unfold wp_bindS)
  fix s :: session
  show "wp m (\<lambda>r s'. case r of Inl e \<Rightarrow> unless_failed (committed s) (Inl e) s'
      | Inr x \<Rightarrow> wp (f x) (unless_failed (committed s)) s') s"
    by (rule wp_mono [OF quietD [OF assms(1) refl]]) (simp add: atomicD [OF assms(2)] split: sum.split)
qed

lemma atomic_thenS: "quiet m \<Longrightarrow> atomic k \<Longrightarrow> atomic (thenS m k)"
  by (simp add: thenS_def atomic_bindS)

lemma sureD: "sure m \<Longrightarrow> wp m (unless_failed d) s"
  by (auto simp: sure_def intro: wp_mono)

lemma atomic_bindS_sure:
  assumes "atomic m" and "\<And>x. sure (f x)"
  shows "atomic (bindS m f)"
proof (rule atomicI, unfold wp_bindS)
  fix s :: session
  show "wp m (\<lambda>r s'. case r of Inl e \<Rightarrow> unless_failed (committed s) (Inl e) s'
      | Inr x \<Rightarrow> wp (f x) (unless_failed (committed s)) s') s"
    by (rule wp_mono [OF atomicD [OF assms(1) refl]]) (auto simp: sureD [OF assms(2)] split: sum.split)
qed

lemma atomic_thenS_sure: "atomic m \<Longrightarrow> sure k \<Longrightarrow> atomic (thenS m k)"
  by (simp add: thenS_def atomic_bindS_sure)

lemma sure_ret: "sure (ret x)"
  by (simp add: sure_def wp_simps)

lemma sure_query_then: "(\<And>x. sure (f x)) \<Longrightarrow> sure (bindS (query g) f)"
  by (simp add: sure_def wp_simps)

lemma sure_prod: "(\<And>a b. sure (f a b)) \<Longrightarrow> sure (case x of (a, b) \<Rightarrow> f a b)"
  by (cases x) simp

lemma sure_prod3: "(\<And>a b c. sure (f a b c)) \<Longrightarrow> sure (case x of (a, b, c) \<Rightarrow> f a b c)"
  by (cases x) simp

lemma sure_current_job: "sure (bindS (get_current_job nd) (\<lambda>x. ret (f x)))"
  unfolding get_current_job_def job_repo_get_running_for_node_def
  by (intro sure_query_then sure_ret)

lemma atomic_if: "(b \<Longrightarrow> atomic m) \<Longrightarrow> (\<not> b \<Longrightarrow> atomic k) \<Longrightarrow> atomic (if b then m else k)"
  by simp

lemma atomic_option:
  "atomic m \<Longrightarrow> (\<And>y. atomic (f y)) \<Longrightarrow> atomic (case x of None \<Rightarrow> m | Some y \<Rightarrow> f y)"
  by (simp split: option.splits)

lemma atomic_prod: "(\<And>a b. atomic (f a b)) \<Longrightarrow> atomic (case x of (a, b) \<Rightarrow> f a b)"
  by (cases x) simp

lemma quiet_if: "(b \<Longrightarrow> quiet m) \<Longrightarrow> (\<not> b \<Longrightarrow> quiet k) \<Longrightarrow> quiet (if b then m else k)"
  by simp

lemma quiet_option:
  "quiet m \<Longrightarrow> (\<And>y. quiet (f y)) \<Longrightarrow> quiet (case x of None \<Rightarrow> m | Some y \<Rightarrow> f y)"
  by (simp split: option.splits)

lemmas [quiet_intros] = quiet_if quiet_option
lemmas [atomic_intros] = atomic_bindS atomic_thenS atomic_if atomic_option atomic_prod

section \<open>Every service operation commits last\<close>

lemmas repo_defs = user_repo_get_by_email_def user_repo_get_by_id_def user_repo_create_def
  api_key_repo_create_def api_key_repo_get_by_id_def api_key_repo_revoke_def
  audit_repo_list_filtered_def claim_repo_create_def claim_repo_get_by_prefix_def
  claim_repo_mark_consumed_def node_repo_create_def node_repo_update_last_seen_def
  node_metric_repo_upsert_samples_def node_repo_get_by_id_def node_repo_set_status_def
  node_repo_delete_def job_repo_create_def job_repo_get_by_id_def job_repo_get_running_for_node_def
  job_repo_claim_next_for_node_def job_repo_mark_terminal_def job_repo_request_cancel_def

lemma quiet_repos [quiet_intros]:
  "quiet (user_repo_get_by_email m)" "quiet (user_repo_get_by_id i)" "quiet (user_repo_create e i m h)"
  "quiet (api_key_repo_create e i u name p h)" "quiet (api_key_repo_get_by_id i)"
  "quiet (api_key_repo_revoke now k)"
  "quiet (audit_repo_list_filtered e t q ip lo hi cur n)"
  "quiet (claim_repo_create e i u p h x)" "quiet (claim_repo_get_by_prefix p)"
  "quiet (claim_repo_mark_consumed now c)"
  "quiet (node_repo_create e i u name gm mem gc st tp th seen)" "quiet (node_repo_update_last_seen now nd)"
  "quiet (node_metric_repo_upsert_samples now i ss)" "quiet (node_repo_get_by_id i)"
  "quiet (node_repo_set_status nd st)" "quiet (node_repo_delete nd)"
  "quiet (job_repo_create e i u img cmd g dur pref)" "quiet (job_repo_get_by_id i)"
  "quiet (job_repo_get_running_for_node i)" "quiet (job_repo_claim_next_for_node e now i g)"
  "quiet (job_repo_mark_terminal now j st code msg)" "quiet (job_repo_request_cancel now j)"
  unfolding repo_defs Let_def by (intro quiet_intros)+

lemma quiet_job_logs [quiet_intros]: "quiet (job_log_repo_append e i xs)"
  unfolding job_log_repo_append_def by (auto intro!: quiet_intros split: sum.splits)

lemma quiet_charge [quiet_intros]: "quiet (charge_user e i b)"
  unfolding charge_user_def by (intro quiet_intros)

lemma quiet_owned [quiet_intros]: "quiet (get_owned_for_actor u i actor)" "quiet (get_owned_node u i)"
  unfolding get_owned_for_actor_def get_owned_node_def by (auto intro!: quiet_intros split: option.splits)

lemma atomic_cancel: "atomic (cancel_or_request_cancel e j ev u uid extra ip ua)"
  unfolding cancel_or_request_cancel_def
  by (intro atomic_intros quiet_intros)

lemma atomic_services:
  "atomic (signup e m pw ip ua)" "atomic (generate_key e u name ip ua)" "atomic (revoke_key e u i ip ua)"
  "atomic (submit e u img cmd g dur p ip ua)" "atomic (claim_for_node e nd)"
  "atomic (complete_job e nd i code msg)" "atomic (cancel_job e u i ip ua)"
  "atomic (admin_force_kill e u i ip ua)" "atomic (append_logs e nd i xs)"
  "atomic (create_claim_token e u ip ua)" "atomic (register_node e tok gm mem gc nm ip ua)"
  "atomic (record_heartbeat e nd)" "atomic (record_metrics e nd ss)"
  "atomic (drain_node e u i ip ua actor ev)" "atomic (undrain_node e u i ip ua)"
  "atomic (admin_force_drain e u i ip ua)" "atomic (delete_node e u i ip ua actor)"
  "atomic (list_audit_events e u t q ip' lo hi cur n ip ua)"
  unfolding signup_def generate_key_def revoke_key_def submit_def claim_for_node_def complete_job_def
    cancel_job_def admin_force_kill_def append_logs_def create_claim_token_def register_node_def
    record_heartbeat_def record_metrics_def drain_node_def undrain_node_def admin_force_drain_def
    delete_node_def list_audit_events_def Let_def
  by (intro atomic_intros quiet_intros atomic_cancel)+

section \<open>Operations that answer with what they read after the commit\<close>

lemma user_found_after:
  assumes "find_user i d = Some u" and "flush_user e u u' d = Inr d'" and "u_id u' = u_id u"
    and "insert_audit a d' = Inr w"
  shows "\<exists>v. find_user i w = Some v"
proof -
  have "u_id u = i" using assms(1) by (auto dest: lookup_row_SomeD)
  then have "\<exists>v. find_user i d' = Some v"
    using assms(1-3) by (auto simp: flush_user_def lookup_row_put split: if_splits)
  then show ?thesis using insert_audit_frame [OF assms(4)] by simp
qed

lemma wp_audit_any:
  assumes "\<And>err. Q (Inl err) s"
    and "\<And>a w. insert_audit a (working s) = Inr w \<Longrightarrow> Q (Inr a) (s\<lparr>working := w\<rparr>)"
  shows "wp (audit_repo_create e i t u fs ip ua) Q s"
  using assms by (auto simp: audit_repo_create_def Let_def wp_simps split: sum.splits)

lemma atomic_approve: "atomic (approve_user e ad i host c ip ua)"
  by (rule atomicI)
    (auto simp: approve_user_def get_user_by_id_def user_repo_get_by_id_def Let_def wp_simps
      intro!: wp_audit_any dest: user_found_after split: option.splits sum.splits)

lemma atomic_suspend: "atomic (suspend_user e ad i ip ua)"
  by (rule atomicI)
    (auto simp: suspend_user_def get_user_by_id_def user_repo_get_by_id_def Let_def wp_simps
      intro!: wp_audit_any dest: user_found_after split: option.splits sum.splits)

section \<open>Every request but a failed login commits last\<close>

lemma atomic_validated: "atomic m \<Longrightarrow> atomic (validated ok m)"
  by (simp add: validated_def atomic_throw)

lemma atomic_validated_email: "(\<And>m. atomic (f m)) \<Longrightarrow> atomic (validated_email e email f)"
  by (simp add: validated_email_def atomic_throw split: option.splits)

lemma atomic_same_node: "atomic m \<Longrightarrow> atomic (same_node nd i m)"
  by (simp add: same_node_def atomic_throw)

lemma atomic_catch_cursor:
  assumes "atomic m"
  shows "atomic (catch_cursor m)"
proof (rule atomicI, unfold catch_cursor_def wp_catch)
  fix s :: session
  show "wp m (\<lambda>r s'. case r of Inl err \<Rightarrow> wp (case err of InvalidCursorError \<Rightarrow> throw InvalidPaginationCursor
      | _ \<Rightarrow> throw err) (unless_failed (committed s)) s' | Inr x \<Rightarrow> unless_failed (committed s) (Inr x) s') s"
    by (rule wp_mono [OF atomicD [OF assms refl]]) (auto simp: wp_simps split: sum.split error.split)
qed

lemma atomic_respond: "atomic m \<Longrightarrow> atomic (respond f m)"
  unfolding respond_def by (rule atomic_bindS_sure) (assumption, rule sure_ret)

lemmas quiet_callers = reads_current_user [THEN quiet_reads] reads_require_admin [THEN quiet_reads]
  reads_current_node [THEN quiet_reads]

lemmas atomic_wrappers = atomic_bindS [OF quiet_callers(1)] atomic_bindS [OF quiet_callers(2)]
  atomic_bindS [OF quiet_callers(3)] atomic_validated atomic_validated_email atomic_same_node

lemmas sure_tails = sure_ret sure_current_job sure_prod sure_prod3

lemma atomic_handlers:
  "atomic (h_signup e r m pw)" "atomic (h_generate_key e r name)" "atomic (h_revoke_key e r i)"
  "atomic (h_submit_job e r p)" "atomic (h_claim_job e r)" "atomic (h_cancel_job e r i)"
  "atomic (h_complete_job e r i code msg)" "atomic (h_create_claim_token e r)"
  "atomic (h_register_node e r g)" "atomic (h_drain_node e r i)" "atomic (h_undrain_node e r i)"
  "atomic (h_delete_node e r i)" "atomic (h_push_metrics e r i ss)" "atomic (h_approve_user e r i host c)"
  "atomic (h_suspend_user e r i)" "atomic (h_force_kill_job e r i)" "atomic (h_force_drain_node e r i)"
  unfolding h_signup_def h_generate_key_def h_revoke_key_def h_submit_job_def h_claim_job_def
    h_cancel_job_def h_complete_job_def h_create_claim_token_def h_register_node_def h_drain_node_def
    h_undrain_node_def h_delete_node_def h_push_metrics_def h_approve_user_def h_suspend_user_def
    h_force_kill_job_def h_force_drain_node_def
  by (intro atomic_wrappers; (rule atomic_bindS_sure)?,
      auto intro: atomic_services atomic_approve atomic_suspend intro!: sure_tails)+

lemma atomic_audit_list: "atomic (h_list_audit_events e r t q ip lo hi cur n)"
  unfolding h_list_audit_events_def
  by (intro atomic_wrappers; rule atomic_bindS_sure)
    (auto intro: atomic_catch_cursor atomic_services intro!: sure_tails)

lemma atomic_push_logs: "atomic (h_push_logs e r i xs)"
  unfolding h_push_logs_def
  by (intro atomic_wrappers atomic_if atomic_ret; rule atomic_bindS_sure)
    (auto intro: atomic_services sure_ret)

lemma atomic_heartbeat: "atomic (h_heartbeat e r i)"
  unfolding h_heartbeat_def
  by (intro atomic_wrappers; rule atomic_thenS_sure) (auto intro: atomic_services sure_current_job)

lemma atomic_reads: "reads m \<Longrightarrow> atomic m"
  by (intro atomic_quiet quiet_reads)

lemma atomic_handle: "(\<And>m pw. q \<noteq> PostLogin m pw) \<Longrightarrow> atomic (handle e r q)"
  by (cases q)
    (auto intro: atomic_respond atomic_handlers atomic_audit_list atomic_push_logs atomic_heartbeat
      reads_handlers [THEN atomic_reads])

lemma atomic_serve: "atomic (handle e r q) \<Longrightarrow> serve e r q d = (Inl err, d') \<Longrightarrow> d' = d"
  using atomicD [of "handle e r q" "begin_session d" d]
  by (auto simp: serve_def run_svc_def wp_def split: prod.splits)

section \<open>Logins\<close>

text \<open>What a login that fails leaves: one more audit event, or nothing.\<close>

definition failed_login_recorded :: "db \<Rightarrow> db \<Rightarrow> bool" where
  "failed_login_recorded d d' \<longleftrightarrow>
     (\<exists>a. a_event_type a = ''auth.login.failed'' \<and> d' = d\<lparr>audit_events := audit_events d @ [a]\<rparr>)"

lemma failed_login_recordedI [simp]:
  "a_event_type a = ''auth.login.failed'' \<Longrightarrow>
   failed_login_recorded d (d\<lparr>audit_events := audit_events d @ [a]\<rparr>)"
  by (auto simp: failed_login_recorded_def)

lemma insert_audit_eq: "insert_audit a d = Inr w \<Longrightarrow> w = d\<lparr>audit_events := audit_events d @ [a]\<rparr>"
  by (auto simp: insert_audit_def split: if_splits option.splits)

lemma wp_login_failed:
  "committed s = d \<Longrightarrow> working s = d \<Longrightarrow>
   wp (login_failed e m u ip ua) (\<lambda>r s'. (\<exists>err. r = Inl err \<and>
     (committed s' = d \<or> err = InvalidCredentials \<and> failed_login_recorded d (committed s')))) s"
  by (auto simp: login_failed_def audit_repo_create_def Let_def wp_simps
      dest!: insert_audit_eq split: sum.splits)

lemma failed_login:
  "serve e r (PostLogin m pw) d = (Inl err, d') \<Longrightarrow>
   d' = d \<or> err = InvalidCredentials \<and> failed_login_recorded d d'"
proof -
  assume run: "serve e r (PostLogin m pw) d = (Inl err, d')"
  have "wp (handle e r (PostLogin m pw)) (\<lambda>x s'. \<forall>err. x = Inl err \<longrightarrow>
      committed s' = d \<or> err = InvalidCredentials \<and> failed_login_recorded d (committed s')) (begin_session d)"
    by (auto simp: respond_def h_login_def validated_email_def validated_def login_def
        user_repo_get_by_email_def wp_simps audit_repo_create_def Let_def
        split: option.splits sum.splits intro!: wp_mono [OF wp_login_failed])
  then show ?thesis using run by (auto simp: serve_def run_svc_def wp_def split: prod.splits)
qed

end
