(* ===== verification/Ledger.thy ===== *)
theory Ledger
  imports Atomicity
begin

text \<open>
  The two ledgers of the system: the audit log, which only grows, and the users' credits,
  which nothing but an administrator's approval raises.
\<close>

section \<open>The audit log only grows\<close>

definition audit_extends :: "db \<Rightarrow> db \<Rightarrow> bool" where
  "audit_extends d d' \<longleftrightarrow> (\<exists>xs. audit_events d' = audit_events d @ xs)"

lemma audit_extends_refl [simp]: "audit_extends d d"
  by (simp add: audit_extends_def)

lemma audit_extends_same: "audit_extends d w \<Longrightarrow> audit_events w' = audit_events w \<Longrightarrow> audit_extends d w'"
  by (simp add: audit_extends_def)

lemma keeps_grow: "keeps (audit_extends d) (audit_repo_create e i t u fs ip ua)"
  unfolding audit_repo_create_def Let_def
  by (intro keeps_intros) (auto simp: audit_extends_def dest!: insert_audit_eq)

lemma keeps_audit_others:
  "keeps (audit_extends d) (modify (flush_user e u u'))" "keeps (audit_extends d) (modify (flush_node nd))"
  "keeps (audit_extends d) (modify (flush_job j))" "keeps (audit_extends d) (modify (assign_job j))"
  "keeps (audit_extends d) (modify (insert_user u))" "keeps (audit_extends d) (modify (insert_node nd))"
  "keeps (audit_extends d) (modify (insert_job j))" "keeps (audit_extends d) (modify (insert_api_key k))"
  "keeps (audit_extends d) (modify (insert_claim c))" "keeps (audit_extends d) (modify (delete_node_row i))"
  "keeps (audit_extends d) (modify (upsert_metric_rows i now ss))"
  "keeps (audit_extends d) (modify (\<lambda>d. map_sum id snd (append_log_rows e i xs d)))"
  by (rule keeps_modify, erule audit_extends_same,
      auto simp: flush_user_def flush_node_def flush_job_def assign_job_def insert_user_def
        insert_node_def insert_job_def insert_api_key_def insert_claim_def delete_node_row_def
        upsert_metric_rows_def append_log_rows_def map_sum_snd_Inr Let_def
        split: if_splits sum.splits)+

lemma keeps_audit_puts:
  "keeps (audit_extends d) (modify (\<lambda>w. Inr (w\<lparr>users := f w\<rparr>)))"
  "keeps (audit_extends d) (modify (\<lambda>w. Inr (w\<lparr>api_keys := g w\<rparr>)))"
  "keeps (audit_extends d) (modify (\<lambda>w. Inr (w\<lparr>claim_tokens := h w\<rparr>)))"
  by (rule keeps_modify, erule audit_extends_same, auto)+

lemmas keeps_ledger = keeps_grow keeps_audit_others keeps_audit_puts keeps_ret keeps_throw keeps_query
  keeps_commit keeps_rollback keeps_lift_result keeps_bindS keeps_thenS keeps_if keeps_option
  keeps_Let keeps_assert_transition

lemma keeps_audit_services:
  "keeps (audit_extends d) (signup e m pw ip ua)" "keeps (audit_extends d) (login e m pw ip ua)"
  "keeps (audit_extends d) (generate_key e u name ip ua)" "keeps (audit_extends d) (revoke_key e u i ip ua)"
  "keeps (audit_extends d) (approve_user e u i host c ip ua)" "keeps (audit_extends d) (suspend_user e u i ip ua)"
  "keeps (audit_extends d) (list_audit_events e u t q ip' lo hi cur n ip ua)"
  "keeps (audit_extends d) (grant_admin e m)"
  "keeps (audit_extends d) (create_claim_token e u ip ua)"
  "keeps (audit_extends d) (register_node e tok gm mem gc nm ip ua)"
  "keeps (audit_extends d) (record_heartbeat e nd)" "keeps (audit_extends d) (record_metrics e nd ss)"
  "keeps (audit_extends d) (drain_node e u i ip ua actor ev)" "keeps (audit_extends d) (undrain_node e u i ip ua)"
  "keeps (audit_extends d) (admin_force_drain e u i ip ua)" "keeps (audit_extends d) (delete_node e u i ip ua actor)"
  "keeps (audit_extends d) (submit e u img cmd g dur p ip ua)" "keeps (audit_extends d) (claim_for_node e nd)"
  "keeps (audit_extends d) (complete_job e nd i code msg)"
  unfolding signup_def login_def login_failed_def generate_key_def revoke_key_def approve_user_def
    suspend_user_def list_audit_events_def grant_admin_def get_user_by_id_def create_claim_token_def
    register_node_def record_heartbeat_def record_metrics_def drain_node_def undrain_node_def
    admin_force_drain_def delete_node_def get_owned_for_actor_def get_owned_node_def
    submit_def claim_for_node_def complete_job_def charge_user_def repo_defs Let_def
  by (auto intro!: keeps_ledger split: prod.splits)

lemma keeps_audit_cancel: "keeps (audit_extends d) (cancel_or_request_cancel e j ev u uid extra ip ua)"
  unfolding cancel_or_request_cancel_def repo_defs Let_def
  by (auto intro!: keeps_ledger split: prod.splits)

lemma keeps_audit_job_services:
  "keeps (audit_extends d) (cancel_job e u i ip ua)" "keeps (audit_extends d) (admin_force_kill e u i ip ua)"
  unfolding cancel_job_def admin_force_kill_def repo_defs
  by (auto intro!: keeps_ledger keeps_audit_cancel)

lemma keeps_audit_logs: "keeps (audit_extends d) (append_logs e nd i xs)"
  unfolding append_logs_def job_log_repo_append_def repo_defs
  by (auto intro!: keeps_ledger split: sum.splits)

interpretation audit_log: step_contract audit_extends
  by unfold_locales
    (auto intro: after_keeps keeps_audit_services keeps_audit_job_services keeps_audit_logs)

section \<open>Credits\<close>

text \<open>No user disappears, changes address or gains credits.\<close>

definition credits_fall :: "db \<Rightarrow> db \<Rightarrow> bool" where
  "credits_fall d d' \<longleftrightarrow> (\<forall>i u. find_user i d = Some u \<longrightarrow>
     (\<exists>u'. find_user i d' = Some u' \<and> u_email u' = u_email u \<and>
        u_credits_gpu_hours u' \<le> u_credits_gpu_hours u))"

lemma credits_fall_same: "users d' = users d \<Longrightarrow> credits_fall d d'"
  by (simp add: credits_fall_def)

lemma credits_fall_add: "users d' = users d @ [u] \<Longrightarrow> credits_fall d d'"
  by (auto simp: credits_fall_def lookup_row_append)

lemma credits_fall_put:
  assumes "find_user i d = Some u" and "u_id u' = u_id u" and "u_email u' = u_email u"
    and "u_credits_gpu_hours u' \<le> u_credits_gpu_hours u" and "users d' = put_row u_id u' (users d)"
  shows "credits_fall d d'"
proof -
  have "u_id u = i" using assms(1) by (auto dest: lookup_row_SomeD)
  then show ?thesis using assms by (auto simp: credits_fall_def lookup_row_put)
qed

abbreviation users_are :: "user list \<Rightarrow> db \<Rightarrow> bool" where
  "users_are us w \<equiv> users w = us"

lemma after_users_are: "keeps (users_are (users d)) m \<Longrightarrow> after credits_fall m d"
proof -
  assume k: "keeps (users_are (users d)) m"
  have "wp m (\<lambda>_ s. users (committed s) = users d \<and> users (working s) = users d) (begin_session d)"
    using k by (simp add: keeps_def)
  then show ?thesis unfolding after_def by (rule wp_mono) (simp add: credits_fall_same)
qed

lemma keeps_users:
  "keeps (users_are us) (login e m pw ip ua)"
  "keeps (users_are us) (generate_key e u name ip ua)" "keeps (users_are us) (revoke_key e u i ip ua)"
  "keeps (users_are us) (list_audit_events e u t q ip' lo hi cur n ip ua)"
  "keeps (users_are us) (create_claim_token e u ip ua)"
  "keeps (users_are us) (register_node e tok gm mem gc nm ip ua)"
  "keeps (users_are us) (record_heartbeat e nd)" "keeps (users_are us) (record_metrics e nd ss)"
  "keeps (users_are us) (drain_node e u i ip ua actor ev)" "keeps (users_are us) (undrain_node e u i ip ua)"
  "keeps (users_are us) (admin_force_drain e u i ip ua)" "keeps (users_are us) (delete_node e u i ip ua actor)"
  "keeps (users_are us) (submit e u img cmd g dur p ip ua)" "keeps (users_are us) (claim_for_node e nd)"
  unfolding login_def login_failed_def generate_key_def revoke_key_def
    list_audit_events_def create_claim_token_def
    register_node_def record_heartbeat_def record_metrics_def drain_node_def undrain_node_def
    admin_force_drain_def delete_node_def get_owned_for_actor_def get_owned_node_def
    submit_def claim_for_node_def repo_defs Let_def
  by (auto intro!: keeps_audit keeps_intros simp: flush_node_def insert_api_key_def insert_claim_def
      insert_node_def insert_job_def upsert_metric_rows_def delete_node_row_def assign_job_def
      flush_job_def Let_def split: if_splits prod.splits)

lemma keeps_users_cancel: "keeps (users_are us) (cancel_or_request_cancel e j ev u uid extra ip ua)"
  unfolding cancel_or_request_cancel_def repo_defs Let_def
  by (auto intro!: keeps_audit keeps_intros simp: flush_job_def split: prod.splits)

lemma keeps_users_jobs:
  "keeps (users_are us) (cancel_job e u i ip ua)" "keeps (users_are us) (admin_force_kill e u i ip ua)"
  "keeps (users_are us) (append_logs e nd i xs)"
  unfolding cancel_job_def admin_force_kill_def append_logs_def job_log_repo_append_def repo_defs
  by (auto intro!: keeps_intros keeps_users_cancel simp: append_log_rows_def map_sum_snd_Inr
      split: sum.splits if_splits)

lemma wp_audit_users:
  assumes "\<And>err. Q (Inl err) s" and "\<And>a w. users w = users (working s) \<Longrightarrow> Q (Inr a) (s\<lparr>working := w\<rparr>)"
  shows "wp (audit_repo_create e i t u fs ip ua) Q s"
  using assms by (auto simp: audit_repo_create_def Let_def wp_simps dest: insert_audit_frame split: sum.splits)

lemma credits_fall_flush:
  assumes "find_user i d = Some u" and "flush_user e u u' d = Inr d'" and "u_id u' = u_id u"
    and "u_email u' = u_email u" and "u_credits_gpu_hours u' \<le> u_credits_gpu_hours u" and "users w = users d'"
  shows "credits_fall d w"
proof (cases "u' = u")
  case True
  with assms show ?thesis by (simp add: flush_user_def credits_fall_same)
next
  case False
  with assms(2) have "users d' = put_row u_id (u'\<lparr>u_updated_at := txn_now e\<rparr>) (users d)"
    by (auto simp: flush_user_def split: if_splits)
  with assms show ?thesis by (intro credits_fall_put [OF assms(1)]) auto
qed

lemma signup_credits: "after credits_fall (signup e m pw ip ua) d"
proof -
  have "credits_fall d w" if "insert_user u d = Inr d'" "users w = users d'" for u d' w
    using that by (intro credits_fall_add [where u = u]) (auto simp: insert_user_def split: if_splits)
  then show ?thesis
    by (auto simp: after_def signup_def user_repo_get_by_email_def user_repo_create_def Let_def wp_simps
        credits_fall_same split: option.splits sum.splits intro!: wp_audit_users)
qed

lemma suspend_credits: "after credits_fall (suspend_user e ad i ip ua) d"
  by (auto simp: after_def suspend_user_def get_user_by_id_def user_repo_get_by_id_def Let_def wp_simps
      credits_fall_same split: option.splits sum.splits intro!: wp_audit_users intro: credits_fall_flush)

lemma grant_credits: "db_ok d \<Longrightarrow> after credits_fall (grant_admin e m) d"
proof (cases "lookup_row u_email m (users d)")
  case (Some u)
  assume ok: "db_ok d"
  have "find_user (u_id u) d = Some u" using ok Some by (rule find_user_distinct)
  then show ?thesis using Some
    by (simp add: after_def grant_admin_def wp_simps) (rule credits_fall_put, assumption, simp_all)
qed (simp add: after_def grant_admin_def wp_simps credits_fall_same)

lemma bill_positive: "1 \<le> bill_gpu_hours a b g"
  by (simp add: bill_gpu_hours_def Let_def)

lemma charge_credits:
  assumes "flush_user e u (u\<lparr>u_credits_gpu_hours := max 0 (u_credits_gpu_hours u - bill_gpu_hours a b g)\<rparr>) d = Inr d'"
    and "find_user i d = Some u" and "db_ok d" and "users w = users d'"
  shows "credits_fall d w"
  using credits_nonneg [OF assms(3,2)] bill_positive [of a b g]
  by (intro credits_fall_flush [OF assms(2,1) _ _ _ assms(4)]) auto

lemma complete_credits: "db_ok d \<Longrightarrow> after credits_fall (complete_job e nd i code msg) d"
  by (auto simp: after_def complete_job_def charge_user_def user_repo_get_by_id_def job_repo_get_by_id_def
      job_repo_mark_terminal_def flush_job_def Let_def wp_simps credits_fall_same
      split: option.splits sum.splits intro!: wp_audit_users elim: charge_credits)

interpretation credits: step_contract_base credits_fall
  by unfold_locales
    (auto intro: credits_fall_same after_users_are keeps_users keeps_users_jobs signup_credits
      suspend_credits grant_credits complete_credits)

end
