(* ===== verification/Scenario.thy ===== *)
theory Scenario
  imports Ledger
begin

text \<open>
  A concrete run of the system, evaluated by the kernel: an environment in which hashing and
  tokens are simple functions, and the databases that a short sequence of requests leads to.
  The instances of the properties are stated on it.
\<close>

section \<open>A concrete environment\<close>

text \<open>\<open>demo_env k\<close> is the environment of the \<open>k\<close>-th request, ten minutes after the last.\<close>

definition demo_hash :: "string \<Rightarrow> string" where
  "demo_hash p = CHR ''#'' # p"

definition demo_time :: "int \<Rightarrow> datetime" where
  "demo_time k = 1700000000000000 + k * 600000000"

definition demo_env :: "int \<Rightarrow> env" where
  "demo_env k = \<lparr>config = default_settings, txn_now = demo_time k,
     clock = (\<lambda>n. demo_time k + 1000 * (1 + int n)), uuid4 = (\<lambda>n. word_of_int (k * 16 + int n)),
     token_urlsafe = (\<lambda>n. pad_digits 10 3 k @ ''token''),
     bcrypt_hashpw = demo_hash, bcrypt_checkpw = (\<lambda>p h. h = demo_hash p),
     jwt_encode = (\<lambda>payload secret alg. case json_get ''sub'' payload of
        Some (JStr s) \<Rightarrow> ''jwt.'' @ s | _ \<Rightarrow> []),
     jwt_decode = (\<lambda>token secret alg. if take 4 token = ''jwt.''
        then Some (JObj [(''sub'', JStr (drop 4 token))]) else None),
     validate_email = (\<lambda>m. if CHR ''@'' \<in> set m then Some m else None),
     ilike = (\<lambda>v p. v = p),
     json_loads_other = (\<lambda>_. None), fromisoformat_other = (\<lambda>_. None), row_locked = (\<lambda>_. False)\<rparr>"

definition demo_request :: "string option \<Rightarrow> http_request" where
  "demo_request cred = \<lparr>credentials = cred, client_host = Some ''10.0.0.1'', user_agent_header = None\<rparr>"

definition user_jwt :: "uuid \<Rightarrow> string" where
  "user_jwt i = ''jwt.'' @ str_uuid i"

section \<open>A run\<close>

definition as_user :: http_request where
  "as_user = demo_request (Some (user_jwt 16))"

definition as_agent :: http_request where
  "as_agent = demo_request (Some ''gpuagent_005token'')"

text \<open>
  A user signs up, becomes administrator and gets 40 GPU-hours, registers a node with two GPUs
  and submits two jobs, the second one reserved for that node.
\<close>

definition setup_actions :: "action list" where
  "setup_actions =
     [Http (demo_env 1) (demo_request None) (PostSignup ''a@x'' ''password''),
      GrantAdmin (demo_env 2) ''a@x'',
      Http (demo_env 3) as_user (PostApprove 16 True 40),
      Http (demo_env 4) as_user PostClaimToken,
      Http (demo_env 5) (demo_request None) (PostRegister \<lparr>g_claim_token = ''gpuclaim_004token'',
        g_gpu_model = ''A100'', g_gpu_memory_gb = 80, g_gpu_count = 2, g_suggested_name = None\<rparr>),
      Http (demo_env 6) as_user (PostJob \<lparr>r_docker_image = ''a/b:1'', r_command = [''run''],
        r_gpu_count = 1, r_max_duration_seconds = 3600, r_preferred_node_id = None\<rparr>),
      Http (demo_env 7) as_user (PostJob \<lparr>r_docker_image = ''c'', r_command = [''go''],
        r_gpu_count = 2, r_max_duration_seconds = 7200, r_preferred_node_id = Some 81\<rparr>)]"

section \<open>The databases it reaches\<close>

definition demo_queued :: db where
  "demo_queued = \<lparr>users =
       [\<lparr>u_id = 16, u_email = ''a@x'', u_password_hash = ''#password'',
           u_status = ''active'', u_can_host = True, u_can_rent = True,
           u_is_admin = True, u_credits_gpu_hours = 40,
           u_created_at = 1700000600000000, u_updated_at = 1700001800000000\<rparr>],
       api_keys = [],
       claim_tokens =
         [\<lparr>c_id = 64, c_user_id = 16, c_prefix = ''gpuclaim_004'',
             c_token_hash = ''#gpuclaim_004token'',
             c_expires_at = 1700088800001000,
             c_consumed_at = Some 1700003000003000,
             c_created_at = 1700002400000000\<rparr>],
       nodes =
         [\<lparr>n_id = 81, n_user_id = 16, n_name = ''node-000000'',
             n_gpu_model = ''A100'', n_gpu_memory_gb = 80, n_gpu_count = 2,
             n_status = ''online'', n_last_seen_at = Some 1700003000002000,
             n_agent_token_hash = Some ''#gpuagent_005token'',
             n_agent_token_prefix = Some ''gpuagent_005'',
             n_created_at = 1700003000000000\<rparr>],
       jobs =
         [\<lparr>j_id = 96, j_user_id = 16, j_docker_image = ''a/b:1'',
             j_command = [''run''], j_gpu_count = 1,
             j_max_duration_seconds = 3600, j_status = ''queued'',
             j_exit_code = None, j_error_message = None,
             j_assigned_node_id = None, j_preferred_node_id = None,
             j_created_at = 1700003600000000, j_started_at = None,
             j_completed_at = None, j_cancel_requested_at = None\<rparr>,
          \<lparr>j_id = 112, j_user_id = 16, j_docker_image = ''c'',
             j_command = [''go''], j_gpu_count = 2,
             j_max_duration_seconds = 7200, j_status = ''queued'',
             j_exit_code = None, j_error_message = None,
             j_assigned_node_id = None, j_preferred_node_id = Some 81,
             j_created_at = 1700004200000000, j_started_at = None,
             j_completed_at = None, j_cancel_requested_at = None\<rparr>],
       job_logs = [], node_metrics = [],
       audit_events =
         [\<lparr>a_id = 17, a_user_id = Some 16, a_event_type = ''auth.signup'',
             a_event_data = JObj [], a_ip_address = Some ''10.0.0.1'',
             a_user_agent = None, a_created_at = 1700000600000000\<rparr>,
          \<lparr>a_id = 48, a_user_id = Some 16, a_event_type = ''user.approved'',
             a_event_data =
               JObj
                [(''actor_user_id'',
                  JStr ''00000000-0000-0000-0000-000000000010''),
                 (''actor_email'', JStr ''a@x''), (''can_host'', JBool True),
                 (''credits_gpu_hours'', JInt 40)],
             a_ip_address = Some ''10.0.0.1'', a_user_agent = None,
             a_created_at = 1700001800000000\<rparr>,
          \<lparr>a_id = 65, a_user_id = Some 16,
             a_event_type = ''node.claim_token.created'',
             a_event_data =
               JObj
                [(''prefix'', JStr ''gpuclaim_004''),
                 (''expires_at'', JStr ''2023-11-15T22:53:20.001000+00:00'')],
             a_ip_address = Some ''10.0.0.1'', a_user_agent = None,
             a_created_at = 1700002400000000\<rparr>,
          \<lparr>a_id = 82, a_user_id = Some 16, a_event_type = ''node.registered'',
             a_event_data =
               JObj
                [(''node_id'', JStr ''00000000-0000-0000-0000-000000000051''),
                 (''gpu_model'', JStr ''A100''), (''gpu_memory_gb'', JInt 80),
                 (''gpu_count'', JInt 2),
                 (''claim_token_prefix'', JStr ''gpuclaim_004'')],
             a_ip_address = Some ''10.0.0.1'', a_user_agent = None,
             a_created_at = 1700003000000000\<rparr>,
          \<lparr>a_id = 97, a_user_id = Some 16, a_event_type = ''job.submitted'',
             a_event_data =
               JObj
                [(''job_id'', JStr ''00000000-0000-0000-0000-000000000060''),
                 (''docker_image'', JStr ''a/b:1''), (''gpu_count'', JInt 1),
                 (''max_duration_seconds'', JInt 3600),
                 (''preferred_node_id'', JNull)],
             a_ip_address = Some ''10.0.0.1'', a_user_agent = None,
             a_created_at = 1700003600000000\<rparr>,
          \<lparr>a_id = 113, a_user_id = Some 16, a_event_type = ''job.submitted'',
             a_event_data =
               JObj
                [(''job_id'', JStr ''00000000-0000-0000-0000-000000000070''),
                 (''docker_image'', JStr ''c''), (''gpu_count'', JInt 2),
                 (''max_duration_seconds'', JInt 7200),
                 (''preferred_node_id'',
                  JStr ''00000000-0000-0000-0000-000000000051'')],
             a_ip_address = Some ''10.0.0.1'', a_user_agent = None,
             a_created_at = 1700004200000000\<rparr>]\<rparr>"

definition demo_job :: job where
  "demo_job = hd (jobs demo_queued)"

definition demo_node :: node where
  "demo_node = hd (nodes demo_queued)"

definition demo_user :: user where
  "demo_user = hd (users demo_queued)"

text \<open>The databases on the way to \<open>demo_queued\<close>.\<close>

definition demo_stage :: "nat \<Rightarrow> db" where
  "demo_stage k =
     (if k = 0 then empty_db
      else demo_queued\<lparr>
        users := [if k = 1 then demo_user\<lparr>u_status := ''pending'', u_can_host := False,
                     u_is_admin := False, u_credits_gpu_hours := 0, u_updated_at := demo_time 1\<rparr>
                  else if k = 2 then demo_user\<lparr>u_can_host := False, u_credits_gpu_hours := 0,
                     u_updated_at := demo_time 2\<rparr>
                  else demo_user],
        claim_tokens := (if k < 4 then []
                  else if k = 4 then map (c_consumed_at_update (\<lambda>_. None)) (claim_tokens demo_queued)
                  else claim_tokens demo_queued),
        nodes := (if k < 5 then [] else nodes demo_queued),
        jobs := take (k - 5) (jobs demo_queued),
        audit_events := take (if k < 3 then 1 else k - 1) (audit_events demo_queued)\<rparr>)"

lemma demo_setup_0: "execute (setup_actions ! 0) (demo_stage 0) = demo_stage 1"
  by code_simp

lemma demo_setup_1: "execute (setup_actions ! 1) (demo_stage 1) = demo_stage 2"
  by code_simp

lemma demo_setup_2: "execute (setup_actions ! 2) (demo_stage 2) = demo_stage 3"
  by code_simp

lemma demo_setup_3: "execute (setup_actions ! 3) (demo_stage 3) = demo_stage 4"
  by code_simp

lemma demo_setup_4: "execute (setup_actions ! 4) (demo_stage 4) = demo_stage 5"
  by code_simp

lemma demo_setup_5: "execute (setup_actions ! 5) (demo_stage 5) = demo_stage 6"
  by code_simp

lemma demo_setup_6: "execute (setup_actions ! 6) (demo_stage 6) = demo_stage 7"
  by code_simp

lemma demo_setup_end: "demo_stage 7 = demo_queued"
  by code_simp

lemmas demo_setup = demo_setup_0 demo_setup_1 demo_setup_2 demo_setup_3 demo_setup_4 demo_setup_5
  demo_setup_6 demo_setup_end

definition demo_audit :: "int \<Rightarrow> string \<Rightarrow> (string \<times> json) list \<Rightarrow> string option \<Rightarrow> audit_log" where
  "demo_audit k t fs ip = \<lparr>a_id = word_of_int (k * 16), a_user_id = Some 16, a_event_type = t,
     a_event_data = JObj fs, a_ip_address = ip, a_user_agent = None, a_created_at = demo_time k\<rparr>"

text \<open>The first job is assigned, then its cancellation is requested, then it is completed.\<close>

definition demo_running :: db where
  "demo_running = demo_queued\<lparr>
     jobs := [demo_job\<lparr>j_status := ''running'', j_assigned_node_id := Some 81,
                j_started_at := Some 1700004800001000\<rparr>, last (jobs demo_queued)],
     audit_events := audit_events demo_queued @ [demo_audit 8 ''job.assigned''
       [(''job_id'', JStr (str_uuid 96)), (''node_id'', JStr (str_uuid 81)), (''gpu_count'', JInt 1)] None]\<rparr>"

definition demo_cancelling :: db where
  "demo_cancelling = demo_running\<lparr>
     jobs := [(hd (jobs demo_running))\<lparr>j_cancel_requested_at := Some 1700005400001000\<rparr>,
              last (jobs demo_queued)],
     audit_events := audit_events demo_running @ [demo_audit 9 ''job.cancelled''
       [(''job_id'', JStr (str_uuid 96)), (''phase'', JStr ''running''),
        (''actor_user_id'', JStr (str_uuid 16)), (''actor_email'', JStr ''a@x'')] (Some ''10.0.0.1'')]\<rparr>"

definition demo_finished :: db where
  "demo_finished = demo_running\<lparr>
     users := [demo_user\<lparr>u_credits_gpu_hours := 39, u_updated_at := demo_time 9\<rparr>],
     jobs := [(hd (jobs demo_running))\<lparr>j_status := ''completed'', j_exit_code := Some 0,
                j_completed_at := Some 1700005400002000\<rparr>, last (jobs demo_queued)],
     audit_events := audit_events demo_running @ [demo_audit 9 ''job.completed''
       [(''job_id'', JStr (str_uuid 96)), (''node_id'', JStr (str_uuid 81)), (''exit_code'', JInt 0),
        (''billed_gpu_hours'', JInt 1), (''error_message'', JNull)] None]\<rparr>"

definition demo_claim :: action where
  "demo_claim = Http (demo_env 8) as_agent PostClaim"

definition demo_cancel :: action where
  "demo_cancel = Http (demo_env 9) as_user (PostCancel 96)"

definition demo_complete :: action where
  "demo_complete = Http (demo_env 9) as_agent (PostComplete 96 0 None)"

lemma demo_claims: "execute demo_claim demo_queued = demo_running"
  by code_simp

lemma demo_cancels: "execute demo_cancel demo_running = demo_cancelling"
  by code_simp

lemma demo_completes: "execute demo_complete demo_running = demo_finished"
  by code_simp

lemmas demo_steps = demo_claims demo_cancels demo_completes

lemma reachable_demo_claimable: "reachable (demo_stage 4)"
proof -
  have "reachable (demo_stage 0)" by (simp add: demo_stage_def reachable_init)
  from this [THEN reachable_step, of "setup_actions ! 0", unfolded demo_setup,
      THEN reachable_step, of "setup_actions ! 1", unfolded demo_setup,
      THEN reachable_step, of "setup_actions ! 2", unfolded demo_setup,
      THEN reachable_step, of "setup_actions ! 3", unfolded demo_setup]
  show ?thesis .
qed

lemma reachable_demo_queued: "reachable demo_queued"
  using reachable_demo_claimable [THEN reachable_step, of "setup_actions ! 4", unfolded demo_setup,
      THEN reachable_step, of "setup_actions ! 5", unfolded demo_setup,
      THEN reachable_step, of "setup_actions ! 6", unfolded demo_setup] .

lemma reachable_demo:
  "reachable demo_running" "reachable demo_cancelling" "reachable demo_finished"
proof -
  show "reachable demo_running" using reachable_step [OF reachable_demo_queued] demo_steps(1) by metis
  then show "reachable demo_cancelling" "reachable demo_finished" using reachable_step demo_steps by metis+
qed

text \<open>An API key is made, and then it is revoked.\<close>

definition demo_key :: api_key where
  "demo_key = \<lparr>k_id = 128, k_user_id = 16, k_name = ''ci'', k_prefix = ''gpuk_008toke'',
     k_hash = ''#gpuk_008token'', k_created_at = demo_time 8, k_revoked_at = None\<rparr>"

definition demo_keyed :: db where
  "demo_keyed = demo_queued\<lparr>api_keys := [demo_key],
     audit_events := audit_events demo_queued @
       [(demo_audit 8 ''apikey.created'' [(''api_key_id'', JStr (str_uuid 128)), (''name'', JStr ''ci''),
          (''prefix'', JStr ''gpuk_008toke'')] (Some ''10.0.0.1''))\<lparr>a_id := 129\<rparr>]\<rparr>"

definition demo_revoked :: db where
  "demo_revoked = demo_keyed\<lparr>api_keys := [demo_key\<lparr>k_revoked_at := Some (demo_time 9 + 1000)\<rparr>],
     audit_events := audit_events demo_keyed @
       [demo_audit 9 ''apikey.revoked'' [(''api_key_id'', JStr (str_uuid 128)),
          (''prefix'', JStr ''gpuk_008toke'')] None]\<rparr>"

lemma demo_keys: "execute (Http (demo_env 8) as_user (PostKey ''ci'')) demo_queued = demo_keyed"
  by code_simp

lemma demo_revokes: "run_svc (revoke_key (demo_env 9) demo_user 128 None None) demo_keyed =
    (Inr (hd (api_keys demo_revoked)), demo_revoked)"
  by code_simp

lemma reachable_demo_keyed: "reachable demo_keyed"
  using reachable_step [OF reachable_demo_queued] demo_keys by metis

lemmas demo_ok = reachable_demo_queued [THEN reachable_ok] reachable_demo [THEN reachable_ok]

end
