(* ===== verification/CommandLine.thy ===== *)
theory CommandLine
  imports Scenario
begin

text \<open>
  \<open>main\<close> of \<open>app/cli.py\<close>: the command line around \<open>grant_admin\<close> and its exit codes.
\<close>

text \<open>\<open>argv\<close> is \<open>sys.argv[1:]\<close>; an exception that leaves \<open>main\<close> ends Python with exit code 1.\<close>

definition cli_main :: "env \<Rightarrow> string list \<Rightarrow> db \<Rightarrow> int \<times> db" where
  "cli_main e argv d =
     (if length argv \<noteq> 2 \<or> argv ! 0 \<noteq> ''grant-admin'' then (2, d)
      else case run_svc (grant_admin e (argv ! 1)) d of
          (Inr (Some _), d') \<Rightarrow> (0, d') | (_, d') \<Rightarrow> (1, d'))"

definition granted :: "env \<Rightarrow> user \<Rightarrow> user" where
  "granted e u = u\<lparr>u_is_admin := True, u_status := ''active'', u_updated_at := txn_now e\<rparr>"

text \<open>
  The exit code says what happened: 0 when the user of that address was made an active
  administrator, and the row of nobody else changed; 1 when there is no such user and 2 for a
  wrong usage, and then nothing changed.
\<close>

theorem cli_outcome:
  "cli_main e argv d =
     (case argv of
        [cmd, email] \<Rightarrow>
          if cmd \<noteq> ''grant-admin'' then (2, d)
          else (case lookup_row u_email email (users d) of
              None \<Rightarrow> (1, d)
            | Some u \<Rightarrow> (0, d\<lparr>users := put_row u_id (granted e u) (users d)\<rparr>))
      | _ \<Rightarrow> (2, d))"
  by (auto simp: cli_main_def grant_admin_def granted_def run_svc_def bindS_def thenS_def query_def ret_def
      modify_def commit_def begin_session_def split: list.splits option.splits)

text \<open>A run with the right usage is the action \<open>GrantAdmin\<close> of the state machine, any other is none.\<close>

lemma cli_action:
  "snd (cli_main e argv d) =
     (if length argv = 2 \<and> argv ! 0 = ''grant-admin'' then execute (GrantAdmin e (argv ! 1)) d else d)"
  by (auto simp: cli_main_def split: prod.split sum.split option.split)

lemma cli_reachable: "reachable d \<Longrightarrow> reachable (snd (cli_main e argv d))"
  by (simp only: cli_action split: if_split) (blast intro: reachable_step)

end
