(* ===== verification/JobTheorems.thy ===== *)
theory JobTheorems
  imports Scenario
begin

text \<open>
  The functional behaviour of the job service: scheduling, submission, completion with its
  billing, cancellation and logs, on every branch.
\<close>

section \<open>Scheduling\<close>

lemma sort_key_hd_min:
  "sort_key f xs = x # ys \<Longrightarrow> y \<in> set xs \<Longrightarrow> f x \<le> f y"
proof -
  assume s: "sort_key f xs = x # ys" and y: "y \<in> set xs"
  have "sorted (map f (x # ys))" using sorted_sort_key [of f xs] s by simp
  moreover have "y \<in> set (x # ys)" using y s by (metis set_sort)
  ultimately show ?thesis by auto
qed

lemma next_claimable_min:
  assumes "next_claimable e i g js = Some j" and "k \<in> set js" and "claimable e i g k"
  shows "job_key j \<le> job_key k"
proof -
  obtain ys where "sort_key job_key (filter (claimable e i g) js) = j # ys"
    using assms(1) by (auto simp: next_claimable_def split: list.splits)
  then show ?thesis by (rule sort_key_hd_min) (use assms(2,3) in simp)
qed

lemma next_claimable_None:
  "next_claimable e i g js = None \<longleftrightarrow> (\<forall>k \<in> set js. \<not> claimable e i g k)"
proof -
  have "next_claimable e i g js = None \<longleftrightarrow> sort_key job_key (filter (claimable e i g) js) = []"
    by (simp add: next_claimable_def split: list.splits)
  also have "\<dots> \<longleftrightarrow> filter (claimable e i g) js = []"
    by (metis set_empty set_sort)
  also have "\<dots> \<longleftrightarrow> (\<forall>k \<in> set js. \<not> claimable e i g k)" by (simp add: filter_empty_conv)
  finally show ?thesis .
qed

lemma wp_result: "run_svc m d = (r, d') \<longleftrightarrow> (\<exists>s. m (begin_session d) = (r, s) \<and> committed s = d')"
  by (auto simp: run_svc_def split: prod.splits)

text \<open>A postcondition that holds of a method holds of the result of its run.\<close>

lemma wp_run:
  "wp m (\<lambda>r s. P r (committed s)) (begin_session d) \<Longrightarrow> run_svc m d = (r, d') \<Longrightarrow> P r d'"
  by (auto simp: wp_def run_svc_def split: prod.splits)

lemma claim_result:
  assumes "run_svc (claim_for_node e nd) d = (Inr (Some j'), d')"
  shows "\<exists>j. next_claimable e (n_id nd) (n_gpu_count nd) (jobs d) = Some j \<and>
    j' = j\<lparr>j_status := RUNNING, j_assigned_node_id := Some (n_id nd), j_started_at := Some (clock e 0)\<rparr> \<and>
    jobs d' = put_row j_id j' (jobs d) \<and> n_status nd \<noteq> ''draining'' \<and>
    find (running_on (n_id nd)) (jobs d) = None"
proof -
  have "wp (claim_for_node e nd) (\<lambda>r s. r = Inr (Some j') \<longrightarrow>
      (\<exists>j. next_claimable e (n_id nd) (n_gpu_count nd) (jobs d) = Some j \<and>
    j' = j\<lparr>j_status := RUNNING, j_assigned_node_id := Some (n_id nd), j_started_at := Some (clock e 0)\<rparr> \<and>
    jobs (committed s) = put_row j_id j' (jobs d) \<and> n_status nd \<noteq> ''draining'' \<and>
    find (running_on (n_id nd)) (jobs d) = None)) (begin_session d)"
    by (auto simp: claim_for_node_def job_repo_get_running_for_node_def job_status_literals
        job_repo_claim_next_for_node_def assign_job_def flush_job_def Let_def wp_simps
        split: option.splits sum.splits if_splits intro!: wp_audit_jobs)
  from wp_run [OF this assms] show ?thesis by simp
qed

lemma claim_nothing:
  assumes "n_status nd = ''draining'' \<or> find (running_on (n_id nd)) (jobs d) \<noteq> None \<or>
    (\<forall>k \<in> set (jobs d). \<not> claimable e (n_id nd) (n_gpu_count nd) k)"
  shows "run_svc (claim_for_node e nd) d = (Inr None, d)"
  using assms next_claimable_None [of e "n_id nd" "n_gpu_count nd" "jobs d"]
  by (auto simp: claim_for_node_def job_repo_get_running_for_node_def job_repo_claim_next_for_node_def
      run_svc_def ret_def bindS_def query_def thenS_def rollback_def begin_session_def split: option.splits)

text \<open>
  C12. Scheduling is first in, first out: the job a node gets is, among the queued jobs that
  fit its GPUs, are not reserved for another node and are not locked, one with the least
  (creation time, id); it comes back running on that node, the committed queue differs in
  that row only, and the node was neither draining nor busy.
\<close>

theorem claim_fifo:
  assumes "run_svc (claim_for_node e nd) d = (Inr (Some j'), d')"
  shows "\<exists>j \<in> set (jobs d). claimable e (n_id nd) (n_gpu_count nd) j \<and>
    (\<forall>k \<in> set (jobs d). claimable e (n_id nd) (n_gpu_count nd) k \<longrightarrow> job_key j \<le> job_key k) \<and>
    j' = j\<lparr>j_status := RUNNING, j_assigned_node_id := Some (n_id nd), j_started_at := Some (clock e 0)\<rparr> \<and>
    jobs d' = put_row j_id j' (jobs d) \<and> n_status nd \<noteq> ''draining'' \<and>
    \<not> (\<exists>k \<in> set (jobs d). running_on (n_id nd) k)"
  using claim_result [OF assms] next_claimable_in next_claimable_min
  by (fastforce simp: find_None_iff)

theorem claim_fifo_witness:
  "\<exists>j'. run_svc (claim_for_node (demo_env 8) demo_node) demo_queued = (Inr (Some j'), demo_running) \<and>
    (\<exists>j \<in> set (jobs demo_queued). \<forall>k \<in> set (jobs demo_queued).
       claimable (demo_env 8) (n_id demo_node) (n_gpu_count demo_node) k \<longrightarrow> job_key j \<le> job_key k)"
proof -
  have "run_svc (claim_for_node (demo_env 8) demo_node) demo_queued =
      (Inr (Some (hd (jobs demo_running))), demo_running)" by code_simp
  from claim_fifo [OF this] this show ?thesis by blast
qed

text \<open>
  A node gets nothing, and nothing is written, when it is draining, when it already runs
  a job, and when no queued job is claimable for it.
\<close>

theorem claim_refused:
  assumes "n_status nd = ''draining'' \<or> (\<exists>k \<in> set (jobs d). running_on (n_id nd) k) \<or>
    (\<forall>k \<in> set (jobs d). \<not> claimable e (n_id nd) (n_gpu_count nd) k)"
  shows "run_svc (claim_for_node e nd) d = (Inr None, d)"
  using assms by (intro claim_nothing) (auto simp: find_None_iff)

theorem claim_refused_witness:
  "run_svc (claim_for_node (demo_env 9) demo_node) demo_running = (Inr None, demo_running)"
proof -
  have "\<exists>k \<in> set (jobs demo_running). running_on (n_id demo_node) k" by code_simp
  then show ?thesis by (intro claim_refused) blast
qed

section \<open>Submission\<close>

definition submit_audit ::
  "env \<Rightarrow> user \<Rightarrow> job \<Rightarrow> string option \<Rightarrow> string option \<Rightarrow> audit_log" where
  "submit_audit e u j ip ua = \<lparr>a_id = uuid4 e 1, a_user_id = Some (u_id u),
     a_event_type = ''job.submitted'',
     a_event_data = JObj [(''job_id'', JStr (str_uuid (j_id j))), (''docker_image'', JStr (j_docker_image j)),
       (''gpu_count'', JInt (j_gpu_count j)), (''max_duration_seconds'', JInt (j_max_duration_seconds j)),
       (''preferred_node_id'', json_opt_str (map_option str_uuid (j_preferred_node_id j)))],
     a_ip_address = ip, a_user_agent = ua, a_created_at = txn_now e\<rparr>"

lemma product_bounds:
  fixes g t :: int
  assumes "1 \<le> g" "g \<le> 64" "1 \<le> t" "t \<le> 604800"
  shows "0 \<le> g * t" "g * t < 2 ^ 53"
proof -
  have "g * t \<le> 64 * 604800" using assms by (intro mult_mono) auto
  then show "g * t < 2 ^ 53" by simp
  show "0 \<le> g * t" using assms by simp
qed

lemma run_submit:
  assumes "1 \<le> g" "g \<le> 64" "1 \<le> t" "t \<le> 604800"
    and "u_id u \<in> u_id ` set (users d)" and "uuid4 e 0 \<notin> j_id ` set (jobs d)"
    and "uuid4 e 1 \<notin> a_id ` set (audit_events d)"
  shows "run_svc (submit e u img cmd g t p ip ua) d =
    (let j = new_job e (uuid4 e 0) (u_id u) img cmd g t p in
     if u_status u \<noteq> ''active'' then (Inl (AccountNotActive (u_status u)), d)
     else if u_credits_gpu_hours u * 3600 < g * t
     then (Inl (InsufficientCredits (required_gpu_hours g t) (u_credits_gpu_hours u)), d)
     else if \<not> node_ref_ok d p then (Inl (IntegrityError ''jobs_preferred_node_id_fkey''), d)
     else (Inr j, d\<lparr>jobs := jobs d @ [j], audit_events := audit_events d @ [submit_audit e u j ip ua]\<rparr>))"
proof -
  have credits: "of_int (u_credits_gpu_hours u) < required_gpu_hours g t \<longleftrightarrow> u_credits_gpu_hours u * 3600 < g * t"
    using product_bounds [OF assms(1-4)] by (rule credits_below_required_iff)
  have "int4_ok g" "int4_ok t" using assms(1-4) by (simp_all add: int4_ok_def)
  with assms(5-7) credits show ?thesis
    by (simp add: run_svc_def submit_def Let_def throw_def bindS_def thenS_def job_repo_create_def
        modify_def ret_def commit_def audit_repo_create_def insert_job_def insert_audit_def new_job_def
        begin_session_def submit_audit_def)
qed

text \<open>
  C13. Submission, on every branch. For a request within the bounds of its model, from a user
  of the database: an account that is not active is refused (403), credits below
  gpu_count * max_duration_seconds / 3600, compared exactly although the code compares an
  int with a float, are refused (402), a preferred node that does not exist is refused by
  the database, and each refusal leaves the database as it was; otherwise exactly one queued
  job with what was asked and one audit event are appended.
\<close>

theorem submit_outcome:
  assumes "submit_request_ok r" and "u_id u \<in> u_id ` set (users d)"
    and "uuid4 e 0 \<notin> j_id ` set (jobs d)" and "uuid4 e 1 \<notin> a_id ` set (audit_events d)"
  shows "run_svc (submit e u (r_docker_image r) (r_command r) (r_gpu_count r) (r_max_duration_seconds r)
      (r_preferred_node_id r) ip ua) d =
    (let j = new_job e (uuid4 e 0) (u_id u) (r_docker_image r) (r_command r) (r_gpu_count r)
           (r_max_duration_seconds r) (r_preferred_node_id r) in
     if u_status u \<noteq> ''active'' then (Inl (AccountNotActive (u_status u)), d)
     else if u_credits_gpu_hours u * 3600 < r_gpu_count r * r_max_duration_seconds r
     then (Inl (InsufficientCredits (required_gpu_hours (r_gpu_count r) (r_max_duration_seconds r))
             (u_credits_gpu_hours u)), d)
     else if \<not> node_ref_ok d (r_preferred_node_id r)
     then (Inl (IntegrityError ''jobs_preferred_node_id_fkey''), d)
     else (Inr j, d\<lparr>jobs := jobs d @ [j], audit_events := audit_events d @ [submit_audit e u j ip ua]\<rparr>))"
  using submit_request_bounds [OF assms(1)] assms(2-4) by (intro run_submit) auto

definition demo_submit :: submit_request where
  "demo_submit = \<lparr>r_docker_image = ''c:2'', r_command = [''go''], r_gpu_count = 4,
     r_max_duration_seconds = 36001, r_preferred_node_id = None\<rparr>"

theorem submit_outcome_witness:
  "run_svc (submit (demo_env 9) demo_user (r_docker_image demo_submit) (r_command demo_submit)
      (r_gpu_count demo_submit) (r_max_duration_seconds demo_submit) (r_preferred_node_id demo_submit)
      None None) demo_queued =
    (Inl (InsufficientCredits (required_gpu_hours 4 36001) 40), demo_queued)"
proof -
  have h: "submit_request_ok demo_submit" "u_id demo_user \<in> u_id ` set (users demo_queued)"
    "uuid4 (demo_env 9) 0 \<notin> j_id ` set (jobs demo_queued)"
    "uuid4 (demo_env 9) 1 \<notin> a_id ` set (audit_events demo_queued)" by code_simp+
  have "u_status demo_user = ''active''" "u_credits_gpu_hours demo_user = 40" by code_simp+
  then show ?thesis using submit_outcome [OF h, of None None] by (simp add: demo_submit_def Let_def)
qed

section \<open>Completion and billing\<close>

definition complete_audit :: "env \<Rightarrow> node \<Rightarrow> job \<Rightarrow> int \<Rightarrow> string option \<Rightarrow> int \<Rightarrow> audit_log" where
  "complete_audit e nd j code msg billed = \<lparr>a_id = uuid4 e 0, a_user_id = Some (j_user_id j),
     a_event_type = ''job.'' @ completion_target j code,
     a_event_data = JObj [(''job_id'', JStr (str_uuid (j_id j))), (''node_id'', JStr (str_uuid (n_id nd))),
       (''exit_code'', JInt code), (''billed_gpu_hours'', JInt billed), (''error_message'', json_opt_str msg)],
     a_ip_address = None, a_user_agent = None, a_created_at = txn_now e\<rparr>"

text \<open>What completion makes of a running job.\<close>

definition completed_job :: "env \<Rightarrow> job \<Rightarrow> int \<Rightarrow> string option \<Rightarrow> job" where
  "completed_job e j code msg = j\<lparr>j_status := completion_target j code, j_exit_code := Some code,
     j_error_message := msg, j_completed_at := Some (clock e 1)\<rparr>"

lemma owner_found: "db_ok d \<Longrightarrow> j \<in> set (jobs d) \<Longrightarrow> \<exists>u. find_user (j_user_id j) d = Some u"
proof -
  assume "db_ok d" and "j \<in> set (jobs d)"
  then have "j_user_id j \<in> u_id ` set (users d)" using jobs_okD(3) [OF db_ok_jobs] by blast
  then show ?thesis using lookup_row_None [of u_id "j_user_id j" "users d"] by auto
qed

text \<open>Charging a user of the database succeeds and touches no other user.\<close>

lemma charge_outcome:
  assumes "db_ok d" and "find_user i d = Some u" and "0 \<le> c" and "c \<le> u_credits_gpu_hours u"
  shows "\<exists>us. flush_user e u (u\<lparr>u_credits_gpu_hours := c\<rparr>) d = Inr (d\<lparr>users := us\<rparr>) \<and>
    u_id ` set us = u_id ` set (users d) \<and>
    (\<exists>v. lookup_row u_id i us = Some v \<and> u_credits_gpu_hours v = c) \<and>
    (\<forall>k. k \<noteq> i \<longrightarrow> lookup_row u_id k us = lookup_row u_id k (users d))"
proof -
  have i: "u_id u = i" and "int4_ok (u_credits_gpu_hours u)"
    using assms(1,2) by (auto simp: db_ok_def users_ok_def dest!: lookup_row_SomeD)
  with assms(3,4) have ok: "int4_ok c" by (auto simp: int4_ok_def)
  show ?thesis
  proof (cases "c = u_credits_gpu_hours u")
    case True
    then have "u\<lparr>u_credits_gpu_hours := c\<rparr> = u" by simp
    then have "flush_user e u (u\<lparr>u_credits_gpu_hours := c\<rparr>) d = Inr (d\<lparr>users := users d\<rparr>)"
      by (simp add: flush_user_def)
    with True assms(2) show ?thesis by (intro exI [of _ "users d"]) auto
  next
    case False
    then have "u\<lparr>u_credits_gpu_hours := c\<rparr> \<noteq> u" by (metis user.select_convs(8) user.surjective user.update_convs(8))
    then have "flush_user e u (u\<lparr>u_credits_gpu_hours := c\<rparr>) d =
        Inr (d\<lparr>users := put_row u_id (u\<lparr>u_credits_gpu_hours := c, u_updated_at := txn_now e\<rparr>) (users d)\<rparr>)"
      using ok by (simp add: flush_user_def)
    with i assms(2) show ?thesis
      by (intro exI [of _ "put_row u_id (u\<lparr>u_credits_gpu_hours := c, u_updated_at := txn_now e\<rparr>) (users d)"])
        (simp add: keys_put lookup_row_put)
  qed
qed

text \<open>What the completion of a running job does.\<close>

lemma run_complete:
  assumes "db_ok d" and "find_job i d = Some j" and "j_assigned_node_id j = Some (n_id nd)"
    and "j_status j = RUNNING" and "find_user (j_user_id j) d = Some u" and "j_started_at j = Some t0"
    and "uuid4 e 0 \<notin> a_id ` set (audit_events d)"
  shows "\<exists>d' u'. run_svc (complete_job e nd i code msg) d = (Inr (completed_job e j code msg), d') \<and>
    find_user (j_user_id j) d' = Some u' \<and>
    u_credits_gpu_hours u' =
      max 0 (u_credits_gpu_hours u - bill_gpu_hours t0 (clock e 0) (j_gpu_count j)) \<and>
    (\<forall>k. k \<noteq> j_user_id j \<longrightarrow> find_user k d' = find_user k d) \<and>
    jobs d' = put_row j_id (completed_job e j code msg) (jobs d) \<and>
    audit_events d' = audit_events d @
      [complete_audit e nd j code msg (bill_gpu_hours t0 (clock e 0) (j_gpu_count j))]"
proof -
  define c where "c = max 0 (u_credits_gpu_hours u - bill_gpu_hours t0 (clock e 0) (j_gpu_count j))"
  have "0 \<le> c" "c \<le> u_credits_gpu_hours u"
    using credits_nonneg [OF assms(1,5)] bill_positive [of t0 "clock e 0" "j_gpu_count j"]
    by (auto simp: c_def)
  from charge_outcome [OF assms(1,5) this, of e] obtain us v where
    us: "flush_user e u (u\<lparr>u_credits_gpu_hours := c\<rparr>) d = Inr (d\<lparr>users := us\<rparr>)"
      "u_id ` set us = u_id ` set (users d)" "lookup_row u_id (j_user_id j) us = Some v"
      "u_credits_gpu_hours v = c" "\<forall>k. k \<noteq> j_user_id j \<longrightarrow> lookup_row u_id k us = lookup_row u_id k (users d)"
    by auto
  have allowed: "(RUNNING, completion_target j code) \<in> ALLOWED_TRANSITIONS"
    by (simp add: allowed_from_running completion_target_def)
  have owner: "j_user_id j \<in> u_id ` set (users d)" using assms(5) by (rule lookup_in_keys)
  let ?d = "d\<lparr>users := us, jobs := put_row j_id (completed_job e j code msg) (jobs d),
    audit_events := audit_events d @
      [complete_audit e nd j code msg (bill_gpu_hours t0 (clock e 0) (j_gpu_count j))]\<rparr>"
  have "run_svc (complete_job e nd i code msg) d = (Inr (completed_job e j code msg), ?d)"
    using assms(2-7) us(1,2) owner allowed
    by (simp add: run_svc_def complete_job_def charge_user_def user_repo_get_by_id_def
        job_repo_get_by_id_def job_repo_mark_terminal_def flush_job_def Let_def bindS_def thenS_def
        query_def modify_def ret_def commit_def audit_repo_create_def insert_audit_def
        assert_transition_def begin_session_def completed_job_def complete_audit_def c_def)
  then show ?thesis using us(3-5) by (auto simp: c_def)
qed

text \<open>
  C14. Billing: completing a running job on its node takes max 1 and the rounded-up GPU-hours
  from the owner's credits, down to zero at most, touches no other user, moves the job to the
  status its exit code and a requested cancellation decide, and records the amount in one
  audit event.
\<close>

theorem complete_bills_owner:
  assumes "db_ok d" and "find_job i d = Some j" and "j_assigned_node_id j = Some (n_id nd)"
    and "j_status j = RUNNING" and "find_user (j_user_id j) d = Some u" and "j_started_at j = Some t0"
    and "uuid4 e 0 \<notin> a_id ` set (audit_events d)"
  shows "\<exists>d' u'. run_svc (complete_job e nd i code msg) d = (Inr (completed_job e j code msg), d') \<and>
    find_user (j_user_id j) d' = Some u' \<and>
    u_credits_gpu_hours u' =
      max 0 (u_credits_gpu_hours u - bill_gpu_hours t0 (clock e 0) (j_gpu_count j)) \<and>
    (\<forall>k. k \<noteq> j_user_id j \<longrightarrow> find_user k d' = find_user k d) \<and>
    jobs d' = put_row j_id (completed_job e j code msg) (jobs d) \<and>
    audit_events d' = audit_events d @
      [complete_audit e nd j code msg (bill_gpu_hours t0 (clock e 0) (j_gpu_count j))]"
  using assms by (rule run_complete)

theorem complete_bills_owner_witness:
  "\<exists>d'. run_svc (complete_job (demo_env 9) demo_node 96 0 None) demo_running =
     (Inr (completed_job (demo_env 9) (hd (jobs demo_running)) 0 None), d') \<and>
   (\<exists>u'. find_user 16 d' = Some u' \<and>
      u_credits_gpu_hours u' = max 0 (40 - bill_gpu_hours 1700004800001000 (clock (demo_env 9) 0) 1))"
proof -
  have h: "find_job 96 demo_running = Some (hd (jobs demo_running))"
    "j_assigned_node_id (hd (jobs demo_running)) = Some (n_id demo_node)"
    "j_status (hd (jobs demo_running)) = RUNNING"
    "find_user (j_user_id (hd (jobs demo_running))) demo_running = Some demo_user"
    "j_started_at (hd (jobs demo_running)) = Some 1700004800001000"
    "uuid4 (demo_env 9) 0 \<notin> a_id ` set (audit_events demo_running)"
    "j_user_id (hd (jobs demo_running)) = 16" "j_gpu_count (hd (jobs demo_running)) = 1"
    "u_credits_gpu_hours demo_user = 40" by code_simp+
  from complete_bills_owner [OF demo_ok(2) h(1-6), of 0 None] h(7-9) show ?thesis by auto
qed

text \<open>
  A job is billed once: completing an unknown job or a job of another node is answered
  with not found, completing a job that is not running (one that is already finished, for
  instance) is an invalid transition, and in each case nothing is charged or written.
\<close>

theorem complete_refused:
  assumes "db_ok d"
    and "\<And>j. find_job i d = Some j \<Longrightarrow> j_assigned_node_id j = Some (n_id nd) \<Longrightarrow> j_status j \<noteq> RUNNING"
  shows "run_svc (complete_job e nd i code msg) d =
    (Inl (case find_job i d of
       None \<Rightarrow> JobNotFound (not_found_message ''job'' i)
     | Some j \<Rightarrow> if j_assigned_node_id j \<noteq> Some (n_id nd) then JobNotFound (not_found_message ''job'' i)
         else InvalidJobTransition (j_status j) (completion_target j code)), d)"
proof (cases "find_job i d")
  case None
  then show ?thesis
    by (simp add: run_svc_def complete_job_def job_repo_get_by_id_def bindS_def query_def throw_def
        begin_session_def)
next
  case (Some j)
  have "(j_status j, completion_target j code) \<notin> ALLOWED_TRANSITIONS"
    if "j_assigned_node_id j = Some (n_id nd)"
    using assms(2) [OF Some that] allowed_target_running [of j code] job_ok_found [OF assms(1) Some] by blast
  with Some show ?thesis
    by (simp add: run_svc_def complete_job_def job_repo_get_by_id_def Let_def bindS_def thenS_def
        query_def throw_def assert_transition_def begin_session_def)
qed

theorem complete_refused_witness:
  "run_svc (complete_job (demo_env 10) demo_node 96 1 None) demo_finished =
     (Inl (InvalidJobTransition COMPLETED FAILED), demo_finished)"
proof -
  have f: "find_job 96 demo_finished = Some (hd (jobs demo_finished))"
    "j_status (hd (jobs demo_finished)) = COMPLETED" "completion_target (hd (jobs demo_finished)) 1 = FAILED"
    "j_assigned_node_id (hd (jobs demo_finished)) = Some (n_id demo_node)" by code_simp+
  have "j_status j \<noteq> RUNNING" if "find_job 96 demo_finished = Some j" for j
    using that f(1,2) by auto
  then have "run_svc (complete_job (demo_env 10) demo_node 96 1 None) demo_finished =
    (Inl (case find_job 96 demo_finished of
       None \<Rightarrow> JobNotFound (not_found_message ''job'' 96)
     | Some j \<Rightarrow> if j_assigned_node_id j \<noteq> Some (n_id demo_node) then JobNotFound (not_found_message ''job'' 96)
         else InvalidJobTransition (j_status j) (completion_target j 1)), demo_finished)"
    by (intro complete_refused demo_ok)
  then show ?thesis by (simp add: f)
qed

section \<open>Cancellation\<close>

text \<open>What a cancellation makes of a job that is not finished.\<close>

definition cancelled_job :: "env \<Rightarrow> job \<Rightarrow> job" where
  "cancelled_job e j =
     (if j_status j = QUEUED
      then j\<lparr>j_status := CANCELLED, j_exit_code := None, j_error_message := Some ''cancelled by user'',
             j_completed_at := Some (clock e 0)\<rparr>
      else case j_cancel_requested_at j of
          None \<Rightarrow> j\<lparr>j_cancel_requested_at := Some (clock e 0)\<rparr> | Some _ \<Rightarrow> j)"

definition cancel_audit ::
  "env \<Rightarrow> job \<Rightarrow> string \<Rightarrow> user \<Rightarrow> uuid \<Rightarrow> (string \<times> json) list \<Rightarrow> string \<Rightarrow>
   string option \<Rightarrow> string option \<Rightarrow> audit_log" where
  "cancel_audit e j ev u uid extra phase ip ua = \<lparr>a_id = uuid4 e 0, a_user_id = Some uid, a_event_type = ev,
     a_event_data = JObj ([(''job_id'', JStr (str_uuid (j_id j))), (''phase'', JStr phase),
       (''actor_user_id'', JStr (str_uuid (u_id u))), (''actor_email'', JStr (u_email u))] @ extra),
     a_ip_address = ip, a_user_agent = ua, a_created_at = txn_now e\<rparr>"

lemma put_row_same:
  assumes "distinct (map key rows)" and "lookup_row key (key r) rows = Some r"
  shows "put_row key r rows = rows"
  unfolding put_row_def
proof (rule map_idI)
  fix x assume x: "x \<in> set rows"
  have "key x = key r \<Longrightarrow> r = x"
    using lookup_row_distinct [OF assms(1) x] assms(2) by (metis option.inject)
  then show "(if key x = key r then r else x) = x" by auto
qed

lemma open_status: "job_ok j \<Longrightarrow> j_status j \<notin> TERMINAL_STATUSES \<Longrightarrow> j_status j = QUEUED \<or> j_status j = RUNNING"
  unfolding job_ok_def TERMINAL_STATUSES_def by (simp only: insert_iff empty_iff) metis

lemma cancel_terminal:
  assumes "j_status j \<in> TERMINAL_STATUSES"
  shows "cancel_or_request_cancel e j ev u uid extra ip ua s = (Inl (InvalidJobTransition (j_status j) CANCELLED), s)"
  using allowed_from_terminal [OF assms] assms
  by (simp add: cancel_or_request_cancel_def thenS_def bindS_def throw_def assert_transition_def)

lemma cancel_run:
  assumes "db_ok d" and "find_job i d = Some j" and "j_status j \<notin> TERMINAL_STATUSES"
    and "uid \<in> u_id ` set (users d)" and "uuid4 e 0 \<notin> a_id ` set (audit_events d)"
  shows "cancel_or_request_cancel e j ev u uid extra ip ua (begin_session d) =
      (Inr (cancelled_job e j), begin_session (d\<lparr>jobs := put_row j_id (cancelled_job e j) (jobs d),
        audit_events := audit_events d @ [cancel_audit e j ev u uid extra (j_status j) ip ua]\<rparr>))"
proof -
  have j: "find_job (j_id j) d = Some j" using assms(2) by (rule find_job_current)
  have same: "put_row j_id j (jobs d) = jobs d"
    using jobs_ok_distinct [OF db_ok_jobs [OF assms(1)]] j by (rule put_row_same)
  have "j_status j = QUEUED \<or> j_status j = RUNNING"
    using job_ok_found [OF assms(1,2)] assms(3) by (rule open_status)
  then show ?thesis
  proof
    assume q: "j_status j = QUEUED"
    show ?thesis using assms(4,5) q
      by (simp add: cancel_or_request_cancel_def job_repo_mark_terminal_def flush_job_def Let_def bindS_def
          thenS_def modify_def ret_def commit_def audit_repo_create_def insert_audit_def begin_session_def
          cancelled_job_def cancel_audit_def job_status_literals)
  next
    assume r: "j_status j = RUNNING"
    show ?thesis using assms(4,5) r same
      by (cases "j_cancel_requested_at j";
          simp add: cancel_or_request_cancel_def job_repo_request_cancel_def flush_job_def Let_def bindS_def
          thenS_def modify_def ret_def commit_def audit_repo_create_def insert_audit_def begin_session_def
          cancelled_job_def cancel_audit_def job_status_literals)
  qed
qed

lemma run_found_job:
  "find_job i d = Some j \<Longrightarrow> bindS (job_repo_get_by_id i) f (begin_session d) = f (Some j) (begin_session d)"
  by (simp add: bindS_def job_repo_get_by_id_def query_def begin_session_def)

text \<open>
  C16. Cancellation by the owner: a queued job is cancelled at once; a running job keeps
  running with the time of the first request on it, and whatever exit code its node reports
  later, it finishes as cancelled. One audit event is appended; nobody is charged.
\<close>

theorem cancel_two_phases:
  assumes "db_ok d" and "find_job i d = Some j" and "j_user_id j = u_id u"
    and "j_status j \<notin> TERMINAL_STATUSES" and "uuid4 e 0 \<notin> a_id ` set (audit_events d)"
  shows "run_svc (cancel_job e u i ip ua) d =
      (Inr (cancelled_job e j), d\<lparr>jobs := put_row j_id (cancelled_job e j) (jobs d),
         audit_events := audit_events d @
           [cancel_audit e j ''job.cancelled'' u (u_id u) [] (j_status j) ip ua]\<rparr>) \<and>
    (if j_status j = QUEUED then j_status (cancelled_job e j) = CANCELLED
     else j_status (cancelled_job e j) = RUNNING \<and> j_cancel_requested_at (cancelled_job e j) \<noteq> None \<and>
       (\<forall>code. completion_target (cancelled_job e j) code = CANCELLED))"
proof -
  have status: "j_status j = QUEUED \<or> j_status j = RUNNING"
    using job_ok_found [OF assms(1,2)] assms(4) by (rule open_status)
  have owner: "u_id u \<in> u_id ` set (users d)"
    using owner_found [OF assms(1)] find_job_in [OF assms(2)] assms(3) lookup_in_keys by metis
  note run = cancel_run [OF assms(1,2,4) owner assms(5)]
  have "run_svc (cancel_job e u i ip ua) d =
      (Inr (cancelled_job e j), d\<lparr>jobs := put_row j_id (cancelled_job e j) (jobs d),
         audit_events := audit_events d @
           [cancel_audit e j ''job.cancelled'' u (u_id u) [] (j_status j) ip ua]\<rparr>)"
    using assms(3) by (simp add: run_svc_def cancel_job_def run_found_job [OF assms(2)] run)
  with status show ?thesis
    by (auto simp: cancelled_job_def completion_target_def split: option.splits)
qed

theorem cancel_two_phases_witness:
  "\<exists>a. run_svc (cancel_job (demo_env 9) demo_user 96 None None) demo_running =
     (Inr (cancelled_job (demo_env 9) (hd (jobs demo_running))),
      demo_running\<lparr>jobs := put_row j_id (cancelled_job (demo_env 9) (hd (jobs demo_running))) (jobs demo_running),
        audit_events := audit_events demo_running @ [a]\<rparr>)"
proof -
  have h: "find_job 96 demo_running = Some (hd (jobs demo_running))"
    "j_user_id (hd (jobs demo_running)) = u_id demo_user"
    "j_status (hd (jobs demo_running)) \<notin> TERMINAL_STATUSES"
    "uuid4 (demo_env 9) 0 \<notin> a_id ` set (audit_events demo_running)" by code_simp+
  from cancel_two_phases [OF demo_ok(2) h, of None None] show ?thesis by auto
qed

text \<open>
  C17. A job the caller does not own is not distinguished from one that does not exist, by
  reading, by reading its logs and by cancelling; a finished job cannot be cancelled (409);
  and none of this writes anything.
\<close>

theorem foreign_job_hidden:
  assumes "\<And>j. find_job i d = Some j \<Longrightarrow> j_user_id j \<noteq> u_id u"
  shows "run_svc (get_job_for_user u i) d = (Inl (JobNotFound (not_found_message ''job'' i)), d) \<and>
    run_svc (get_logs_for_user u i sq n) d = (Inl (JobNotFound (not_found_message ''job'' i)), d) \<and>
    run_svc (cancel_job e u i ip ua) d = (Inl (JobNotFound (not_found_message ''job'' i)), d)"
  using assms
  by (cases "find_job i d")
    (simp_all add: run_svc_def get_job_for_user_def get_logs_for_user_def cancel_job_def
      job_repo_get_by_id_def bindS_def query_def throw_def begin_session_def)

theorem foreign_job_hidden_witness:
  "run_svc (cancel_job (demo_env 9) (demo_user\<lparr>u_id := 17\<rparr>) 96 None None) demo_running =
     (Inl (JobNotFound (not_found_message ''job'' 96)), demo_running)"
proof -
  have f: "find_job 96 demo_running = Some (hd (jobs demo_running))"
    "j_user_id (hd (jobs demo_running)) = 16" by code_simp+
  have "j_user_id j \<noteq> u_id (demo_user\<lparr>u_id := 17\<rparr>)" if "find_job 96 demo_running = Some j" for j
    using that f by auto
  from foreign_job_hidden [of 96 demo_running "demo_user\<lparr>u_id := 17\<rparr>", OF this] show ?thesis by blast
qed

text \<open>
  A finished job cannot be cancelled, by its owner or by an administrator: the answer is
  an invalid transition (409) and nothing is written.
\<close>

theorem cancel_finished_refused:
  assumes "find_job i d = Some j" and "j_status j \<in> TERMINAL_STATUSES"
  shows "(j_user_id j = u_id u \<longrightarrow>
      run_svc (cancel_job e u i ip ua) d = (Inl (InvalidJobTransition (j_status j) CANCELLED), d)) \<and>
    run_svc (admin_force_kill e u i ip ua) d = (Inl (InvalidJobTransition (j_status j) CANCELLED), d)"
  by (simp add: run_svc_def cancel_job_def admin_force_kill_def run_found_job [OF assms(1)]
      cancel_terminal [OF assms(2)])

theorem cancel_finished_refused_witness:
  "run_svc (cancel_job (demo_env 10) demo_user 96 None None) demo_finished =
     (Inl (InvalidJobTransition COMPLETED CANCELLED), demo_finished)"
proof -
  have h: "find_job 96 demo_finished = Some (hd (jobs demo_finished))"
    "j_status (hd (jobs demo_finished)) \<in> TERMINAL_STATUSES"
    "j_status (hd (jobs demo_finished)) = COMPLETED"
    "j_user_id (hd (jobs demo_finished)) = u_id demo_user" by code_simp+
  from cancel_finished_refused [OF h(1,2), of demo_user] h(3,4) show ?thesis by simp
qed

end
