(* ===== verification/Concurrency.thy ===== *)
theory Concurrency
  imports JobTheorems
begin

text \<open>
  Requests that overlap in time. The transactions of the job service, of the nodes and of
  the administrators are written as sequences of the statements they issue, and a schedule says whose turn
  it is: every statement sees the committed database with the transaction's own writes (READ
  COMMITTED, PostgreSQL's default, which \<open>app/db.py\<close> does not change), an UPDATE locks its rows until the end of the
  transaction and waits for rows that another one has locked, and
  \<open>with_for_update(skip_locked=True)\<close> locks the row it returns and passes over locked ones.
\<close>

section \<open>Transactions as sequences of statements\<close>

datatype row_id = JobRow uuid | UserRow uuid | ClaimRow uuid | NodeRow uuid

datatype answer = AnswerJob "job option" | AnswerNode node "string option" | AnswerUser user

text \<open>
  \<open>SelectForUpdate\<close> is told which jobs others have locked; \<open>Write\<close> names the rows it locks.
  A transaction ends with what the request answers; what it did not commit is gone then.
\<close>

datatype txn =
    Finished "error + answer"
  | Select "db \<Rightarrow> txn"
  | SelectForUpdate "(uuid \<Rightarrow> bool) \<Rightarrow> db \<Rightarrow> job option" "job option \<Rightarrow> txn"
  | Write "row_id list" "db \<Rightarrow> error + db" txn
  | Commit txn
  | Rollback txn

record thread =
  program :: txn
  pending :: "(db \<Rightarrow> db) list"
  held :: "row_id list"

record system =
  shared :: db
  threads :: "thread list"

definition view :: "thread \<Rightarrow> db \<Rightarrow> db" where
  "view th d = fold (\<lambda>f. f) (pending th) d"

definition is_finished :: "txn \<Rightarrow> bool" where
  "is_finished p = (case p of Finished _ \<Rightarrow> True | _ \<Rightarrow> False)"

definition locked_by_others :: "nat \<Rightarrow> system \<Rightarrow> row_id \<Rightarrow> bool" where
  "locked_by_others t s r =
     list_ex (\<lambda>k. k \<noteq> t \<and> \<not> is_finished (program (threads s ! k)) \<and> r \<in> set (held (threads s ! k)))
       [0..<length (threads s)]"

definition written :: "(db \<Rightarrow> error + db) \<Rightarrow> db \<Rightarrow> db" where
  "written f d = (case f d of Inl _ \<Rightarrow> d | Inr d' \<Rightarrow> d')"

definition put_thread :: "nat \<Rightarrow> thread \<Rightarrow> system \<Rightarrow> system" where
  "put_thread t th s = s\<lparr>threads := (threads s)[t := th]\<rparr>"

text \<open>
  One turn of transaction \<open>t\<close>: its next statement, or nothing while it waits for a lock or
  when it has ended.
\<close>

definition step :: "nat \<Rightarrow> system \<Rightarrow> system" where
  "step t s =
     (if length (threads s) \<le> t then s
      else let th = threads s ! t; seen = view th (shared s); locked = locked_by_others t s in
        case program th of
          Finished _ \<Rightarrow> s
        | Select k \<Rightarrow> put_thread t (th\<lparr>program := k seen\<rparr>) s
        | SelectForUpdate pick k \<Rightarrow>
            (let found = pick (\<lambda>i. locked (JobRow i)) seen in
             put_thread t (th\<lparr>program := k found,
               held := (case found of None \<Rightarrow> held th | Some j \<Rightarrow> JobRow (j_id j) # held th)\<rparr>) s)
        | Write rows f p \<Rightarrow>
            (if list_ex locked rows then s
             else case f seen of
                Inl err \<Rightarrow> put_thread t \<lparr>program = Finished (Inl err), pending = [], held = []\<rparr> s
              | Inr _ \<Rightarrow> put_thread t \<lparr>program = p, pending = pending th @ [written f], held = rows @ held th\<rparr> s)
        | Commit p \<Rightarrow> put_thread t \<lparr>program = p, pending = [], held = []\<rparr> (s\<lparr>shared := seen\<rparr>)
        | Rollback p \<Rightarrow> put_thread t \<lparr>program = p, pending = [], held = []\<rparr> s)"

definition interleave :: "nat list \<Rightarrow> system \<Rightarrow> system" where
  "interleave sched s = fold step sched s"

text \<open>What every turn keeps, every schedule keeps.\<close>

locale schedule_invariant =
  fixes I :: "system \<Rightarrow> bool"
  assumes keeps_step: "I s \<Longrightarrow> I (step t s)"
begin

lemma keeps_schedule: "I s \<Longrightarrow> I (interleave sched s)"
  by (induction sched arbitrary: s) (simp_all add: interleave_def keeps_step)

end

definition result :: "nat \<Rightarrow> system \<Rightarrow> (error + answer) option" where
  "result t s = (case program (threads s ! t) of Finished r \<Rightarrow> Some r | _ \<Rightarrow> None)"

section \<open>The transactions\<close>

text \<open>An UPDATE sets the changed columns of one row, in whatever state it finds the row.\<close>

definition update_job :: "uuid \<Rightarrow> (job \<Rightarrow> job) \<Rightarrow> db \<Rightarrow> error + db" where
  "update_job i f d = Inr (d\<lparr>jobs := map (\<lambda>j. if j_id j = i then f j else j) (jobs d)\<rparr>)"

definition update_node :: "uuid \<Rightarrow> (node \<Rightarrow> node) \<Rightarrow> db \<Rightarrow> error + db" where
  "update_node i f d = Inr (d\<lparr>nodes := map (\<lambda>nd. if n_id nd = i then f nd else nd) (nodes d)\<rparr>)"

text \<open>
  An ORM object writes the attributes that differ from what was loaded; the others keep
  what the row holds by then.
\<close>

definition set_changed :: "'a \<Rightarrow> 'a \<Rightarrow> 'a \<Rightarrow> 'a" where
  "set_changed loaded new current = (if new = loaded then current else new)"

text \<open>A user that was loaded as \<open>u\<close> and changed to \<open>u'\<close>; without a change there is no UPDATE.\<close>

definition changed_user :: "user \<Rightarrow> user \<Rightarrow> user \<Rightarrow> user" where
  "changed_user u u' row = row\<lparr>
     u_status := set_changed (u_status u) (u_status u') (u_status row),
     u_can_host := set_changed (u_can_host u) (u_can_host u') (u_can_host row),
     u_credits_gpu_hours :=
       set_changed (u_credits_gpu_hours u) (u_credits_gpu_hours u') (u_credits_gpu_hours row)\<rparr>"

definition update_user :: "env \<Rightarrow> user \<Rightarrow> user \<Rightarrow> db \<Rightarrow> error + db" where
  "update_user e u u' d =
     (if \<not> int4_ok (u_credits_gpu_hours u') then Inl (DataError ''credits_gpu_hours'')
      else Inr (d\<lparr>users := map (\<lambda>row. if u_id row = u_id u
        then (changed_user u u' row)\<lparr>u_updated_at := txn_now e\<rparr> else row) (users d)\<rparr>))"

definition write_user :: "env \<Rightarrow> user \<Rightarrow> user \<Rightarrow> txn \<Rightarrow> txn" where
  "write_user e u u' p = (if u' = u then p else Write [UserRow (u_id u)] (update_user e u u') p)"

text \<open>\<open>session.refresh\<close> reads the row again, after the commit; no transaction here deletes a row.\<close>

definition refreshed :: "uuid \<Rightarrow> txn" where
  "refreshed i = Select (\<lambda>d. Finished (Inr (AnswerJob (find_job i d))))"

definition refreshed_node :: "node \<Rightarrow> string option \<Rightarrow> txn" where
  "refreshed_node nd token = Select (\<lambda>d. Finished (Inr (AnswerNode
     (case find_node (n_id nd) d of None \<Rightarrow> nd | Some nd' \<Rightarrow> nd') token)))"

definition refreshed_user :: "uuid \<Rightarrow> txn" where
  "refreshed_user i = Select (\<lambda>d. Finished (case find_user i d of
     None \<Rightarrow> Inl (UserNotFound (not_found_message ''user'' i)) | Some u \<Rightarrow> Inr (AnswerUser u)))"

definition audit_write ::
  "env \<Rightarrow> string \<Rightarrow> uuid \<Rightarrow> (string \<times> json) list \<Rightarrow> string option \<Rightarrow> string option \<Rightarrow> db \<Rightarrow> error + db" where
  "audit_write e ev i fs ip ua = insert_audit \<lparr>a_id = uuid4 e 0, a_user_id = Some i, a_event_type = ev,
     a_event_data = JObj fs, a_ip_address = ip, a_user_agent = ua, a_created_at = txn_now e\<rparr>"

text \<open>\<open>claim_for_node\<close> with \<open>claim_next_for_node\<close>.\<close>

definition assignment :: "env \<Rightarrow> node \<Rightarrow> job \<Rightarrow> job" where
  "assignment e nd j = j\<lparr>j_status := ''running'', j_assigned_node_id := Some (n_id nd), j_started_at := Some (clock e 0)\<rparr>"

definition claim_chosen :: "env \<Rightarrow> node \<Rightarrow> job \<Rightarrow> txn" where
  "claim_chosen e nd j =
     Write [JobRow (j_id j)]
       (\<lambda>d. if \<not> node_ref_ok d (Some (n_id nd)) then Inl (IntegrityError ''jobs_assigned_node_id_fkey'')
            else update_job (j_id j) (assignment e nd) d)
    (Write [] (audit_write e ''job.assigned'' (j_user_id j)
       [(''job_id'', JStr (str_uuid (j_id j))), (''node_id'', JStr (str_uuid (n_id nd))),
        (''gpu_count'', JInt (j_gpu_count j))] None None)
    (Commit (refreshed (j_id j))))"

definition claim_txn :: "env \<Rightarrow> node \<Rightarrow> txn" where
  "claim_txn e nd =
     (if n_status nd = ''draining'' then Finished (Inr (AnswerJob None))
      else Select (\<lambda>d. case find (running_on (n_id nd)) (jobs d) of
          Some _ \<Rightarrow> Finished (Inr (AnswerJob None))
        | None \<Rightarrow> SelectForUpdate
            (\<lambda>locked d. next_claimable (e\<lparr>row_locked := locked\<rparr>) (n_id nd) (n_gpu_count nd) (jobs d))
            (\<lambda>found. case found of None \<Rightarrow> Rollback (Finished (Inr (AnswerJob None))) | Some j \<Rightarrow> claim_chosen e nd j)))"

text \<open>\<open>mark_terminal\<close> of the loaded job.\<close>

definition terminal_update ::
  "job \<Rightarrow> datetime \<Rightarrow> string \<Rightarrow> int option \<Rightarrow> string option \<Rightarrow> job \<Rightarrow> job" where
  "terminal_update j now target code msg row = row\<lparr>
     j_status := set_changed (j_status j) target (j_status row),
     j_exit_code := set_changed (j_exit_code j) code (j_exit_code row),
     j_error_message := set_changed (j_error_message j) msg (j_error_message row),
     j_completed_at := set_changed (j_completed_at j) (Some now) (j_completed_at row)\<rparr>"

text \<open>\<open>complete_job\<close>: the new credits are computed from the credits that were read.\<close>

definition finish_job :: "env \<Rightarrow> node \<Rightarrow> job \<Rightarrow> string \<Rightarrow> int \<Rightarrow> int \<Rightarrow> string option \<Rightarrow> txn" where
  "finish_job e nd j target billed code msg =
     Write [JobRow (j_id j)] (update_job (j_id j) (terminal_update j (clock e 1) target (Some code) msg))
    (Write [] (audit_write e (''job.'' @ target) (j_user_id j)
       [(''job_id'', JStr (str_uuid (j_id j))), (''node_id'', JStr (str_uuid (n_id nd))),
        (''exit_code'', JInt code), (''billed_gpu_hours'', JInt billed),
        (''error_message'', json_opt_str msg)] None None)
    (Commit (refreshed (j_id j))))"

definition complete_txn :: "env \<Rightarrow> node \<Rightarrow> uuid \<Rightarrow> int \<Rightarrow> string option \<Rightarrow> txn" where
  "complete_txn e nd i code msg =
     Select (\<lambda>d. case find_job i d of
        None \<Rightarrow> Finished (Inl (JobNotFound (not_found_message ''job'' i)))
      | Some j \<Rightarrow>
        (if j_assigned_node_id j \<noteq> Some (n_id nd) then Finished (Inl (JobNotFound (not_found_message ''job'' i)))
         else let target = completion_target j code in
         if (j_status j, target) \<notin> ALLOWED_TRANSITIONS
         then Finished (Inl (InvalidJobTransition (j_status j) target))
         else let billed = bill_gpu_hours (case j_started_at j of None \<Rightarrow> clock e 0 | Some t \<Rightarrow> t)
                (clock e 0) (j_gpu_count j);
              finish = finish_job e nd j target billed code msg in
         Select (\<lambda>d. case find_user (j_user_id j) d of
            None \<Rightarrow> finish
          | Some u \<Rightarrow> write_user e u (u\<lparr>u_credits_gpu_hours := max 0 (u_credits_gpu_hours u - billed)\<rparr>) finish)))"

text \<open>
  \<open>_cancel_or_request_cancel\<close> and its two callers; the status is decided on before the row is
  locked.
\<close>

definition audit_cancel ::
  "env \<Rightarrow> job \<Rightarrow> string \<Rightarrow> user \<Rightarrow> uuid \<Rightarrow> (string \<times> json) list \<Rightarrow> string option \<Rightarrow> string option \<Rightarrow> string \<Rightarrow> txn" where
  "audit_cancel e j ev u uid extra ip ua phase =
     Write [] (audit_write e ev uid
       ([(''job_id'', JStr (str_uuid (j_id j))), (''phase'', JStr phase),
         (''actor_user_id'', JStr (str_uuid (u_id u))), (''actor_email'', JStr (u_email u))] @ extra) ip ua)
    (Commit (refreshed (j_id j)))"

definition cancel_found ::
  "env \<Rightarrow> job \<Rightarrow> string \<Rightarrow> user \<Rightarrow> uuid \<Rightarrow> (string \<times> json) list \<Rightarrow> string option \<Rightarrow> string option \<Rightarrow> txn" where
  "cancel_found e j ev u uid extra ip ua =
     (let record = audit_cancel e j ev u uid extra ip ua in
      if j_status j = QUEUED
      then Write [JobRow (j_id j)]
        (update_job (j_id j) (terminal_update j (clock e 0) CANCELLED None (Some ''cancelled by user'')))
        (record ''queued'')
      else if j_status j = RUNNING
      then (if j_cancel_requested_at j = None
            then Write [JobRow (j_id j)]
              (update_job (j_id j) (\<lambda>row. row\<lparr>j_cancel_requested_at := Some (clock e 0)\<rparr>))
              (record ''running'')
            else record ''running'')
      else if (j_status j, CANCELLED) \<notin> ALLOWED_TRANSITIONS
      then Finished (Inl (InvalidJobTransition (j_status j) CANCELLED))
      else record (j_status j))"

definition cancel_txn :: "env \<Rightarrow> user \<Rightarrow> uuid \<Rightarrow> string option \<Rightarrow> string option \<Rightarrow> txn" where
  "cancel_txn e u i ip ua =
     Select (\<lambda>d. case find_job i d of
        None \<Rightarrow> Finished (Inl (JobNotFound (not_found_message ''job'' i)))
      | Some j \<Rightarrow>
          (if j_user_id j \<noteq> u_id u then Finished (Inl (JobNotFound (not_found_message ''job'' i)))
           else cancel_found e j ''job.cancelled'' u (u_id u) [] ip ua))"

definition force_kill_txn :: "env \<Rightarrow> user \<Rightarrow> uuid \<Rightarrow> string option \<Rightarrow> string option \<Rightarrow> txn" where
  "force_kill_txn e admin i ip ua =
     Select (\<lambda>d. case find_job i d of
        None \<Rightarrow> Finished (Inl (JobNotFound (not_found_message ''job'' i)))
      | Some j \<Rightarrow> cancel_found e j ''admin.job.force_killed'' admin (j_user_id j)
          [(''target_user_id'', JStr (str_uuid (j_user_id j)))] ip ua)"

text \<open>
  \<open>submit\<close>: an INSERT locks no row that another transaction sees; keys that two overlapping
  requests draw with \<open>uuid4\<close> or \<open>token_urlsafe\<close> are taken to differ.
\<close>

definition submit_txn ::
  "env \<Rightarrow> user \<Rightarrow> string \<Rightarrow> string list \<Rightarrow> int \<Rightarrow> int \<Rightarrow> uuid option \<Rightarrow> string option \<Rightarrow> string option \<Rightarrow> txn" where
  "submit_txn e actor img cmd g dur pref ip ua =
     (if u_status actor \<noteq> ''active'' then Finished (Inl (AccountNotActive (u_status actor)))
      else let required_hours = required_gpu_hours g dur in
      if of_int (u_credits_gpu_hours actor) < required_hours
      then Finished (Inl (InsufficientCredits required_hours (u_credits_gpu_hours actor)))
      else Write [] (insert_job (new_job e (uuid4 e 0) (u_id actor) img cmd g dur pref))
     (Write [] (insert_audit \<lparr>a_id = uuid4 e 1, a_user_id = Some (u_id actor), a_event_type = ''job.submitted'',
          a_event_data = JObj [(''job_id'', JStr (str_uuid (uuid4 e 0))), (''docker_image'', JStr img),
            (''gpu_count'', JInt g), (''max_duration_seconds'', JInt dur),
            (''preferred_node_id'', json_opt_str (map_option str_uuid pref))],
          a_ip_address = ip, a_user_agent = ua, a_created_at = txn_now e\<rparr>)
     (Commit (refreshed (uuid4 e 0)))))"

text \<open>\<open>register_node\<close>: the claim token is read without a lock.\<close>

definition consume_claim :: "uuid \<Rightarrow> datetime \<Rightarrow> db \<Rightarrow> error + db" where
  "consume_claim i now d = Inr (d\<lparr>claim_tokens :=
     map (\<lambda>c. if c_id c = i then c\<lparr>c_consumed_at := Some now\<rparr> else c) (claim_tokens d)\<rparr>)"

definition new_node_row :: "env \<Rightarrow> claim_token \<Rightarrow> register_request \<Rightarrow> string \<Rightarrow> string \<Rightarrow> node" where
  "new_node_row e claim g agent_prefix agent_hash =
     \<lparr>n_id = uuid4 e 1, n_user_id = c_user_id claim, n_name = node_name e (g_suggested_name g),
      n_gpu_model = g_gpu_model g, n_gpu_memory_gb = g_gpu_memory_gb g, n_gpu_count = g_gpu_count g,
      n_status = ''online'', n_last_seen_at = Some (clock e 1), n_agent_token_hash = Some agent_hash,
      n_agent_token_prefix = Some agent_prefix, n_created_at = txn_now e\<rparr>"

definition register_claim ::
  "env \<Rightarrow> register_request \<Rightarrow> claim_token \<Rightarrow> string option \<Rightarrow> string option \<Rightarrow> txn" where
  "register_claim e g claim ip ua =
     (case generate_agent_token e of (agent_token, agent_prefix, agent_hash) \<Rightarrow>
      let nd = new_node_row e claim g agent_prefix agent_hash in
      Write [] (insert_node nd)
     (Write [ClaimRow (c_id claim)] (consume_claim (c_id claim) (clock e 2))
     (Write [] (insert_audit \<lparr>a_id = uuid4 e 2, a_user_id = Some (c_user_id claim),
        a_event_type = ''node.registered'',
        a_event_data = JObj [(''node_id'', JStr (str_uuid (n_id nd))), (''gpu_model'', JStr (g_gpu_model g)),
          (''gpu_memory_gb'', JInt (g_gpu_memory_gb g)), (''gpu_count'', JInt (g_gpu_count g)),
          (''claim_token_prefix'', JStr (claim_token_lookup_prefix (g_claim_token g)))],
        a_ip_address = ip, a_user_agent = ua, a_created_at = txn_now e\<rparr>)
     (Commit (refreshed_node nd (Some agent_token))))))"

definition register_txn :: "env \<Rightarrow> register_request \<Rightarrow> string option \<Rightarrow> string option \<Rightarrow> txn" where
  "register_txn e g ip ua =
     Select (\<lambda>d. case lookup_row c_prefix (claim_token_lookup_prefix (g_claim_token g)) (claim_tokens d) of
        None \<Rightarrow> Finished (Inl (ClaimTokenInvalid ''unknown token''))
      | Some claim \<Rightarrow>
        (if \<not> verify_claim_token e (g_claim_token g) (c_token_hash claim)
         then Finished (Inl (ClaimTokenInvalid ''unknown token''))
         else if c_consumed_at claim \<noteq> None then Finished (Inl (ClaimTokenInvalid ''already used''))
         else if c_expires_at claim \<le> clock e 0 then Finished (Inl (ClaimTokenInvalid ''expired''))
         else register_claim e g claim ip ua))"

text \<open>Heartbeats and the status of a node, each an UPDATE of one column.\<close>

definition heartbeat_txn :: "env \<Rightarrow> node \<Rightarrow> txn" where
  "heartbeat_txn e nd =
     (let finish = Commit (refreshed_node nd None) in
      if n_last_seen_at nd = Some (clock e 0) then finish
      else Write [NodeRow (n_id nd)]
        (update_node (n_id nd) (\<lambda>row. row\<lparr>n_last_seen_at := Some (clock e 0)\<rparr>)) finish)"

definition status_txn ::
  "env \<Rightarrow> node \<Rightarrow> string \<Rightarrow> string \<Rightarrow> user \<Rightarrow> (string \<times> json) list \<Rightarrow> string option \<Rightarrow> string option \<Rightarrow> txn" where
  "status_txn e nd st ev actor extra ip ua =
     Write [NodeRow (n_id nd)] (update_node (n_id nd) (\<lambda>row. row\<lparr>n_status := st\<rparr>))
    (Write [] (audit_write e ev (n_user_id nd)
       ([(''node_id'', JStr (str_uuid (n_id nd))), (''actor_user_id'', JStr (str_uuid (u_id actor))),
         (''actor_email'', JStr (u_email actor))] @ extra) ip ua)
    (Commit (refreshed_node nd None)))"

definition drain_txn ::
  "env \<Rightarrow> user \<Rightarrow> uuid \<Rightarrow> string option \<Rightarrow> string option \<Rightarrow> user option \<Rightarrow> string \<Rightarrow> txn" where
  "drain_txn e owner i ip ua actor ev =
     Select (\<lambda>d. case find_node i d of
        None \<Rightarrow> Finished (Inl (NodeNotFound (not_found_message ''node'' i)))
      | Some nd \<Rightarrow>
        (if \<not> (case actor of None \<Rightarrow> False | Some a \<Rightarrow> u_is_admin a) \<and> n_user_id nd \<noteq> u_id owner
         then Finished (Inl (NodeNotFound (not_found_message ''node'' i)))
         else if n_status nd \<noteq> ''draining''
         then status_txn e nd ''draining'' ev (acting_user owner actor) [] ip ua
         else Commit (refreshed_node nd None)))"

definition undrain_txn :: "env \<Rightarrow> user \<Rightarrow> uuid \<Rightarrow> string option \<Rightarrow> string option \<Rightarrow> txn" where
  "undrain_txn e owner i ip ua =
     Select (\<lambda>d. case find_node i d of
        None \<Rightarrow> Finished (Inl (NodeNotFound (not_found_message ''node'' i)))
      | Some nd \<Rightarrow>
        (if n_user_id nd \<noteq> u_id owner then Finished (Inl (NodeNotFound (not_found_message ''node'' i)))
         else if n_status nd \<noteq> ''draining''
         then Finished (Inl (NodeNotDraining (str_uuid (n_id nd)) (n_status nd)))
         else status_txn e nd ''online'' ''node.undrained'' owner [] ip ua))"

definition force_drain_txn :: "env \<Rightarrow> user \<Rightarrow> uuid \<Rightarrow> string option \<Rightarrow> string option \<Rightarrow> txn" where
  "force_drain_txn e admin i ip ua =
     Select (\<lambda>d. case find_node i d of
        None \<Rightarrow> Finished (Inl (NodeNotFound (not_found_message ''node'' i)))
      | Some nd \<Rightarrow>
        (if n_status nd \<noteq> ''draining''
         then status_txn e nd ''draining'' ''admin.node.force_drained'' admin
           [(''target_user_id'', JStr (str_uuid (n_user_id nd)))] ip ua
         else Commit (refreshed_node nd None)))"

text \<open>Approval and suspension of a user.\<close>

definition approve_txn ::
  "env \<Rightarrow> user \<Rightarrow> uuid \<Rightarrow> bool \<Rightarrow> int \<Rightarrow> string option \<Rightarrow> string option \<Rightarrow> txn" where
  "approve_txn e admin i host credits ip ua =
     Select (\<lambda>d. case find_user i d of
        None \<Rightarrow> Finished (Inl (UserNotFound (not_found_message ''user'' i)))
      | Some u \<Rightarrow> write_user e u
          (u\<lparr>u_status := ''active'', u_can_host := host, u_credits_gpu_hours := credits\<rparr>)
        (Write [] (audit_write e ''user.approved'' (u_id u)
           [(''actor_user_id'', JStr (str_uuid (u_id admin))), (''actor_email'', JStr (u_email admin)),
            (''can_host'', JBool host), (''credits_gpu_hours'', JInt credits)] ip ua)
        (Commit (refreshed_user i))))"

definition suspend_txn :: "env \<Rightarrow> user \<Rightarrow> uuid \<Rightarrow> string option \<Rightarrow> string option \<Rightarrow> txn" where
  "suspend_txn e admin i ip ua =
     Select (\<lambda>d. case find_user i d of
        None \<Rightarrow> Finished (Inl (UserNotFound (not_found_message ''user'' i)))
      | Some u \<Rightarrow> write_user e u (u\<lparr>u_status := ''suspended''\<rparr>)
        (Write [] (audit_write e ''user.suspended'' (u_id u)
           [(''actor_user_id'', JStr (str_uuid (u_id admin))), (''actor_email'', JStr (u_email admin))] ip ua)
        (Commit (refreshed_user i))))"

datatype operation =
    Register env register_request "string option" "string option"
  | Submit env user submit_request "string option" "string option"
  | Claim env node
  | Complete env node uuid int "string option"
  | Cancel env user uuid "string option" "string option"
  | ForceKill env user uuid "string option" "string option"
  | Heartbeat env node
  | Drain env user uuid "string option" "string option" "user option" string
  | Undrain env user uuid "string option" "string option"
  | ForceDrain env user uuid "string option" "string option"
  | Approve env user uuid bool int "string option" "string option"
  | Suspend env user uuid "string option" "string option"

definition program_of :: "operation \<Rightarrow> txn" where
  "program_of op = (case op of
       Register e g ip ua \<Rightarrow> register_txn e g ip ua
     | Submit e u p ip ua \<Rightarrow> submit_txn e u (r_docker_image p) (r_command p) (r_gpu_count p)
         (r_max_duration_seconds p) (r_preferred_node_id p) ip ua
     | Claim e nd \<Rightarrow> claim_txn e nd
     | Complete e nd i code msg \<Rightarrow> complete_txn e nd i code msg
     | Cancel e u i ip ua \<Rightarrow> cancel_txn e u i ip ua
     | ForceKill e u i ip ua \<Rightarrow> force_kill_txn e u i ip ua
     | Heartbeat e nd \<Rightarrow> heartbeat_txn e nd
     | Drain e u i ip ua actor ev \<Rightarrow> drain_txn e u i ip ua actor ev
     | Undrain e u i ip ua \<Rightarrow> undrain_txn e u i ip ua
     | ForceDrain e u i ip ua \<Rightarrow> force_drain_txn e u i ip ua
     | Approve e u i host credits ip ua \<Rightarrow> approve_txn e u i host credits ip ua
     | Suspend e u i ip ua \<Rightarrow> suspend_txn e u i ip ua)"

definition start :: "db \<Rightarrow> operation list \<Rightarrow> system" where
  "start d ops = \<lparr>shared = d, threads = map (\<lambda>op. \<lparr>program = program_of op, pending = [], held = []\<rparr>) ops\<rparr>"

end
