(* ===== verification/Serial.thy ===== *)
theory Serial
  imports Concurrency
begin

text \<open>
  Transactions that run one after another. A transaction that nobody disturbs behaves like a
  method on a session of its own, and the transactions of \<open>Concurrency\<close> then do exactly what
  the service operations of \<open>JobService\<close>, \<open>NodeService\<close> and \<open>AccountServices\<close> do.
\<close>

section \<open>One transaction alone\<close>

primrec solo :: "txn \<Rightarrow> session \<Rightarrow> (error + answer) \<times> db" where
  "solo (Finished r) s = (r, committed s)"
| "solo (Select k) s = solo (k (working s)) s"
| "solo (SelectForUpdate pick k) s = solo (k (pick (\<lambda>_. False) (working s))) s"
| "solo (Write rows f p) s =
     (case f (working s) of Inl err \<Rightarrow> (Inl err, committed s) | Inr d \<Rightarrow> solo p (s\<lparr>working := d\<rparr>))"
| "solo (Commit p) s = solo p (s\<lparr>committed := working s\<rparr>)"
| "solo (Rollback p) s = solo p (s\<lparr>working := committed s\<rparr>)"

text \<open>How many statements are left at most.\<close>

primrec lasts :: "txn \<Rightarrow> nat \<Rightarrow> bool" where
  "lasts (Finished r) n \<longleftrightarrow> True"
| "lasts (Select k) n \<longleftrightarrow> 0 < n \<and> (\<forall>d. lasts (k d) (n - 1))"
| "lasts (SelectForUpdate pick k) n \<longleftrightarrow> 0 < n \<and> (\<forall>found. lasts (k found) (n - 1))"
| "lasts (Write rows f p) n \<longleftrightarrow> 0 < n \<and> lasts p (n - 1)"
| "lasts (Commit p) n \<longleftrightarrow> 0 < n \<and> lasts p (n - 1)"
| "lasts (Rollback p) n \<longleftrightarrow> 0 < n \<and> lasts p (n - 1)"

lemma lasts_more: "lasts p n \<Longrightarrow> n \<le> m \<Longrightarrow> lasts p m"
  by (induction p arbitrary: n m) (auto, (meson diff_le_mono rangeI)+)

lemma lasts_program: "lasts (program_of op) 7"
  by (cases op) (simp_all add: program_of_def claim_txn_def claim_chosen_def complete_txn_def
      finish_job_def cancel_txn_def force_kill_txn_def cancel_found_def audit_cancel_def submit_txn_def
      register_txn_def register_claim_def generate_agent_token_def heartbeat_txn_def drain_txn_def undrain_txn_def
      force_drain_txn_def status_txn_def approve_txn_def suspend_txn_def write_user_def
      refreshed_def refreshed_node_def refreshed_user_def Let_def split: option.split)

definition session_of :: "thread \<Rightarrow> db \<Rightarrow> session" where
  "session_of th d = \<lparr>committed = d, working = view th d\<rparr>"

definition undisturbed :: "nat \<Rightarrow> system \<Rightarrow> bool" where
  "undisturbed t s \<longleftrightarrow> t < length (threads s) \<and> (\<forall>r. \<not> locked_by_others t s r)"

text \<open>A turn of an undisturbed transaction leaves the others where they are.\<close>

lemma step_others:
  "length (threads (step t s)) = length (threads s)"
  "k \<noteq> t \<Longrightarrow> threads (step t s) ! k = threads s ! k"
  by (auto simp: step_def Let_def put_thread_def split: txn.split sum.split option.split)

lemma locked_same:
  assumes "length (threads s') = length (threads s)" and "\<And>k. k \<noteq> t \<Longrightarrow> threads s' ! k = threads s ! k"
  shows "locked_by_others t s' r = locked_by_others t s r"
proof -
  have "list_ex (\<lambda>k. k \<noteq> t \<and> P (threads s' ! k)) ks = list_ex (\<lambda>k. k \<noteq> t \<and> P (threads s ! k)) ks" for P ks
    using assms(2) by (induction ks) auto
  from this [of "\<lambda>th. \<not> is_finished (program th) \<and> r \<in> set (held th)"] assms(1)
  show ?thesis by (simp add: locked_by_others_def)
qed

lemma undisturbed_step: "undisturbed t s \<Longrightarrow> undisturbed t (step t s)"
  by (simp add: undisturbed_def step_others locked_same [of "step t s" s])

lemma step_solo:
  assumes "undisturbed t s" and "\<not> is_finished (program (threads s ! t))"
  shows "solo (program (threads (step t s) ! t)) (session_of (threads (step t s) ! t) (shared (step t s))) =
    solo (program (threads s ! t)) (session_of (threads s ! t) (shared s))"
  using assms
  by (auto simp: step_def Let_def undisturbed_def put_thread_def session_of_def view_def written_def
      is_finished_def list_ex_iff split: txn.splits sum.splits option.splits)

lemma lasts_step:
  assumes "undisturbed t s" and "lasts (program (threads s ! t)) n"
  shows "lasts (program (threads (step t s) ! t)) (n - 1)"
  using assms
  by (auto simp: step_def Let_def undisturbed_def put_thread_def list_ex_iff
      split: txn.splits sum.splits option.splits)

lemma finished_step: "is_finished (program (threads s ! t)) \<Longrightarrow> step t s = s"
  by (auto simp: step_def is_finished_def Let_def split: txn.splits)

lemma interleave_Cons: "interleave (t # sched) s = interleave sched (step t s)"
  by (simp add: interleave_def)

lemma interleave_append: "interleave (xs @ ys) s = interleave ys (interleave xs s)"
  by (simp add: interleave_def)

lemma finished_stays:
  "is_finished (program (threads s ! t)) \<Longrightarrow> interleave (replicate n t) s = s"
  by (induction n) (simp_all add: interleave_Cons finished_step, simp add: interleave_def)

text \<open>Enough turns end it, with what \<open>solo\<close> computes.\<close>

lemma interleave_solo:
  assumes "undisturbed t s" and "lasts (program (threads s ! t)) n"
  shows "let s' = interleave (replicate n t) s; r = solo (program (threads s ! t)) (session_of (threads s ! t) (shared s))
    in program (threads s' ! t) = Finished (fst r) \<and> shared s' = snd r \<and>
       (\<forall>k. k \<noteq> t \<longrightarrow> threads s' ! k = threads s ! k) \<and> undisturbed t s'"
  using assms
proof (induction n arbitrary: s)
  case 0
  then show ?case
    by (cases "program (threads s ! t)") (simp_all add: interleave_def session_of_def)
next
  case (Suc n)
  show ?case
  proof (cases "is_finished (program (threads s ! t))")
    case True
    with Suc.prems finished_stays [OF True, of "Suc n"] show ?thesis
      by (cases "program (threads s ! t)") (simp_all add: is_finished_def session_of_def del: replicate_Suc)
  next
    case False
    have "lasts (program (threads (step t s) ! t)) n" using lasts_step [OF Suc.prems] by simp
    from Suc.IH [OF undisturbed_step [OF Suc.prems(1)] this] show ?thesis
      using step_solo [OF Suc.prems(1) False] step_others(2) [of _ t s]
      by (simp add: interleave_Cons Let_def)
  qed
qed

section \<open>The transactions are the service operations\<close>

definition service_of :: "operation \<Rightarrow> answer svc" where
  "service_of op = (case op of
     Register e g ip ua \<Rightarrow> bindS (register_node e (g_claim_token g) (g_gpu_model g) (g_gpu_memory_gb g)
       (g_gpu_count g) (g_suggested_name g) ip ua) (\<lambda>(nd, token). ret (AnswerNode nd (Some token)))
   | Submit e u p ip ua \<Rightarrow> bindS (submit e u (r_docker_image p) (r_command p) (r_gpu_count p)
       (r_max_duration_seconds p) (r_preferred_node_id p) ip ua) (\<lambda>j. ret (AnswerJob (Some j)))
   | Claim e nd \<Rightarrow> bindS (claim_for_node (e\<lparr>row_locked := \<lambda>_. False\<rparr>) nd) (\<lambda>found. ret (AnswerJob found))
   | Complete e nd i code msg \<Rightarrow> bindS (complete_job e nd i code msg) (\<lambda>j. ret (AnswerJob (Some j)))
   | Cancel e u i ip ua \<Rightarrow> bindS (cancel_job e u i ip ua) (\<lambda>j. ret (AnswerJob (Some j)))
   | ForceKill e u i ip ua \<Rightarrow> bindS (admin_force_kill e u i ip ua) (\<lambda>j. ret (AnswerJob (Some j)))
   | Heartbeat e nd \<Rightarrow> bindS (record_heartbeat e nd) (\<lambda>nd. ret (AnswerNode nd None))
   | Drain e u i ip ua actor ev \<Rightarrow> bindS (drain_node e u i ip ua actor ev) (\<lambda>nd. ret (AnswerNode nd None))
   | Undrain e u i ip ua \<Rightarrow> bindS (undrain_node e u i ip ua) (\<lambda>nd. ret (AnswerNode nd None))
   | ForceDrain e u i ip ua \<Rightarrow> bindS (admin_force_drain e u i ip ua) (\<lambda>nd. ret (AnswerNode nd None))
   | Approve e u i host credits ip ua \<Rightarrow>
       bindS (approve_user e u i host credits ip ua) (\<lambda>u. ret (AnswerUser u))
   | Suspend e u i ip ua \<Rightarrow> bindS (suspend_user e u i ip ua) (\<lambda>u. ret (AnswerUser u)))"

text \<open>
  What the handlers guarantee: the node that reports was just read, a submission is a valid
  request, and an approval grants no negative credits.
\<close>

definition admissible :: "db \<Rightarrow> operation \<Rightarrow> bool" where
  "admissible d op = (case op of Claim e nd \<Rightarrow> find_node (n_id nd) d = Some nd
     | Heartbeat e nd \<Rightarrow> find_node (n_id nd) d = Some nd
     | Submit e u p ip ua \<Rightarrow> submit_request_ok p
     | Approve e u i host credits ip ua \<Rightarrow> 0 \<le> credits | _ \<Rightarrow> True)"

lemma map_put:
  assumes "distinct (map key rows)" and "lookup_row key k rows = Some r" and "key r' = k" and "f r = r'"
  shows "map (\<lambda>x. if key x = k then f x else x) rows = put_row key r' rows"
  unfolding put_row_def
proof (rule map_cong [OF refl])
  fix x assume "x \<in> set rows"
  then have "x = r" if "key x = k" using lookup_row_distinct [OF assms(1)] assms(2) that by fastforce
  then show "(if key x = k then f x else x) = (if key x = key r' then r' else x)"
    using assms(3,4) by auto
qed

lemma update_job_put:
  assumes "distinct (map j_id (jobs d))" and "find_job i d = Some j" and "j_id (f j) = j_id j"
  shows "update_job (j_id j) f d = Inr (d\<lparr>jobs := put_row j_id (f j) (jobs d)\<rparr>)"
  using map_put [of j_id "jobs d" "j_id j" j "f j" f, OF assms(1) find_job_current [OF assms(2)] assms(3)]
  by (simp add: update_job_def)

lemma update_user_flush:
  assumes "db_ok d" and "find_user i d = Some u" and "changed_user u u' u = u'"
  shows "flush_user e u u' d = (if u' = u then Inr d else update_user e u u' d)"
proof -
  have id: "u_id u' = u_id u" using arg_cong [OF assms(3), of u_id] by (simp add: changed_user_def)
  have "find_user (u_id u) d = Some u" using assms(2) by (auto dest: lookup_row_SomeD)
  moreover have "distinct (map u_id (users d))" using assms(1) by (simp add: db_ok_def users_ok_def)
  ultimately show ?thesis
    using map_put [of u_id "users d" "u_id u" u "u'\<lparr>u_updated_at := txn_now e\<rparr>"
        "\<lambda>row. (changed_user u u' row)\<lparr>u_updated_at := txn_now e\<rparr>"] assms(3) id
    by (simp add: flush_user_def update_user_def)
qed

lemma changed_user_loaded:
  "changed_user u (u\<lparr>u_status := st, u_can_host := h, u_credits_gpu_hours := c\<rparr>) u =
    u\<lparr>u_status := st, u_can_host := h, u_credits_gpu_hours := c\<rparr>"
  "changed_user u (u\<lparr>u_status := st\<rparr>) u = u\<lparr>u_status := st\<rparr>"
  "changed_user u (u\<lparr>u_credits_gpu_hours := c\<rparr>) u = u\<lparr>u_credits_gpu_hours := c\<rparr>"
  by (cases u; simp add: changed_user_def set_changed_def)+

lemma solo_write_user:
  assumes "db_ok d" and "find_user i d = Some u" and "changed_user u u' u = u'" and "working s = d"
  shows "solo (write_user e u u' p) s = (case flush_user e u u' d of
    Inl err \<Rightarrow> (Inl err, committed s) | Inr d' \<Rightarrow> solo p (s\<lparr>working := d'\<rparr>))"
proof -
  have "solo p (s\<lparr>working := d\<rparr>) = solo p s" using assms(4) by (cases s) simp
  with assms(4) show ?thesis by (simp add: write_user_def update_user_flush [OF assms(1-3)])
qed

lemma update_node_put:
  assumes "db_ok d" and "find_node i d = Some nd" and "n_id (f nd) = n_id nd"
  shows "update_node (n_id nd) f d = Inr (d\<lparr>nodes := put_row n_id (f nd) (nodes d)\<rparr>)"
proof -
  have "distinct (map n_id (nodes d))" using assms(1) by (simp add: db_ok_def nodes_ok_def)
  moreover have "find_node (n_id nd) d = Some nd" using assms(2) by (auto dest: lookup_row_SomeD)
  ultimately show ?thesis
    using map_put [of n_id "nodes d" "n_id nd" nd "f nd" f] assms(3) by (simp add: update_node_def)
qed

lemmas session_defs = run_svc_def begin_session_def bindS_def thenS_def ret_def throw_def query_def
  modify_def commit_def rollback_def

lemma solo_refreshed: "solo (refreshed i) s = (Inr (AnswerJob (find_job i (working s))), committed s)"
  by (simp add: refreshed_def)

lemma node_refreshed:
  "solo (refreshed_node nd token) s =
    (Inr (AnswerNode (case find_node (n_id nd) (working s) of None \<Rightarrow> nd | Some nd' \<Rightarrow> nd') token), committed s)"
  by (simp add: refreshed_node_def)

lemma solo_claim:
  assumes "db_ok d"
  shows "solo (claim_txn e nd) (begin_session d) = 
    run_svc (bindS (claim_for_node (e\<lparr>row_locked := \<lambda>_. False\<rparr>) nd) (\<lambda>found. ret (AnswerJob found))) d"
proof (cases "n_status nd = ''draining'' \<or> find (running_on (n_id nd)) (jobs d) \<noteq> None \<or>
    next_claimable (e\<lparr>row_locked := \<lambda>_. False\<rparr>) (n_id nd) (n_gpu_count nd) (jobs d) = None")
  case True
  then show ?thesis
    by (auto simp: claim_txn_def claim_for_node_def job_repo_get_running_for_node_def
        job_repo_claim_next_for_node_def session_defs split: option.split)
next
  case False
  then obtain j where idle: "n_status nd \<noteq> ''draining''" "find (running_on (n_id nd)) (jobs d) = None"
    and next_job: "next_claimable (e\<lparr>row_locked := \<lambda>_. False\<rparr>) (n_id nd) (n_gpu_count nd) (jobs d) = Some j"
    by blast
  note ids = jobs_ok_distinct [OF db_ok_jobs [OF assms]]
  have "j \<in> set (jobs d)" using next_claimable_in [OF next_job] by simp
  then have j: "find_job (j_id j) d = Some j" by (rule lookup_row_distinct [OF ids])
  have id: "j_id (assignment e nd j) = j_id j" by (simp add: assignment_def)
  show ?thesis
    using idle next_job update_job_put [of d "j_id j" j "assignment e nd", OF ids j id] j id
    by (simp add: claim_txn_def claim_chosen_def claim_for_node_def job_repo_get_running_for_node_def
        job_repo_claim_next_for_node_def Let_def session_defs assign_job_def flush_job_def
        solo_refreshed audit_write_def audit_repo_create_def insert_audit_def lookup_row_put
        assignment_def split: sum.split)
qed

lemma terminal_update_loaded:
  "terminal_update j now target code msg j = j\<lparr>j_status := target, j_exit_code := code,
     j_error_message := msg, j_completed_at := Some now\<rparr>"
  by (simp add: terminal_update_def set_changed_def)

lemma j_id_terminal [simp]: "j_id (terminal_update j now target code msg row) = j_id row"
  by (simp add: terminal_update_def)

lemma solo_cancel_found:
  assumes "db_ok d" and "find_job i d = Some j"
  shows "solo (cancel_found e j ev u uid extra ip ua) (begin_session d) =
    run_svc (bindS (cancel_or_request_cancel e j ev u uid extra ip ua) (\<lambda>j. ret (AnswerJob (Some j)))) d"
proof (cases "j_status j \<in> TERMINAL_STATUSES")
  case True
  then show ?thesis
    by (auto simp: cancel_found_def session_defs cancel_terminal allowed_from_terminal Let_def)
next
  case False
  note ids = jobs_ok_distinct [OF db_ok_jobs [OF assms(1)]]
  note found = find_job_current [OF assms(2)]
  have same: "put_row j_id j (jobs d) = jobs d" by (rule put_row_same [OF ids found])
  have "j_status j = QUEUED \<or> j_status j = RUNNING"
    using job_ok_found [OF assms] False by (rule open_status)
  with found False same show ?thesis
    by (auto simp: cancel_found_def cancel_or_request_cancel_def session_defs
        job_repo_mark_terminal_def job_repo_request_cancel_def flush_job_def Let_def
        audit_cancel_def solo_refreshed audit_write_def audit_repo_create_def insert_audit_def
        lookup_row_put update_job_put [OF ids assms(2)] terminal_update_loaded
        QUEUED_def RUNNING_def split: sum.split option.split)
qed

lemma run_bind_found:
  "run_svc (bindS (bindS (job_repo_get_by_id i) f) g) d = run_svc (bindS (f (find_job i d)) g) d"
  by (simp add: run_svc_def bindS_def job_repo_get_by_id_def query_def begin_session_def)

lemma run_throw: "run_svc (bindS (throw err) g) d = (Inl err, d)"
  by (simp add: session_defs)

lemma solo_cancel:
  assumes "db_ok d"
  shows "solo (cancel_txn e u i ip ua) (begin_session d) =
      run_svc (bindS (cancel_job e u i ip ua) (\<lambda>j. ret (AnswerJob (Some j)))) d"
    and "solo (force_kill_txn e u i ip ua) (begin_session d) =
      run_svc (bindS (admin_force_kill e u i ip ua) (\<lambda>j. ret (AnswerJob (Some j)))) d"
  by (cases "find_job i d"; simp add: cancel_txn_def force_kill_txn_def cancel_job_def admin_force_kill_def
      run_bind_found run_throw solo_cancel_found [OF assms])+

lemma solo_submit:
  "solo (submit_txn e u img cmd g dur pref ip ua) (begin_session d) =
    run_svc (bindS (submit e u img cmd g dur pref ip ua) (\<lambda>j. ret (AnswerJob (Some j)))) d"
proof -
  have new: "find_job (uuid4 e 0) d' = Some (new_job e (uuid4 e 0) k img cmd g dur pref)"
    if "insert_job (new_job e (uuid4 e 0) k img cmd g dur pref) d = Inr d'" for d' k
  proof -
    from that have "uuid4 e 0 \<notin> j_id ` set (jobs d)"
      and "d' = d\<lparr>jobs := jobs d @ [new_job e (uuid4 e 0) k img cmd g dur pref]\<rparr>"
      by (auto simp: insert_job_def new_job_def split: if_splits)
    then show ?thesis
      using lookup_row_None [of j_id "uuid4 e 0" "jobs d"] by (simp add: lookup_row_append new_job_def)
  qed
  show ?thesis
  proof (cases "u_status u \<noteq> ''active'' \<or> of_int (u_credits_gpu_hours u) < required_gpu_hours g dur")
    case True
    then show ?thesis by (auto simp: submit_txn_def submit_def session_defs Let_def)
  next
    case False
    then show ?thesis
    proof (cases "insert_job (new_job e (uuid4 e 0) (u_id u) img cmd g dur pref) d")
      case (Inr d')
      have "j_id (new_job e (uuid4 e 0) (u_id u) img cmd g dur pref) = uuid4 e 0" by (simp add: new_job_def)
      with False Inr new [OF Inr] show ?thesis
        by (simp add: submit_txn_def submit_def job_repo_create_def session_defs Let_def solo_refreshed
            audit_repo_create_def insert_audit_def split: sum.split)
    qed (simp add: submit_txn_def submit_def job_repo_create_def session_defs Let_def)
  qed
qed

lemma solo_complete:
  assumes "db_ok d"
  shows "solo (complete_txn e nd i code msg) (begin_session d) =
    run_svc (bindS (complete_job e nd i code msg) (\<lambda>j. ret (AnswerJob (Some j)))) d"
proof (cases "\<exists>j. find_job i d = Some j \<and> j_assigned_node_id j = Some (n_id nd) \<and>
    (j_status j, completion_target j code) \<in> ALLOWED_TRANSITIONS")
  case False
  then show ?thesis
    by (auto simp: complete_txn_def complete_job_def job_repo_get_by_id_def assert_transition_def
        session_defs Let_def split: option.split)
next
  case True
  then obtain j where j: "find_job i d = Some j" "j_assigned_node_id j = Some (n_id nd)"
    "(j_status j, completion_target j code) \<in> ALLOWED_TRANSITIONS" by blast
  note ids = jobs_ok_distinct [OF db_ok_jobs [OF assms]]
  define billed where "billed = bill_gpu_hours (case j_started_at j of None \<Rightarrow> clock e 0 | Some t \<Rightarrow> t)
    (clock e 0) (j_gpu_count j)"
  obtain u where u: "find_user (j_user_id j) d = Some u"
    using owner_found [OF assms] find_job_in [OF j(1)] by blast
  define u' where "u' = u\<lparr>u_credits_gpu_hours := max 0 (u_credits_gpu_hours u - billed)\<rparr>"
  have loaded: "changed_user u u' u = u'" by (simp add: u'_def changed_user_loaded)
  have update: "update_job (j_id j) (terminal_update j (clock e 1) target (Some code) msg) d' =
      Inr (d'\<lparr>jobs := put_row j_id (j\<lparr>j_status := target, j_exit_code := Some code,
        j_error_message := msg, j_completed_at := Some (clock e 1)\<rparr>) (jobs d)\<rparr>)"
    if "jobs d' = jobs d" for d' :: db and target
    using update_job_put [of d' i j "terminal_update j (clock e 1) target (Some code) msg"] that ids j(1)
    by (simp add: terminal_update_loaded)
  have frame: "jobs d' = jobs d" if "flush_user e u u' d = Inr d'" for d'
    using that by (auto simp: flush_user_def split: if_splits)
  note now = find_job_current [OF j(1)]
  note defs = complete_txn_def finish_job_def complete_job_def charge_user_def user_repo_get_by_id_def
    job_repo_get_by_id_def job_repo_mark_terminal_def flush_job_def assert_transition_def session_defs Let_def
    solo_refreshed audit_write_def audit_repo_create_def insert_audit_def lookup_row_put
  show ?thesis
  proof (cases "flush_user e u u' d")
    case (Inl err)
    with j u show ?thesis
      by (simp add: defs billed_def [symmetric] u'_def [symmetric] solo_write_user [OF assms u loaded])
  next
    case (Inr d')
    with j u now update [OF frame [OF Inr]] frame [OF Inr] show ?thesis
      by (simp add: defs billed_def [symmetric] u'_def [symmetric] solo_write_user [OF assms u loaded]
          split: sum.split)
  qed
qed

lemma solo_register:
  assumes "db_ok d"
  shows "solo (register_txn e g ip ua) (begin_session d) =
    run_svc (bindS (register_node e (g_claim_token g) (g_gpu_model g) (g_gpu_memory_gb g)
      (g_gpu_count g) (g_suggested_name g) ip ua) (\<lambda>(nd, token). ret (AnswerNode nd (Some token)))) d"
proof (cases "\<exists>c. lookup_row c_prefix (claim_token_lookup_prefix (g_claim_token g)) (claim_tokens d) = Some c \<and>
    verify_claim_token e (g_claim_token g) (c_token_hash c) \<and> c_consumed_at c = None \<and> clock e 0 < c_expires_at c")
  case False
  then show ?thesis
    by (auto simp: register_txn_def register_node_def claim_repo_get_by_prefix_def session_defs Let_def not_le
        split: option.split)
next
  case True
  then obtain c where c: "lookup_row c_prefix (claim_token_lookup_prefix (g_claim_token g)) (claim_tokens d) = Some c"
    and ok: "verify_claim_token e (g_claim_token g) (c_token_hash c)" "c_consumed_at c = None" "clock e 0 < c_expires_at c"
    by blast
  obtain token prefix h where token: "generate_agent_token e = (token, prefix, h)" by (cases "generate_agent_token e")
  define nd where "nd = new_node_row e c g prefix h"
  have ids: "distinct (map c_id (claim_tokens d))" using assms by (simp add: db_ok_def claims_ok_def)
  have consume: "consume_claim (c_id c) now d' = Inr (d'\<lparr>claim_tokens := put_row c_id (c\<lparr>c_consumed_at := Some now\<rparr>) (claim_tokens d)\<rparr>)"
    if "claim_tokens d' = claim_tokens d" for d' :: db and now
    using map_put [of c_id "claim_tokens d" "c_id c" c "c\<lparr>c_consumed_at := Some now\<rparr>"
        "\<lambda>c. c\<lparr>c_consumed_at := Some now\<rparr>", OF ids find_claim_distinct [OF assms c]] that
    by (simp add: consume_claim_def)
  show ?thesis
  proof (cases "insert_node nd d")
    case (Inl err)
    with c ok token show ?thesis
      by (simp add: register_txn_def register_claim_def register_node_def claim_repo_get_by_prefix_def
          node_repo_create_def session_defs Let_def nd_def new_node_row_def)
  next
    case (Inr d')
    then have d': "d' = d\<lparr>nodes := nodes d @ [nd]\<rparr>" and new: "n_id nd \<notin> n_id ` set (nodes d)"
      by (auto simp: insert_node_def split: if_splits)
    then have "find_node (n_id nd) d' = Some nd"
      using lookup_row_None [of n_id "n_id nd" "nodes d"] by (simp add: lookup_row_append)
    moreover have "insert_node nd d = Inr d'" "claim_tokens d' = claim_tokens d" "nodes d' = nodes d @ [nd]"
      using Inr d' by simp_all
    ultimately show ?thesis
      using c ok token consume [of d']
      by (simp add: register_txn_def register_claim_def register_node_def claim_repo_get_by_prefix_def
          claim_repo_mark_consumed_def audit_repo_create_def insert_audit_def node_repo_create_def session_defs
          node_refreshed Let_def nd_def new_node_row_def split: sum.split)
  qed
qed

lemma found_put_node:
  assumes "find_node i d = Some nd"
  shows "find_node (n_id nd) d = Some nd" and
    "lookup_row n_id (n_id nd) (put_row n_id (nd\<lparr>n_status := st\<rparr>) (nodes d)) = Some (nd\<lparr>n_status := st\<rparr>)" and
    "lookup_row n_id (n_id nd) (put_row n_id (nd\<lparr>n_last_seen_at := t\<rparr>) (nodes d)) = Some (nd\<lparr>n_last_seen_at := t\<rparr>)"
  using lookup_row_SomeD [OF assms] assms by (auto simp: lookup_row_put)

lemma solo_heartbeat:
  assumes "db_ok d" and nd: "find_node (n_id nd) d = Some nd"
  shows "solo (heartbeat_txn e nd) (begin_session d) =
    run_svc (bindS (record_heartbeat e nd) (\<lambda>nd. ret (AnswerNode nd None))) d"
proof -
  have same: "put_row n_id nd (nodes d) = nodes d"
    using nd assms(1) by (intro put_row_same) (auto simp: db_ok_def nodes_ok_def)
  have loaded: "put_row n_id (nd\<lparr>n_last_seen_at := Some (clock e 0)\<rparr>) (nodes d) = nodes d"
    if "n_last_seen_at nd = Some (clock e 0)"
  proof -
    have "nd\<lparr>n_last_seen_at := Some (clock e 0)\<rparr> = nd" using that by (cases nd) simp
    with same show ?thesis by (simp only:)
  qed
  note defs = heartbeat_txn_def record_heartbeat_def node_repo_update_last_seen_def flush_node_def
    node_refreshed Let_def session_defs
  show ?thesis
  proof (cases "n_last_seen_at nd = Some (clock e 0)")
    case True
    then show ?thesis using nd loaded by (simp add: defs)
  next
    case False
    then show ?thesis
      using update_node_put [OF assms, of "\<lambda>row. row\<lparr>n_last_seen_at := Some (clock e 0)\<rparr>"] nd
      by (simp add: defs found_put_node)
  qed
qed

lemma solo_status:
  assumes "db_ok d" and nd: "find_node i d = Some nd"
  shows "solo (status_txn e nd st ev actor extra ip ua) (begin_session d) =
    run_svc (bindS (bindS (node_repo_set_status nd st) (\<lambda>node'.
       thenS (audit_repo_create e (uuid4 e 0) ev (Some (n_user_id nd))
         (Some ([(''node_id'', JStr (str_uuid (n_id nd))), (''actor_user_id'', JStr (str_uuid (u_id actor))),
           (''actor_email'', JStr (u_email actor))] @ extra)) ip ua)
       (thenS commit (ret node')))) (\<lambda>nd. ret (AnswerNode nd None))) d"
  using update_node_put [OF assms, of "\<lambda>row. row\<lparr>n_status := st\<rparr>"] found_put_node [OF nd]
  by (simp add: status_txn_def node_repo_set_status_def flush_node_def node_refreshed Let_def session_defs
      audit_write_def audit_repo_create_def insert_audit_def split: sum.split)

lemma bind_assoc_svc: "bindS (bindS m f) g = bindS m (\<lambda>x. bindS (f x) g)"
  by (auto simp: bindS_def fun_eq_iff split: prod.split sum.split)

lemma solo_same_node:
  assumes "find_node i d = Some nd"
  shows "solo (refreshed_node nd None) (begin_session d\<lparr>committed := d\<rparr>) =
    run_svc (bindS (thenS commit (ret nd)) (\<lambda>nd. ret (AnswerNode nd None))) d"
  using found_put_node(1) [OF assms] by (simp add: node_refreshed session_defs)

lemma bind_ret: "bindS (ret x) f = f x"
  by (simp add: bindS_def ret_def fun_eq_iff)

lemma bind_throw: "bindS (throw err) f = throw err"
  by (simp add: bindS_def throw_def fun_eq_iff)

lemma solo_drains:
  assumes "db_ok d"
  shows "solo (drain_txn e u i ip ua actor ev) (begin_session d) =
      run_svc (bindS (drain_node e u i ip ua actor ev) (\<lambda>nd. ret (AnswerNode nd None))) d"
    and "solo (undrain_txn e u i ip ua) (begin_session d) =
      run_svc (bindS (undrain_node e u i ip ua) (\<lambda>nd. ret (AnswerNode nd None))) d"
    and "solo (force_drain_txn e u i ip ua) (begin_session d) =
      run_svc (bindS (admin_force_drain e u i ip ua) (\<lambda>nd. ret (AnswerNode nd None))) d"
proof -
  have get: "run_svc (bindS (node_repo_get_by_id i) f) d = run_svc (f (find_node i d)) d" for f :: "node option \<Rightarrow> answer svc"
    by (simp add: run_svc_def bindS_def node_repo_get_by_id_def query_def begin_session_def)
  have missing: "run_svc (throw err :: answer svc) d = (Inl err, d)" for err by (simp add: session_defs)
  have status: "solo (status_txn e nd st ev' actor' extra ip ua) (begin_session d) =
    run_svc (bindS (node_repo_set_status nd st) (\<lambda>node'.
       bindS (thenS (audit_repo_create e (uuid4 e 0) ev' (Some (n_user_id nd))
         (Some ([(''node_id'', JStr (str_uuid (n_id nd))), (''actor_user_id'', JStr (str_uuid (u_id actor'))),
           (''actor_email'', JStr (u_email actor'))] @ extra)) ip ua)
       (thenS commit (ret node'))) (\<lambda>nd. ret (AnswerNode nd None)))) d"
    if "find_node i d = Some nd" for nd st ev' actor' extra
    using solo_status [OF assms that] by (simp add: bind_assoc_svc)
  note same = solo_same_node [of i d] 
  note defs = bind_assoc_svc bind_ret bind_throw get missing status same
  show "solo (drain_txn e u i ip ua actor ev) (begin_session d) =
      run_svc (bindS (drain_node e u i ip ua actor ev) (\<lambda>nd. ret (AnswerNode nd None))) d"
    by (cases "find_node i d") (auto simp: drain_txn_def drain_node_def get_owned_for_actor_def defs)
  show "solo (undrain_txn e u i ip ua) (begin_session d) =
      run_svc (bindS (undrain_node e u i ip ua) (\<lambda>nd. ret (AnswerNode nd None))) d"
    by (cases "find_node i d") (auto simp: undrain_txn_def undrain_node_def get_owned_node_def defs)
  show "solo (force_drain_txn e u i ip ua) (begin_session d) =
      run_svc (bindS (admin_force_drain e u i ip ua) (\<lambda>nd. ret (AnswerNode nd None))) d"
    by (cases "find_node i d") (auto simp: force_drain_txn_def admin_force_drain_def defs)
qed

lemma solo_users:
  assumes "db_ok d"
  shows "solo (approve_txn e a i h c ip ua) (begin_session d) =
      run_svc (bindS (approve_user e a i h c ip ua) (\<lambda>u. ret (AnswerUser u))) d"
    and "solo (suspend_txn e a i ip ua) (begin_session d) =
      run_svc (bindS (suspend_user e a i ip ua) (\<lambda>u. ret (AnswerUser u))) d"
  by (cases "find_user i d"; auto simp: approve_txn_def suspend_txn_def approve_user_def suspend_user_def
      get_user_by_id_def user_repo_get_by_id_def session_defs Let_def solo_write_user [OF assms] changed_user_loaded
      refreshed_user_def audit_write_def audit_repo_create_def insert_audit_def split: sum.split option.split)+

lemma solo_service:
  "db_ok d \<Longrightarrow> admissible d op \<Longrightarrow> solo (program_of op) (begin_session d) = run_svc (service_of op) d"
  by (cases op) (simp_all add: program_of_def service_of_def admissible_def solo_register solo_submit solo_claim
      solo_complete solo_cancel solo_heartbeat solo_drains solo_users)

end
