(* ===== verification/Schedules.thy ===== *)
theory Schedules
  imports Serial
begin

text \<open>
  What every schedule keeps: a relation between databases that each single write of the
  transactions respects holds between the database before and after any schedule.
\<close>

section \<open>The writes of a transaction\<close>

primrec writes_only :: "((db \<Rightarrow> db) \<Rightarrow> bool) \<Rightarrow> txn \<Rightarrow> bool" where
  "writes_only P (Finished r) \<longleftrightarrow> True"
| "writes_only P (Select k) \<longleftrightarrow> (\<forall>d. writes_only P (k d))"
| "writes_only P (SelectForUpdate pick k) \<longleftrightarrow> (\<forall>found. writes_only P (k found))"
| "writes_only P (Write rows f p) \<longleftrightarrow> P (written f) \<and> writes_only P p"
| "writes_only P (Commit p) \<longleftrightarrow> writes_only P p"
| "writes_only P (Rollback p) \<longleftrightarrow> writes_only P p"

fun is_undrain :: "operation \<Rightarrow> bool" where
  "is_undrain (Undrain _ _ _ _ _) = True"
| "is_undrain _ = False"

text \<open>The writes there are; putting a node back online is allowed only if \<open>undrains\<close>.\<close>

locale write_kinds =
  fixes P :: "(db \<Rightarrow> db) \<Rightarrow> bool" and undrains :: bool
  assumes audit: "P (written (insert_audit a))"
    and submitted: "P (written (insert_job j))"
    and assigned: "P (written (\<lambda>d. if \<not> node_ref_ok d n then Inl err else update_job i (assignment e nd) d))"
    and ended: "target \<noteq> QUEUED \<Longrightarrow> P (written (update_job i (terminal_update j now target code msg)))"
    and requested: "P (written (update_job i (\<lambda>row. row\<lparr>j_cancel_requested_at := t\<rparr>)))"
    and user: "P (written (update_user e u u'))"
    and registered: "P (written (insert_node nd))"
    and consumed: "P (written (consume_claim i now))"
    and seen: "P (written (update_node i (\<lambda>row. row\<lparr>n_last_seen_at := t\<rparr>)))"
    and status: "st = ''draining'' \<or> undrains \<Longrightarrow> P (written (update_node i (\<lambda>row. row\<lparr>n_status := st\<rparr>)))"
begin

lemma audit_written: "P (written (audit_write e ev i fs ip ua))"
  unfolding audit_write_def by (rule audit)

lemmas written_kinds = audit audit_written submitted assigned ended requested user registered consumed seen

lemma target_not_queued: "completion_target j code \<noteq> QUEUED" "CANCELLED \<noteq> QUEUED"
  by (simp_all add: completion_target_def QUEUED_def CANCELLED_def COMPLETED_def FAILED_def)

lemma tails:
  "writes_only P (refreshed i)" "writes_only P (refreshed_node nd token)" "writes_only P (refreshed_user i)"
  "writes_only P (write_user e u u' p) \<longleftrightarrow> writes_only P p"
  by (simp_all add: refreshed_def refreshed_node_def refreshed_user_def write_user_def user)

lemma job_programs:
  "writes_only P (submit_txn e u img cmd g dur pref ip ua)" "writes_only P (claim_txn e nd)"
  "writes_only P (complete_txn e nd i code msg)" "writes_only P (cancel_found e j ev u uid extra ip ua)"
  by (simp_all add: submit_txn_def claim_txn_def claim_chosen_def complete_txn_def finish_job_def
      cancel_found_def audit_cancel_def written_kinds tails target_not_queued Let_def split: option.split)

lemma status_program:
  "st = ''draining'' \<or> undrains \<Longrightarrow> writes_only P (status_txn e nd st ev actor extra ip ua)"
  by (simp add: status_txn_def status written_kinds tails)

lemma programs: "undrains \<or> \<not> is_undrain op \<Longrightarrow> writes_only P (program_of op)"
  by (cases op) (auto simp: program_of_def job_programs status_program tails written_kinds cancel_txn_def
      force_kill_txn_def register_txn_def register_claim_def heartbeat_txn_def drain_txn_def undrain_txn_def
      force_drain_txn_def approve_txn_def suspend_txn_def Let_def split: option.split prod.split)

end

section \<open>Relations between databases\<close>

definition keeps_rel :: "(db \<Rightarrow> db \<Rightarrow> bool) \<Rightarrow> (db \<Rightarrow> db) \<Rightarrow> bool" where
  "keeps_rel R f \<longleftrightarrow> (\<forall>d. R d (f d))"

definition kept :: "(db \<Rightarrow> db \<Rightarrow> bool) \<Rightarrow> db \<Rightarrow> system \<Rightarrow> bool" where
  "kept R d0 s \<longleftrightarrow> R d0 (shared s) \<and>
     (\<forall>th \<in> set (threads s). writes_only (keeps_rel R) (program th) \<and> (\<forall>f \<in> set (pending th). keeps_rel R f))"

locale write_contract =
  fixes R :: "db \<Rightarrow> db \<Rightarrow> bool"
  assumes same: "R d d" and trans: "R d d' \<Longrightarrow> R d' d'' \<Longrightarrow> R d d''"
begin

lemma view_keeps: "\<forall>f \<in> set (pending th). keeps_rel R f \<Longrightarrow> R d (view th d)"
proof -
  have "R d (fold (\<lambda>f. f) fs d)" if "\<forall>f \<in> set fs. keeps_rel R f" for fs :: "(db \<Rightarrow> db) list"
    using that
  proof (induction fs arbitrary: d)
    case (Cons f fs)
    then have "R d (f d)" and "R (f d) (fold (\<lambda>f. f) fs (f d))" by (simp_all add: keeps_rel_def)
    then show ?case by (auto intro: trans)
  qed (simp add: same)
  then show "\<forall>f \<in> set (pending th). keeps_rel R f \<Longrightarrow> R d (view th d)" by (simp add: view_def)
qed

lemma kept_put:
  assumes "kept R d0 s" and "R (shared s) d" and "writes_only (keeps_rel R) (program th)"
    and "\<forall>f \<in> set (pending th). keeps_rel R f"
  shows "kept R d0 (put_thread t th (s\<lparr>shared := d\<rparr>))"
  using assms set_update_subset_insert [of "threads s" t th]
  by (auto simp: kept_def put_thread_def intro: trans)

lemma kept_same:
  "kept R d0 s \<Longrightarrow> writes_only (keeps_rel R) (program th) \<Longrightarrow> \<forall>f \<in> set (pending th). keeps_rel R f \<Longrightarrow>
   kept R d0 (put_thread t th s)"
  using kept_put [of d0 s "shared s" th t] by (simp add: same)

lemma kept_step:
  assumes w: "kept R d0 s"
  shows "kept R d0 (step t s)"
proof (cases "t < length (threads s)")
  case False
  with w show ?thesis by (simp add: step_def)
next
  case True
  then have th: "writes_only (keeps_rel R) (program (threads s ! t))"
    "\<forall>f \<in> set (pending (threads s ! t)). keeps_rel R f"
    using w by (auto simp: kept_def)
  show ?thesis
  proof (cases "program (threads s ! t)")
    case (Commit p)
    with th True show ?thesis by (simp add: step_def Let_def kept_put [OF w] view_keeps)
  qed (use th True w in \<open>auto simp: step_def Let_def intro!: kept_same split: sum.split\<close>)
qed

end

sublocale write_contract \<subseteq> writing: schedule_invariant "kept R d0" for d0
  by unfold_locales (rule kept_step)

context write_contract
begin

lemma schedule_keeps:
  assumes "\<forall>op \<in> set ops. writes_only (keeps_rel R) (program_of op)"
  shows "R d (shared (interleave sched (start d ops)))"
proof -
  have "kept R d (start d ops)" using assms by (auto simp: kept_def start_def same)
  from writing.keeps_schedule [OF this] show ?thesis by (simp add: kept_def)
qed

end

section \<open>What only grows\<close>

definition order_of :: "job \<Rightarrow> uuid \<times> uuid \<times> string \<times> string list \<times> int \<times> int \<times> datetime" where
  "order_of j = (j_id j, j_user_id j, j_docker_image j, j_command j, j_gpu_count j,
     j_max_duration_seconds j, j_created_at j)"

definition hardware_of :: "node \<Rightarrow> uuid \<times> uuid \<times> string \<times> int \<times> int \<times> string option" where
  "hardware_of nd = (n_id nd, n_user_id nd, n_gpu_model nd, n_gpu_memory_gb nd, n_gpu_count nd,
     n_agent_token_hash nd)"

definition account_of :: "user \<Rightarrow> uuid \<times> string \<times> string \<times> bool" where
  "account_of u = (u_id u, u_email u, u_password_hash u, u_is_admin u)"

definition extends :: "('a \<Rightarrow> 'b) \<Rightarrow> 'a list \<Rightarrow> 'a list \<Rightarrow> bool" where
  "extends g xs ys \<longleftrightarrow> (\<exists>more. map g ys = map g xs @ more)"

definition used_tokens :: "db \<Rightarrow> uuid set" where
  "used_tokens d = c_id ` {c \<in> set (claim_tokens d). c_consumed_at c \<noteq> None}"

definition grows :: "db \<Rightarrow> db \<Rightarrow> bool" where
  "grows d d' \<longleftrightarrow> audit_extends d d' \<and> extends order_of (jobs d) (jobs d') \<and>
     extends hardware_of (nodes d) (nodes d') \<and> map account_of (users d') = map account_of (users d) \<and>
     used_tokens d \<subseteq> used_tokens d'"

lemma extends_same [simp]: "extends g xs xs"
  by (simp add: extends_def)

lemma extends_trans: "extends g xs ys \<Longrightarrow> extends g ys zs \<Longrightarrow> extends g xs zs"
  by (auto simp: extends_def)

lemma extends_append: "extends g xs (xs @ ys)"
  by (simp add: extends_def)

lemma extends_map: "(\<And>x. g (f x) = g x) \<Longrightarrow> extends g xs (map f xs)"
  by (simp add: extends_def comp_def)

interpretation growing: write_contract grows
  by unfold_locales (auto simp: grows_def audit_extends_def intro: extends_trans)

lemma grows_update_job: "(\<And>j. order_of (f j) = order_of j) \<Longrightarrow> grows d (written (update_job i f) d)"
  by (auto simp: grows_def audit_extends_def written_def update_job_def used_tokens_def intro!: extends_map)

lemma grows_update_node: "(\<And>nd. hardware_of (f nd) = hardware_of nd) \<Longrightarrow> grows d (written (update_node i f) d)"
  by (auto simp: grows_def audit_extends_def written_def update_node_def used_tokens_def intro!: extends_map)

lemma grows_consume: "used_tokens d \<subseteq> used_tokens (written (consume_claim i now) d)"
proof
  fix k assume "k \<in> used_tokens d"
  then obtain c where c: "c \<in> set (claim_tokens d)" "c_id c = k" "c_consumed_at c \<noteq> None"
    by (auto simp: used_tokens_def)
  let ?c = "if c_id c = i then c\<lparr>c_consumed_at := Some now\<rparr> else c"
  have "?c \<in> set (claim_tokens (written (consume_claim i now) d))"
    using c(1) by (auto simp: written_def consume_claim_def)
  moreover have "c_id ?c = k" and "c_consumed_at ?c \<noteq> None" using c(2,3) by simp_all
  ultimately show "k \<in> used_tokens (written (consume_claim i now) d)"
    unfolding used_tokens_def by blast
qed

interpretation growing_writes: write_kinds "keeps_rel grows" True
proof
  fix n err i e nd
  have "grows d (written (update_job i (assignment e nd)) d)" for d
    by (rule grows_update_job) (simp add: order_of_def assignment_def)
  then show "keeps_rel grows (written (\<lambda>d. if \<not> node_ref_ok d n then Inl err else update_job i (assignment e nd) d))"
    by (auto simp: keeps_rel_def written_def growing.same)
next
  fix i now
  show "keeps_rel grows (written (consume_claim i now))"
    using grows_consume by (auto simp: keeps_rel_def grows_def audit_extends_def written_def consume_claim_def)
qed (auto simp: keeps_rel_def order_of_def hardware_of_def account_of_def terminal_update_def
    changed_user_def intro!: grows_update_job grows_update_node,
  auto simp: grows_def written_def audit_extends_def insert_audit_def insert_job_def insert_node_def
    update_user_def used_tokens_def account_of_def changed_user_def extends_append)

definition draining :: "uuid \<Rightarrow> db \<Rightarrow> bool" where
  "draining i d \<longleftrightarrow> (\<exists>nd \<in> set (nodes d). n_id nd = i \<and> n_status nd = ''draining'')"

definition stays_drained :: "uuid \<Rightarrow> db \<Rightarrow> db \<Rightarrow> bool" where
  "stays_drained i d d' \<longleftrightarrow> (draining i d \<longrightarrow> draining i d')"

interpretation drained: write_contract "stays_drained i" for i
  by unfold_locales (auto simp: stays_drained_def)

lemma stays_drained_update:
  assumes "\<And>nd. n_id (f nd) = n_id nd" and "\<And>nd. n_status nd = ''draining'' \<Longrightarrow> n_status (f nd) = ''draining''"
  shows "keeps_rel (stays_drained k) (written (update_node i f))"
  unfolding keeps_rel_def stays_drained_def
proof (intro allI impI)
  fix d assume "draining k d"
  then obtain nd where nd: "nd \<in> set (nodes d)" "n_id nd = k" "n_status nd = ''draining''"
    by (auto simp: draining_def)
  let ?nd = "if n_id nd = i then f nd else nd"
  have "?nd \<in> set (nodes (written (update_node i f) d))" using nd(1) by (auto simp: written_def update_node_def)
  moreover have "n_id ?nd = k" and "n_status ?nd = ''draining''" using nd assms by simp_all
  ultimately show "draining k (written (update_node i f) d)" unfolding draining_def by blast
qed

interpretation drained_writes: write_kinds "keeps_rel (stays_drained k)" False for k
  by unfold_locales (auto intro!: stays_drained_update,
    auto simp: keeps_rel_def stays_drained_def draining_def written_def insert_audit_def
      insert_job_def insert_node_def update_job_def update_user_def consume_claim_def)


end
