(* ===== verification/Races.thy ===== *)
theory Races
  imports Schedules
begin

text \<open>
  What survives when requests overlap: whatever the schedule, no two agents are ever given
  the same job, and a transaction that runs alone does what the service operation of
  \<open>JobService\<close> does.
\<close>

section \<open>Nobody queues a job again\<close>

definition no_queued :: "uuid \<Rightarrow> db \<Rightarrow> bool" where
  "no_queued i d \<longleftrightarrow> (\<forall>j \<in> set (jobs d). j_id j = i \<longrightarrow> j_status j \<noteq> QUEUED)"

definition has_job :: "uuid \<Rightarrow> db \<Rightarrow> bool" where
  "has_job i d \<longleftrightarrow> i \<in> j_id ` set (jobs d)"

text \<open>\<open>knows d x\<close>: the nodes of \<open>d\<close> are in \<open>x\<close>.\<close>

definition knows :: "db \<Rightarrow> db \<Rightarrow> bool" where
  "knows d x \<longleftrightarrow> n_id ` set (nodes d) \<subseteq> n_id ` set (nodes x)"

lemma knows_refl [simp]: "knows d d"
  by (simp add: knows_def)

lemma knows_trans: "knows d x \<Longrightarrow> knows x y \<Longrightarrow> knows d y"
  by (auto simp: knows_def)

lemma knows_same: "nodes x = nodes d \<Longrightarrow> knows d x"
  by (simp add: knows_def)

lemma node_ref_known: "node_ref_ok d r \<Longrightarrow> knows d x \<Longrightarrow> node_ref_ok x r"
  by (auto simp: node_ref_ok_def knows_def split: option.splits)

text \<open>A harmless write keeps the nodes that are there, removes no job and puts none back into the queue.\<close>

definition harmless :: "(db \<Rightarrow> db) \<Rightarrow> bool" where
  "harmless f \<longleftrightarrow> (\<forall>d. knows d (f d) \<and>
     (\<forall>i. has_job i d \<longrightarrow> has_job i (f d) \<and> (no_queued i d \<longrightarrow> no_queued i (f d))))"

lemma harmless_view: "\<forall>f \<in> set (pending th). harmless f \<Longrightarrow> harmless (view th)"
proof -
  have "harmless (fold (\<lambda>f. f) fs)" if "\<forall>f \<in> set fs. harmless f" for fs :: "(db \<Rightarrow> db) list"
    using that
  proof (induction fs)
    case (Cons f fs)
    then have "harmless f" and "harmless (fold (\<lambda>f. f) fs)" by simp_all
    then show ?case by (auto simp: harmless_def intro: knows_trans)
  qed (simp add: harmless_def)
  then show "\<forall>f \<in> set (pending th). harmless f \<Longrightarrow> harmless (view th)"
    by (simp add: view_def [abs_def])
qed

lemma keys_updated:
  assumes "\<And>x. key (f x) = key x"
  shows "key ` set (map (\<lambda>x. if key x = i then f x else x) xs) = key ` set xs"
proof -
  have "map key (map (\<lambda>x. if key x = i then f x else x) xs) = map key xs" using assms by simp
  from arg_cong [OF this, of set] show ?thesis by (simp only: set_map)
qed

lemma has_job_update:
  assumes "\<And>j. j_id (f j) = j_id j"
  shows "has_job i (d\<lparr>jobs := map (\<lambda>j. if j_id j = k then f j else j) (jobs d)\<rparr>) \<longleftrightarrow> has_job i d"
proof -
  have "jobs (d\<lparr>jobs := map (\<lambda>j. if j_id j = k then f j else j) (jobs d)\<rparr>) =
      map (\<lambda>j. if j_id j = k then f j else j) (jobs d)" by simp
  then show ?thesis unfolding has_job_def by (simp only: keys_updated [of j_id f, OF assms])
qed

lemma harmless_update:
  assumes "\<And>j. j_id (f j) = j_id j" and "\<And>j. j_status j \<noteq> QUEUED \<Longrightarrow> j_status (f j) \<noteq> QUEUED"
  shows "harmless (written (update_job i f))"
proof -
  have written: "written (update_job i f) d = d\<lparr>jobs := map (\<lambda>j. if j_id j = i then f j else j) (jobs d)\<rparr>" for d
    by (simp add: written_def update_job_def)
  have "no_queued k (written (update_job i f) d)" if "no_queued k d" for k d
    using that assms by (auto simp: written no_queued_def)
  moreover have "has_job k (written (update_job i f) d)" if "has_job k d" for k d
    using that by (simp only: written has_job_update [of f, OF assms(1)])
  moreover have "knows d (written (update_job i f) d)" for d by (simp add: written knows_same)
  ultimately show ?thesis by (simp add: harmless_def)
qed

lemma harmless_node:
  assumes "\<And>nd. n_id (f nd) = n_id nd"
  shows "harmless (written (update_node i f))"
proof -
  have rows: "nodes (written (update_node i f) d) = map (\<lambda>nd. if n_id nd = i then f nd else nd) (nodes d)" for d
    by (simp add: written_def update_node_def)
  have "knows d (written (update_node i f) d)" for d
    unfolding knows_def rows keys_updated [of n_id f, OF assms] by (rule subset_refl)
  then show ?thesis by (simp add: harmless_def has_job_def no_queued_def written_def update_node_def)
qed

lemma harmless_assign:
  "harmless (written (\<lambda>d. if \<not> node_ref_ok d n then Inl err else update_job i (assignment e nd) d))"
proof -
  have "harmless (written (update_job i (assignment e nd)))"
    by (rule harmless_update) (simp_all add: assignment_def QUEUED_def)
  then show ?thesis by (auto simp: harmless_def written_def)
qed

interpretation harmless_writes: write_kinds harmless True
  by unfold_locales (auto intro!: harmless_assign harmless_update harmless_node
      simp: terminal_update_def set_changed_def split: if_splits,
    auto simp: harmless_def has_job_def no_queued_def written_def knows_def insert_audit_def insert_job_def
      insert_node_def update_user_def consume_claim_def)

lemma harmless_program: "writes_only harmless (program_of op)"
  by (simp add: harmless_writes.programs)

section \<open>How far a claim has got\<close>

datatype claim_phase = Free | Picked uuid | Assigned uuid | Owned uuid

fun job_of :: "claim_phase \<Rightarrow> uuid option" where
  "job_of Free = None"
| "job_of (Picked i) = Some i"
| "job_of (Assigned i) = Some i"
| "job_of (Owned i) = Some i"

text \<open>The write that takes job \<open>i\<close> out of the queue, whatever rows are there, as long as the nodes stay.\<close>

definition takes :: "uuid \<Rightarrow> (db \<Rightarrow> error + db) \<Rightarrow> bool" where
  "takes i f \<longleftrightarrow> (\<forall>d d'. f d = Inr d' \<longrightarrow> (\<forall>x. knows d x \<longrightarrow> no_queued i (written f x)))"

definition picks_queued :: "((uuid \<Rightarrow> bool) \<Rightarrow> db \<Rightarrow> job option) \<Rightarrow> bool" where
  "picks_queued pick \<longleftrightarrow> (\<forall>locked d j. pick locked d = Some j \<longrightarrow>
     j \<in> set (jobs d) \<and> j_status j = QUEUED \<and> \<not> locked (j_id j))"

text \<open>The statements a claim may still issue in a phase.\<close>

primrec follows :: "txn \<Rightarrow> claim_phase \<Rightarrow> bool" where
  "follows (Finished r) ph \<longleftrightarrow>
     (case ph of Owned i \<Rightarrow> (\<forall>j. r = Inr (AnswerJob (Some j)) \<longrightarrow> j_id j = i)
      | Free \<Rightarrow> (\<forall>j. r \<noteq> Inr (AnswerJob (Some j))) | _ \<Rightarrow> False)"
| "follows (Select k) ph \<longleftrightarrow> (\<forall>d. follows (k d) ph)"
| "follows (SelectForUpdate pick k) ph \<longleftrightarrow>
     ph = Free \<and> picks_queued pick \<and> follows (k None) Free \<and> (\<forall>j. follows (k (Some j)) (Picked (j_id j)))"
| "follows (Write rows f p) ph \<longleftrightarrow>
     (case ph of Free \<Rightarrow> False | Picked i \<Rightarrow> takes i f \<and> follows p (Assigned i) | _ \<Rightarrow> follows p ph)"
| "follows (Commit p) ph \<longleftrightarrow>
     (case ph of Picked i \<Rightarrow> False | Assigned i \<Rightarrow> follows p (Owned i) | _ \<Rightarrow> follows p ph)"
| "follows (Rollback p) ph \<longleftrightarrow> ph = Free \<and> follows p Free"

lemma no_queued_update:
  assumes "\<And>j. j_id (f j) = j_id j" and "\<And>j. j_status (f j) \<noteq> QUEUED"
  shows "no_queued i (d\<lparr>jobs := map (\<lambda>j. if j_id j = i then f j else j) (jobs d)\<rparr>)"
  using assms by (auto simp: no_queued_def)

lemma takes_assign:
  "takes i (\<lambda>d. if \<not> node_ref_ok d n then Inl err else update_job i (assignment e nd) d)"
  unfolding takes_def
proof (intro allI impI)
  fix d d' x :: db assume "(if \<not> node_ref_ok d n then Inl err else update_job i (assignment e nd) d) = Inr d'"
    and "knows d x"
  then have "node_ref_ok x n" by (auto intro: node_ref_known split: if_splits)
  then have "written (\<lambda>d. if \<not> node_ref_ok d n then Inl err else update_job i (assignment e nd) d) x
      = x\<lparr>jobs := map (\<lambda>j. if j_id j = i then assignment e nd j else j) (jobs x)\<rparr>"
    by (simp add: written_def update_job_def)
  then show "no_queued i (written
      (\<lambda>d. if \<not> node_ref_ok d n then Inl err else update_job i (assignment e nd) d) x)"
    by (simp only:) (simp add: no_queued_update assignment_def QUEUED_def)
qed

lemma picks_next:
  "picks_queued (\<lambda>locked d. next_claimable (e\<lparr>row_locked := locked\<rparr>) i n (jobs d))"
  unfolding picks_queued_def
proof (intro allI impI)
  fix locked d j
  assume "next_claimable (e\<lparr>row_locked := locked\<rparr>) i n (jobs d) = Some j"
  then have "j \<in> set (jobs d) \<and> claimable (e\<lparr>row_locked := locked\<rparr>) i n j" by (rule next_claimable_in)
  then show "j \<in> set (jobs d) \<and> j_status j = QUEUED \<and> \<not> locked (j_id j)"
    by (simp add: claimable_def QUEUED_def)
qed

lemma follows_claim: "follows (claim_txn e nd) Free"
  by (auto simp: claim_txn_def claim_chosen_def refreshed_def takes_assign picks_next
      split: option.split dest: lookup_row_SomeD)

section \<open>The invariant of every schedule\<close>

text \<open>
  What is true of one transaction in its phase: a picked job is locked until the write that
  takes it is committed; from then on the job is not queued.
\<close>

definition claim_state :: "db \<Rightarrow> thread \<Rightarrow> claim_phase \<Rightarrow> bool" where
  "claim_state d th ph \<longleftrightarrow> (case ph of Free \<Rightarrow> pending th = []
     | Picked i \<Rightarrow> pending th = [] \<and> JobRow i \<in> set (held th) \<and> has_job i d
     | Assigned i \<Rightarrow> JobRow i \<in> set (held th) \<and> has_job i d \<and>
         (\<forall>x. knows d x \<longrightarrow> has_job i x \<longrightarrow> no_queued i (view th x))
     | Owned i \<Rightarrow> has_job i d \<and> no_queued i d)"

definition thread_ok :: "db \<Rightarrow> bool \<Rightarrow> thread \<Rightarrow> claim_phase \<Rightarrow> bool" where
  "thread_ok d claims th ph \<longleftrightarrow>
     writes_only harmless (program th) \<and> (\<forall>f \<in> set (pending th). harmless f) \<and>
     (if claims then follows (program th) ph \<and> claim_state d th ph else ph = Free)"

definition no_clash :: "(nat \<Rightarrow> claim_phase) \<Rightarrow> bool" where
  "no_clash ph \<longleftrightarrow> (\<forall>t t'. t \<noteq> t' \<longrightarrow> job_of (ph t) \<noteq> None \<longrightarrow> job_of (ph t) \<noteq> job_of (ph t'))"

definition race_inv :: "db \<Rightarrow> (nat \<Rightarrow> bool) \<Rightarrow> (nat \<Rightarrow> claim_phase) \<Rightarrow> system \<Rightarrow> bool" where
  "race_inv d0 c ph s \<longleftrightarrow> knows d0 (shared s) \<and> no_clash ph \<and>
     (\<forall>t. length (threads s) \<le> t \<longrightarrow> ph t = Free) \<and>
     (\<forall>t < length (threads s). thread_ok (shared s) (c t) (threads s ! t) (ph t))"

text \<open>An unfinished claim that has picked or assigned a job keeps the others off it.\<close>

lemma phase_unfinished:
  "follows p (Picked i) \<Longrightarrow> \<not> is_finished p" "follows p (Assigned i) \<Longrightarrow> \<not> is_finished p"
  by (cases p; simp add: is_finished_def)+

lemma picked_locked:
  assumes "race_inv d0 c ph s" and "k < length (threads s)" and "k \<noteq> t"
    and "ph k = Picked i \<or> ph k = Assigned i"
  shows "locked_by_others t s (JobRow i)"
proof -
  have ok: "thread_ok (shared s) (c k) (threads s ! k) (ph k)"
    using assms(1,2) by (simp add: race_inv_def)
  then have "JobRow i \<in> set (held (threads s ! k))" and "\<not> is_finished (program (threads s ! k))"
    using assms(4) by (auto simp: thread_ok_def claim_state_def phase_unfinished split: if_splits)
  then show ?thesis using assms(2,3) by (auto simp: locked_by_others_def list_ex_iff)
qed

lemma no_clash_step:
  assumes "no_clash ph"
    and "job_of q = None \<or> job_of q = job_of (ph t) \<or> (\<forall>k. k \<noteq> t \<longrightarrow> job_of (ph k) \<noteq> job_of q)"
  shows "no_clash (ph(t := q))"
  using assms unfolding no_clash_def by (auto; metis)

text \<open>One transaction moves on, and what is committed changes by a harmless write if at all.\<close>

lemma race_inv_put:
  assumes inv: "race_inv d0 c ph s" and t: "t < length (threads s)" and f: "harmless f"
    and ok: "thread_ok (f (shared s)) (c t) th q" and clash: "no_clash (ph(t := q))"
  shows "race_inv d0 c (ph(t := q)) (put_thread t th (s\<lparr>shared := f (shared s)\<rparr>))"
proof -
  have "thread_ok (f (shared s)) (c k) (threads s ! k) (ph k)" if "k < length (threads s)" for k
  proof -
    from inv that have "thread_ok (shared s) (c k) (threads s ! k) (ph k)" by (simp add: race_inv_def)
    moreover have "knows (shared s) x" if "knows (f (shared s)) x" for x
      using f knows_trans [OF _ that] by (simp add: harmless_def)
    ultimately show ?thesis
      using f by (auto simp: thread_ok_def claim_state_def harmless_def split: claim_phase.splits)
  qed
  with inv t f ok clash show ?thesis
    by (auto simp: race_inv_def put_thread_def nth_list_update harmless_def intro: knows_trans)
qed

lemma race_inv_same:
  assumes "race_inv d0 c ph s" and "t < length (threads s)"
    and "thread_ok (shared s) (c t) th q" and "no_clash (ph(t := q))"
  shows "race_inv d0 c (ph(t := q)) (put_thread t th s)"
  using race_inv_put [of d0 c ph s t id th q] assms by (simp add: harmless_def)

lemma race_step_select:
  assumes inv: "race_inv d0 c ph s" and t: "t < length (threads s)"
    and p: "program (threads s ! t) = SelectForUpdate pick k"
  shows "\<exists>q. race_inv d0 c (ph(t := q)) (step t s)"
proof -
  let ?th = "threads s ! t" and ?locked = "\<lambda>i. locked_by_others t s (JobRow i)"
  let ?seen = "view ?th (shared s)"
  define found where "found = pick ?locked ?seen"
  define q where "q = (case found of Some j \<Rightarrow> if c t then Picked (j_id j) else Free | None \<Rightarrow> Free)"
  have ok: "thread_ok (shared s) (c t) ?th (ph t)" using inv t by (simp add: race_inv_def)
  then have free: "ph t = Free" using p by (auto simp: thread_ok_def split: if_splits)
  have "job_of (ph m) \<noteq> Some (j_id j)" if "m \<noteq> t" and "found = Some j" and "c t" for m j
  proof
    assume clash: "job_of (ph m) = Some (j_id j)"
    with inv have m: "m < length (threads s)" by (auto simp: race_inv_def not_less [symmetric])
    have "picks_queued pick" using ok p \<open>c t\<close> by (simp add: thread_ok_def)
    with that(2) have j: "j \<in> set (jobs ?seen)" "j_status j = QUEUED" "\<not> ?locked (j_id j)"
      by (auto simp: picks_queued_def found_def)
    from clash picked_locked [OF inv m that(1)] j(3) have owned: "ph m = Owned (j_id j)"
      by (cases "ph m") auto
    have "thread_ok (shared s) (c m) (threads s ! m) (ph m)" using inv m by (simp add: race_inv_def)
    with owned have "has_job (j_id j) (shared s)" and "no_queued (j_id j) (shared s)"
      by (auto simp: thread_ok_def claim_state_def split: if_splits)
    moreover have "harmless (view ?th)" using ok by (intro harmless_view) (simp add: thread_ok_def)
    ultimately have "no_queued (j_id j) ?seen" by (simp add: harmless_def)
    with j show False by (auto simp: no_queued_def)
  qed
  then have clash: "no_clash (ph(t := q))"
    using inv by (intro no_clash_step) (auto simp: race_inv_def q_def split: option.splits)
  let ?th' = "?th\<lparr>program := k found, held := (case found of None \<Rightarrow> held ?th | Some j \<Rightarrow> JobRow (j_id j) # held ?th)\<rparr>"
  have "has_job (j_id j) (shared s)" if "found = Some j" and "c t" for j
  proof -
    have "pending ?th = []" and "picks_queued pick"
      using ok p free that(2) by (simp_all add: thread_ok_def claim_state_def)
    with that(1) show ?thesis by (auto simp: found_def picks_queued_def view_def has_job_def)
  qed
  then have "thread_ok (shared s) (c t) ?th' q"
    using ok p by (auto simp: thread_ok_def q_def claim_state_def free split: option.splits)
  with race_inv_same [OF inv t _ clash] have "race_inv d0 c (ph(t := q)) (put_thread t ?th' s)" by blast
  moreover have "step t s = put_thread t ?th' s"
    using t p by (simp add: step_def Let_def found_def)
  ultimately show ?thesis by auto
qed

lemma race_step_write:
  assumes inv: "race_inv d0 c ph s" and t: "t < length (threads s)"
    and p: "program (threads s ! t) = Write rows f p'"
  shows "\<exists>q. race_inv d0 c (ph(t := q)) (step t s)"
proof -
  let ?th = "threads s ! t" and ?locked = "locked_by_others t s"
  let ?seen = "view ?th (shared s)"
  have ok: "thread_ok (shared s) (c t) ?th (ph t)" using inv t by (simp add: race_inv_def)
  have calm: "no_clash ph" using inv by (simp add: race_inv_def)
  consider (waits) "list_ex ?locked rows"
    | (fails) err where "\<not> list_ex ?locked rows" and "f ?seen = Inl err"
    | (writes) d' where "\<not> list_ex ?locked rows" and "f ?seen = Inr d'"
    by (cases "f ?seen") blast+
  then show ?thesis
  proof cases
    case waits
    then have "step t s = s" using t p by (simp add: step_def Let_def)
    with inv have "race_inv d0 c (ph(t := ph t)) (step t s)" by simp
    then show ?thesis by blast
  next
    case fails
    let ?th' = "\<lparr>program = Finished (Inl err), pending = [], held = []\<rparr>"
    have "thread_ok (shared s) (c t) ?th' Free" by (simp add: thread_ok_def claim_state_def)
    from race_inv_same [OF inv t this no_clash_step [OF calm]]
    have "race_inv d0 c (ph(t := Free)) (put_thread t ?th' s)" by simp
    moreover have "step t s = put_thread t ?th' s" using t p fails by (simp add: step_def Let_def)
    ultimately show ?thesis by auto
  next
    case writes
    let ?th' = "\<lparr>program = p', pending = pending ?th @ [written f], held = rows @ held ?th\<rparr>"
    let ?q = "case ph t of Picked i \<Rightarrow> Assigned i | q \<Rightarrow> q"
    have calm_view: "harmless (view ?th)" using ok by (intro harmless_view) (simp add: thread_ok_def)
    have view': "view ?th' x = written f (view ?th x)" for x by (simp add: view_def)
    have "harmless (written f)" using ok p by (simp add: thread_ok_def)
    have taken: "no_queued i (written f (view ?th x))"
      if "takes i f" and "pending ?th = []" and "knows (shared s) x" for i x
      using that writes(2) by (auto simp: takes_def view_def)
    have "thread_ok (shared s) (c t) ?th' ?q"
      using ok p \<open>harmless (written f)\<close> calm_view
      by (auto simp: thread_ok_def claim_state_def view' taken harmless_def split: claim_phase.splits if_splits)
    moreover have "no_clash (ph(t := ?q))" by (rule no_clash_step [OF calm]) (auto split: claim_phase.splits)
    ultimately have "race_inv d0 c (ph(t := ?q)) (put_thread t ?th' s)" by (intro race_inv_same [OF inv t])
    moreover have "step t s = put_thread t ?th' s" using t p writes by (simp add: step_def Let_def)
    ultimately show ?thesis by auto
  qed
qed

lemma race_step_commit:
  assumes inv: "race_inv d0 c ph s" and t: "t < length (threads s)"
    and p: "program (threads s ! t) = Commit p'"
  shows "\<exists>q. race_inv d0 c (ph(t := q)) (step t s)"
proof -
  let ?th = "threads s ! t" and ?th' = "\<lparr>program = p', pending = [], held = []\<rparr>"
  let ?q = "case ph t of Assigned i \<Rightarrow> Owned i | q \<Rightarrow> q"
  have ok: "thread_ok (shared s) (c t) ?th (ph t)" and calm: "no_clash ph"
    using inv t by (simp_all add: race_inv_def)
  have f: "harmless (view ?th)" using ok by (intro harmless_view) (simp add: thread_ok_def)
  have "thread_ok (view ?th (shared s)) (c t) ?th' ?q"
    using ok p f by (auto simp: thread_ok_def claim_state_def harmless_def split: claim_phase.splits if_splits)
  moreover have "no_clash (ph(t := ?q))" by (rule no_clash_step [OF calm]) (auto split: claim_phase.splits)
  ultimately have "race_inv d0 c (ph(t := ?q)) (put_thread t ?th' (s\<lparr>shared := view ?th (shared s)\<rparr>))"
    by (rule race_inv_put [OF inv t f])
  moreover have "step t s = put_thread t ?th' (s\<lparr>shared := view ?th (shared s)\<rparr>)"
    using t p by (simp add: step_def Let_def)
  ultimately show ?thesis by auto
qed

lemma race_step:
  assumes inv: "race_inv d0 c ph s"
  shows "\<exists>q. race_inv d0 c (ph(t := q)) (step t s)"
proof (cases "t < length (threads s)")
  case False
  then have "race_inv d0 c (ph(t := ph t)) (step t s)" using inv by (simp add: step_def)
  then show ?thesis by blast
next
  case t: True
  let ?th = "threads s ! t"
  have ok: "thread_ok (shared s) (c t) ?th (ph t)" and calm: "no_clash ph"
    using inv t by (simp_all add: race_inv_def)
  show ?thesis
  proof (cases "program ?th")
    case (Finished r)
    then have "race_inv d0 c (ph(t := ph t)) (step t s)" using t inv by (simp add: step_def Let_def)
    then show ?thesis by blast
  next
    case (Select k)
    let ?th' = "?th\<lparr>program := k (view ?th (shared s))\<rparr>"
    have "thread_ok (shared s) (c t) ?th' (ph t)"
      using ok Select by (auto simp: thread_ok_def claim_state_def view_def split: claim_phase.splits if_splits)
    from race_inv_same [OF inv t this] calm show ?thesis
      using t Select by (simp add: step_def Let_def) (metis fun_upd_triv)
  next
    case (Rollback p)
    have "thread_ok (shared s) (c t) \<lparr>program = p, pending = [], held = []\<rparr> (ph t)"
      using ok Rollback by (auto simp: thread_ok_def claim_state_def split: if_splits)
    from race_inv_same [OF inv t this] calm show ?thesis
      using t Rollback by (simp add: step_def Let_def) (metis fun_upd_triv)
  qed (use race_step_select [OF inv t] race_step_write [OF inv t] race_step_commit [OF inv t] in blast)+
qed

interpretation racing: schedule_invariant "\<lambda>s. \<exists>ph. race_inv d0 c ph s" for d0 c
proof
  fix s t assume "\<exists>ph. race_inv d0 c ph s"
  then obtain ph where "race_inv d0 c ph s" ..
  from race_step [OF this] show "\<exists>ph. race_inv d0 c ph (step t s)" by blast
qed

lemma race_interleave:
  "race_inv d0 c ph s \<Longrightarrow> \<exists>ph'. race_inv d0 c ph' (interleave sched s)"
  using racing.keeps_schedule [of d0 c s sched] by blast

fun is_claim :: "operation \<Rightarrow> bool" where
  "is_claim (Claim _ _) = True"
| "is_claim _ = False"

lemma race_start: "race_inv d (\<lambda>t. is_claim (ops ! t)) (\<lambda>_. Free) (start d ops)"
proof -
  have "follows (program_of op) Free" if "is_claim op" for op
    using that by (cases op) (simp_all add: program_of_def follows_claim)
  then show ?thesis
    by (auto simp: race_inv_def start_def no_clash_def thread_ok_def claim_state_def harmless_program)
qed

interpretation threads_stay: schedule_invariant "\<lambda>s. length (threads s) = n" for n
  by unfold_locales (simp add: step_others)

lemma threads_interleave: "length (threads (interleave sched s)) = length (threads s)"
  by (rule threads_stay.keeps_schedule) simp

text \<open>
  C5. Two agents racing for work never get the same job: under every schedule of
  every mix of requests, two claims that both return a job return different ones, and neither job is in the queue any more.
\<close>

theorem claims_disjoint:
  assumes "s = interleave sched (start d ops)"
    and "t < length ops" and "t' < length ops" and "t \<noteq> t'"
    and "ops ! t = Claim e nd" and "ops ! t' = Claim e' nd'"
    and "result t s = Some (Inr (AnswerJob (Some j)))" and "result t' s = Some (Inr (AnswerJob (Some j')))"
  shows "j_id j \<noteq> j_id j' \<and> no_queued (j_id j) (shared s) \<and> no_queued (j_id j') (shared s)"
proof -
  obtain ph where inv: "race_inv d (\<lambda>t. is_claim (ops ! t)) ph s"
    using race_interleave [OF race_start] assms(1) by blast
  have n: "length (threads s) = length ops" by (simp add: assms(1) threads_interleave start_def)
  have "ph k = Owned (j_id x) \<and> no_queued (j_id x) (shared s)"
    if k: "k < length ops" and c: "is_claim (ops ! k)" and r: "result k s = Some (Inr (AnswerJob (Some x)))" for k x
  proof -
    from r have "program (threads s ! k) = Finished (Inr (AnswerJob (Some x)))"
      by (auto simp: result_def split: txn.splits)
    moreover have "thread_ok (shared s) (is_claim (ops ! k)) (threads s ! k) (ph k)"
      using inv k n by (simp add: race_inv_def)
    ultimately show ?thesis using c by (auto simp: thread_ok_def claim_state_def split: claim_phase.splits)
  qed
  from this [OF assms(2) _ assms(7)] this [OF assms(3) _ assms(8)] assms(5,6)
  have "ph t = Owned (j_id j) \<and> no_queued (j_id j) (shared s)"
    and "ph t' = Owned (j_id j') \<and> no_queued (j_id j') (shared s)" by simp_all
  moreover have "job_of (ph t) \<noteq> job_of (ph t')" if "job_of (ph t) \<noteq> None"
    using inv assms(4) that by (auto simp: race_inv_def no_clash_def)
  ultimately show ?thesis by auto
qed

section \<open>Serial schedules are the sequential model\<close>

definition serial :: "nat \<Rightarrow> nat list" where
  "serial n = concat (map (replicate 7) [0..<n])"

definition sequentially :: "operation list \<Rightarrow> db \<Rightarrow> db" where
  "sequentially ops d = fold (\<lambda>op d. snd (run_svc (service_of op) d)) ops d"

lemma run_wrapped: "snd (run_svc (bindS m (\<lambda>x. ret (f x))) d) = snd (run_svc m d)"
  by (auto simp: run_svc_def bindS_def ret_def split: prod.split sum.split)

lemma operation_ok: "db_ok d \<Longrightarrow> admissible d op \<Longrightarrow> db_ok (snd (run_svc (service_of op) d))"
  by (cases op) (simp_all add: service_of_def admissible_def run_wrapped ok_run_snd
      claim_for_node_ok complete_job_ok cancel_job_ok admin_force_kill_ok register_node_ok
      record_heartbeat_ok drain_node_ok undrain_node_ok admin_force_drain_ok approve_user_ok suspend_user_ok
      case_prod_unfold submit_ok submit_request_ok_def MAX_JOB_DURATION_SECONDS_def)

definition fresh :: "operation \<Rightarrow> thread" where
  "fresh op = \<lparr>program = program_of op, pending = [], held = []\<rparr>"

lemma serial_prefix:
  assumes "db_ok d" and "\<forall>t < length ops. admissible (sequentially (take t ops) d) (ops ! t)"
    and "n \<le> length ops"
    and "s = interleave (serial n) (start d ops)"
  shows "shared s = sequentially (take n ops) d \<and> db_ok (shared s) \<and>
    (\<forall>t < n. program (threads s ! t) =
       Finished (fst (run_svc (service_of (ops ! t)) (sequentially (take t ops) d)))) \<and>
    (\<forall>t. n \<le> t \<longrightarrow> t < length ops \<longrightarrow> threads s ! t = fresh (ops ! t))"
  using assms(3,4)
proof (induction n arbitrary: s)
  case 0
  then show ?case using assms(1) by (simp add: serial_def interleave_def start_def sequentially_def fresh_def)
next
  case (Suc n)
  let ?s = "interleave (serial n) (start d ops)"
  have n: "n < length ops" and len: "length (threads ?s) = length ops"
    using Suc.prems(1) by (simp_all add: threads_interleave start_def)
  have IH: "shared ?s = sequentially (take n ops) d" "db_ok (shared ?s)"
    "\<And>t. t < n \<Longrightarrow> program (threads ?s ! t) =
       Finished (fst (run_svc (service_of (ops ! t)) (sequentially (take t ops) d)))"
    "\<And>t. n \<le> t \<Longrightarrow> t < length ops \<Longrightarrow> threads ?s ! t = fresh (ops ! t)"
    using Suc.IH [OF _ refl] n by auto
  have "\<not> locked_by_others n ?s r" for r
  proof -
    have "r \<notin> set (held (threads ?s ! k))"
      if "k < length ops" and "\<not> is_finished (program (threads ?s ! k))" for k
      using IH(3) [of k] IH(4) [of k] that by (cases "k < n") (simp_all add: is_finished_def fresh_def)
    then show ?thesis by (auto simp: locked_by_others_def list_ex_iff len)
  qed
  then have undisturbed: "undisturbed n ?s" using n len by (simp add: undisturbed_def)
  have valid: "admissible (shared ?s) (ops ! n)" using assms(2) n IH(1) by simp
  from interleave_solo [OF undisturbed, of 7] IH(4) [of n] n lasts_program [of "ops ! n"]
  have last: "program (threads (interleave (replicate 7 n) ?s) ! n) =
      Finished (fst (run_svc (service_of (ops ! n)) (shared ?s)))"
    "shared (interleave (replicate 7 n) ?s) = snd (run_svc (service_of (ops ! n)) (shared ?s))"
    "\<And>k. k \<noteq> n \<Longrightarrow> threads (interleave (replicate 7 n) ?s) ! k = threads ?s ! k"
    using solo_service [OF IH(2) valid]
    by (simp_all add: fresh_def session_of_def view_def begin_session_def Let_def)
  have s: "s = interleave (replicate 7 n) ?s"
    by (simp add: Suc.prems(2) serial_def interleave_append)
  have take: "take (Suc n) ops = take n ops @ [ops ! n]" using n by (simp add: take_Suc_conv_app_nth)
  from IH(2) valid have "db_ok (shared s)" by (simp add: s last operation_ok)
  then show ?case
    using IH last by (auto simp: s take sequentially_def less_Suc_eq)
qed

text \<open>
  C11. The model of one request after another is what the database does on a serial schedule: when
  each of any list of requests runs from its first to its last statement before the next begins, every request gets the answer
  of the service operation on the database its predecessors left, and the database at the end
  is theirs.
\<close>

theorem serial_is_sequential:
  assumes "db_ok d" and "\<forall>t < length ops. admissible (sequentially (take t ops) d) (ops ! t)"
  shows "let s = interleave (serial (length ops)) (start d ops) in
    shared s = sequentially ops d \<and>
    (\<forall>t < length ops. result t s = Some (fst (run_svc (service_of (ops ! t)) (sequentially (take t ops) d))))"
  using serial_prefix [OF assms order_refl refl] by (simp add: Let_def result_def)

end
