(* ===== verification/Progress.thy ===== *)
theory Progress
  imports Races
begin

text \<open>
  No deadlock: the transactions lock the row of a user before the row of a job and never the
  other way round, and rows of nodes and claim tokens on their own, so whatever has happened, somebody can move, and every transaction ends
  after a bounded number of further statements.
\<close>

section \<open>The lock order\<close>

fun lock_rank :: "row_id \<Rightarrow> nat" where
  "lock_rank (UserRow _) = 1"
| "lock_rank (JobRow _) = 2"
| "lock_rank (ClaimRow _) = 1"
| "lock_rank (NodeRow _) = 1"

primrec orderly :: "txn \<Rightarrow> row_id set \<Rightarrow> bool" where
  "orderly (Finished r) H \<longleftrightarrow> True"
| "orderly (Select k) H \<longleftrightarrow> (\<forall>d. orderly (k d) H)"
| "orderly (SelectForUpdate pick k) H \<longleftrightarrow> picks_queued pick \<and> orderly (k None) H \<and>
     (\<forall>j. orderly (k (Some j)) (insert (JobRow (j_id j)) H))"
| "orderly (Write rows f p) H \<longleftrightarrow>
     (\<forall>r \<in> set rows. r \<in> H \<or> (\<forall>h \<in> H. lock_rank h < lock_rank r)) \<and> orderly p (set rows \<union> H)"
| "orderly (Commit p) H \<longleftrightarrow> orderly p {}"
| "orderly (Rollback p) H \<longleftrightarrow> orderly p {}"

lemma orderly_program: "orderly (program_of op) {}"
  by (cases op) (auto simp: program_of_def submit_txn_def claim_txn_def claim_chosen_def complete_txn_def
      finish_job_def cancel_txn_def force_kill_txn_def cancel_found_def audit_cancel_def refreshed_def
      register_txn_def register_claim_def write_user_def
      heartbeat_txn_def drain_txn_def undrain_txn_def force_drain_txn_def status_txn_def approve_txn_def
      suspend_txn_def refreshed_node_def refreshed_user_def picks_next Let_def split: option.split prod.split)

text \<open>No row is locked twice, and everybody keeps to the order.\<close>

definition holds :: "system \<Rightarrow> nat \<Rightarrow> row_id \<Rightarrow> bool" where
  "holds s t r \<longleftrightarrow> t < length (threads s) \<and> \<not> is_finished (program (threads s ! t)) \<and>
     r \<in> set (held (threads s ! t))"

definition lock_inv :: "system \<Rightarrow> bool" where
  "lock_inv s \<longleftrightarrow>
     (\<forall>t < length (threads s). orderly (program (threads s ! t)) (set (held (threads s ! t)))) \<and>
     (\<forall>t t' r. holds s t r \<longrightarrow> holds s t' r \<longrightarrow> t = t')"

lemma locked_holds: "locked_by_others t s r \<longleftrightarrow> (\<exists>k. k \<noteq> t \<and> holds s k r)"
  by (auto simp: locked_by_others_def holds_def list_ex_iff)

text \<open>A thread may move to a state in which it holds only what nobody else does.\<close>

lemma lock_inv_put:
  assumes inv: "lock_inv s" and t: "t < length (threads s)"
    and "orderly (program th) (set (held th))"
    and new: "\<And>r. r \<in> set (held th) \<Longrightarrow> \<not> is_finished (program th) \<Longrightarrow> holds s t r \<or> \<not> locked_by_others t s r"
  shows "lock_inv (put_thread t th (s\<lparr>shared := d\<rparr>))"
proof -
  let ?s = "put_thread t th (s\<lparr>shared := d\<rparr>)"
  have other: "holds ?s k r \<longleftrightarrow> holds s k r" if "k \<noteq> t" for k r
    using that by (simp add: holds_def put_thread_def)
  have own: "\<not> holds s k r" if "holds ?s t r" and "k \<noteq> t" for k r
  proof
    assume k: "holds s k r"
    from that(1) have "r \<in> set (held th)" and "\<not> is_finished (program th)"
      by (auto simp: holds_def put_thread_def)
    with new [of r] k that(2) inv show False by (auto simp: locked_holds lock_inv_def)
  qed
  have "k = k'" if "holds ?s k r" and "holds ?s k' r" for k k' r
    using that other own inv unfolding lock_inv_def by (cases "k = t"; cases "k' = t") (metis+)
  with assms(1-3) show ?thesis by (auto simp: lock_inv_def put_thread_def nth_list_update)
qed

lemma lock_inv_same:
  assumes "lock_inv s" and "t < length (threads s)" and "orderly (program th) (set (held th))"
    and "\<And>r. r \<in> set (held th) \<Longrightarrow> \<not> is_finished (program th) \<Longrightarrow> holds s t r \<or> \<not> locked_by_others t s r"
  shows "lock_inv (put_thread t th s)"
  using lock_inv_put [OF assms, of "shared s"] by simp

lemma lock_step:
  assumes inv: "lock_inv s"
  shows "lock_inv (step t s)"
proof (cases "t < length (threads s)")
  case False
  with inv show ?thesis by (simp add: step_def)
next
  case t: True
  let ?th = "threads s ! t"
  have ord: "orderly (program ?th) (set (held ?th))" using inv t by (simp add: lock_inv_def)
  have held: "holds s t r" if "r \<in> set (held ?th)" and "\<not> is_finished (program ?th)" for r
    using t that by (simp add: holds_def)
  show ?thesis
  proof (cases "program ?th")
    case (Finished r)
    with t inv show ?thesis by (simp add: step_def Let_def)
  next
    case (Select k)
    with t ord held show ?thesis
      by (auto simp: step_def Let_def is_finished_def intro!: lock_inv_same [OF inv t])
  next
    case (SelectForUpdate pick k)
    let ?found = "pick (\<lambda>i. locked_by_others t s (JobRow i)) (view ?th (shared s))"
    have free: "\<not> locked_by_others t s (JobRow (j_id j))" if "?found = Some j" for j
      using ord SelectForUpdate that by (auto simp: picks_queued_def)
    let ?th' = "?th\<lparr>program := k ?found,
      held := (case ?found of None \<Rightarrow> held ?th | Some j \<Rightarrow> JobRow (j_id j) # held ?th)\<rparr>"
    have "lock_inv (put_thread t ?th' s)"
      using ord SelectForUpdate held free
      by (intro lock_inv_same [OF inv t]) (auto simp: is_finished_def split: option.splits)
    with t SelectForUpdate show ?thesis by (simp add: step_def Let_def)
  next
    case (Write rows f p)
    show ?thesis
    proof (cases "list_ex (locked_by_others t s) rows")
      case True
      with t Write inv show ?thesis by (simp add: step_def Let_def)
    next
      case False
      then have "\<not> locked_by_others t s r" if "r \<in> set rows" for r using that by (auto simp: list_ex_iff)
      with False t Write ord held show ?thesis
        by (auto simp: step_def Let_def is_finished_def split: sum.split intro!: lock_inv_same [OF inv t])
    qed
  next
    case (Commit p)
    with t ord show ?thesis by (auto simp: step_def Let_def intro!: lock_inv_put [OF inv t])
  next
    case (Rollback p)
    with t ord show ?thesis by (auto simp: step_def Let_def intro!: lock_inv_same [OF inv t])
  qed
qed

lemma lock_start: "lock_inv (start d ops)"
  by (auto simp: lock_inv_def start_def holds_def orderly_program)

interpretation locking: schedule_invariant lock_inv
  by unfold_locales (rule lock_step)

section \<open>Somebody can always move\<close>

text \<open>A transaction waits when its next statement writes a row that another one has locked.\<close>

definition waiting :: "nat \<Rightarrow> system \<Rightarrow> bool" where
  "waiting t s \<longleftrightarrow> (case program (threads s ! t) of
     Write rows f p \<Rightarrow> list_ex (locked_by_others t s) rows | _ \<Rightarrow> False)"

definition unfinished :: "nat \<Rightarrow> system \<Rightarrow> bool" where
  "unfinished t s \<longleftrightarrow> t < length (threads s) \<and> \<not> is_finished (program (threads s ! t))"

text \<open>Who waits waits for a holder of a row that ranks above everything it holds itself.\<close>

lemma waits_upward:
  assumes inv: "lock_inv s" and "unfinished t s" and "waiting t s"
  shows "\<exists>r k. holds s k r \<and> unfinished k s \<and> (\<forall>h. holds s t h \<longrightarrow> lock_rank h < lock_rank r)"
proof -
  obtain rows f p where p: "program (threads s ! t) = Write rows f p"
    using assms(3) by (auto simp: waiting_def split: txn.splits)
  with assms(3) obtain r where r: "r \<in> set rows" "locked_by_others t s r"
    by (auto simp: waiting_def list_ex_iff)
  then obtain k where k: "k \<noteq> t" "holds s k r" by (auto simp: locked_holds)
  have t: "t < length (threads s)" using assms(2) by (simp add: unfinished_def)
  have "orderly (program (threads s ! t)) (set (held (threads s ! t)))" using inv t by (simp add: lock_inv_def)
  then have "r \<in> set (held (threads s ! t)) \<or> (\<forall>h \<in> set (held (threads s ! t)). lock_rank h < lock_rank r)"
    using p r(1) by simp
  moreover have "r \<notin> set (held (threads s ! t))"
  proof
    assume "r \<in> set (held (threads s ! t))"
    then have "holds s t r" using assms(2) by (simp add: holds_def unfinished_def)
    with k inv show False by (auto simp: lock_inv_def)
  qed
  ultimately show ?thesis using k by (intro exI [of _ r] exI [of _ k]) (auto simp: holds_def unfinished_def)
qed

lemma somebody_moves:
  assumes "lock_inv s" and "unfinished t s"
  shows "\<exists>k. unfinished k s \<and> \<not> waiting k s"
proof (rule ccontr)
  assume "\<nexists>k. unfinished k s \<and> \<not> waiting k s"
  then have all: "\<And>k. unfinished k s \<Longrightarrow> \<exists>r k'. holds s k' r \<and> unfinished k' s \<and>
      (\<forall>h. holds s k h \<longrightarrow> lock_rank h < lock_rank r)"
    using waits_upward [OF assms(1)] by blast
  have top: "lock_rank r \<le> 2 \<and> 1 \<le> lock_rank r" for r by (cases r) simp_all
  from all [OF assms(2)] obtain r1 k1 where 1: "holds s k1 r1" "unfinished k1 s" by blast
  from all [OF 1(2)] 1(1) obtain r2 k2 where 2: "holds s k2 r2" "unfinished k2 s" "lock_rank r1 < lock_rank r2" by blast
  from all [OF 2(2)] 2(1) obtain r3 where 3: "lock_rank r2 < lock_rank r3" by blast
  from 2(3) 3 top [of r1] top [of r3] show False by linarith
qed

text \<open>Every turn of a transaction that does not wait uses up a statement.\<close>

definition bounded_by :: "(nat \<Rightarrow> nat) \<Rightarrow> system \<Rightarrow> bool" where
  "bounded_by left s \<longleftrightarrow> (\<forall>t < length (threads s). lasts (program (threads s ! t)) (left t))"

lemma bounded_step:
  assumes "bounded_by left s" and "unfinished t s" and "\<not> waiting t s"
  shows "0 < left t \<and> bounded_by (left(t := left t - 1)) (step t s)"
proof -
  have t: "t < length (threads s)" and l: "lasts (program (threads s ! t)) (left t)"
    and nf: "\<not> is_finished (program (threads s ! t))"
    using assms(1,2) by (auto simp: bounded_by_def unfinished_def)
  have pos: "0 < left t" using l nf by (cases "program (threads s ! t)") (simp_all add: is_finished_def)
  have "lasts (program (threads (step t s) ! t)) (left t - 1)"
    using t l assms(3)
    by (auto simp: step_def Let_def waiting_def put_thread_def split: txn.splits sum.splits option.splits)
  then have "lasts (program (threads (step t s) ! k)) ((left(t := left t - 1)) k)"
    if "k < length (threads s)" for k
    using assms(1) that step_others(2) [of k t s] by (cases "k = t") (simp_all add: bounded_by_def)
  with pos show ?thesis by (simp add: bounded_by_def step_others)
qed

interpretation bounding: schedule_invariant "bounded_by left" for left
proof
  fix s t assume b: "bounded_by left s"
  show "bounded_by left (step t s)"
  proof (cases "unfinished t s \<and> \<not> waiting t s")
    case True
    with bounded_step [OF b] have "bounded_by (left(t := left t - 1)) (step t s)" by blast
    then show ?thesis unfolding bounded_by_def by (metis fun_upd_apply diff_le_self lasts_more)
  next
    case False
    then have "step t s = s"
      by (auto simp: step_def Let_def unfinished_def waiting_def is_finished_def split: txn.splits)
    with b show ?thesis by simp
  qed
qed

lemma all_finish:
  assumes "lock_inv s" and "bounded_by left s" and "sum left {..<length (threads s)} \<le> n"
  shows "\<exists>more. length more \<le> n \<and> (\<forall>t. \<not> unfinished t (interleave more s))"
  using assms
proof (induction n arbitrary: s left)
  case (0 s)
  have "\<not> unfinished t s" for t
  proof
    assume "unfinished t s"
    with somebody_moves [OF 0(1)] bounded_step [OF 0(2)]
    obtain k where "k < length (threads s)" "0 < left k" by (auto simp: unfinished_def)
    with 0(3) show False by simp
  qed
  then show ?case by (intro exI [of _ "[]"]) (simp add: interleave_def)
next
  case (Suc n)
  show ?case
  proof (cases "\<exists>t. unfinished t s")
    case False
    then show ?thesis by (intro exI [of _ "[]"]) (simp add: interleave_def)
  next
    case True
    with somebody_moves [OF Suc.prems(1)] obtain k where k: "unfinished k s" "\<not> waiting k s" by blast
    note next_step = bounded_step [OF Suc.prems(2) k]
    have kn: "k \<in> {..<length (threads s)}" using k(1) by (simp add: unfinished_def)
    have "sum (left(k := left k - 1)) {..<length (threads s)} < sum left {..<length (threads s)}"
      using kn next_step by (intro sum_strict_mono_ex1) auto
    with Suc.prems(3) have "sum (left(k := left k - 1)) {..<length (threads (step k s))} \<le> n"
      by (simp add: step_others)
    from Suc.IH [OF lock_step [OF Suc.prems(1)] _ this] next_step
    obtain more where "length more \<le> n" "\<forall>t. \<not> unfinished t (interleave more (step k s))" by blast
    then show ?thesis by (intro exI [of _ "k # more"]) (simp add: interleave_Cons)
  qed
qed


end
