(* ===== verification/Overlaps.thy ===== *)
theory Overlaps
  imports Progress
begin

text \<open>
  Runs of overlapping requests on the databases of \<open>Scenario\<close>: instances of the properties
  that hold under every schedule, and five schedules under which a property of the
  sequential model is lost.
\<close>

definition two_claims :: "operation list" where
  "two_claims = [Claim (demo_env 8) demo_node, Claim (demo_env 9) demo_node]"

definition two_completions :: "operation list" where
  "two_completions = [Complete (demo_env 9) demo_node 96 0 None, Complete (demo_env 10) demo_node 96 0 None]"

definition cancel_and_claim :: "operation list" where
  "cancel_and_claim = [Cancel (demo_env 8) demo_user 96 None None, Claim (demo_env 9) demo_node]"

text \<open>Two agents present the one claim token of \<open>demo_stage 4\<close>.\<close>

definition demo_registration :: register_request where
  "demo_registration = \<lparr>g_claim_token = ''gpuclaim_004token'', g_gpu_model = ''A100'',
     g_gpu_memory_gb = 80, g_gpu_count = 2, g_suggested_name = None\<rparr>"

definition two_registrations :: "operation list" where
  "two_registrations = [Register (demo_env 5) demo_registration None None,
     Register (demo_env 6) demo_registration None None]"

text \<open>In each schedule the first transaction has read what it decides on before the second one commits.\<close>

definition claims_run :: system where
  "claims_run = interleave [0,1,0,1,0,0,0,0,1,1,1,1] (start demo_queued two_claims)"

definition completions_run :: system where
  "completions_run = interleave [0,1,0,0,0,0,0,0,1,1,1,1,1,1] (start demo_running two_completions)"

definition cancel_run_late :: system where
  "cancel_run_late = interleave [0,1,1,1,1,1,1,0,0,0,0] (start demo_queued cancel_and_claim)"

definition complete_and_approve :: "operation list" where
  "complete_and_approve = [Complete (demo_env 9) demo_node 96 0 None,
     Approve (demo_env 10) demo_user 16 True 100 None None]"

definition approval_run :: system where
  "approval_run = interleave [0,0,1,1,1,1,1,0,0,0,0,0] (start demo_running complete_and_approve)"

definition registrations_run :: system where
  "registrations_run = interleave [0,1,0,0,0,0,0,1,1,1,1,1] (start (demo_stage 4) two_registrations)"

text \<open>The job that a request answered with.\<close>

definition answered_job :: "(error + answer) option \<Rightarrow> job option" where
  "answered_job r = (case r of Some (Inr (AnswerJob oj)) \<Rightarrow> oj | _ \<Rightarrow> None)"

lemma answered_jobD: "answered_job r = Some j \<Longrightarrow> r = Some (Inr (AnswerJob (Some j)))"
  by (auto simp: answered_job_def split: option.splits sum.splits answer.splits)

lemma claims_answers:
  "map_option j_id (answered_job (result 0 claims_run)) = Some 96"
  "map_option j_id (answered_job (result 1 claims_run)) = Some 112"
  by code_simp+

theorem claims_disjoint_witness:
  "\<exists>j j'. result 0 claims_run = Some (Inr (AnswerJob (Some j))) \<and>
     result 1 claims_run = Some (Inr (AnswerJob (Some j'))) \<and> j_id j \<noteq> j_id j' \<and>
     no_queued (j_id j) (shared claims_run) \<and> no_queued (j_id j') (shared claims_run)"
proof -
  from claims_answers obtain j j' where "answered_job (result 0 claims_run) = Some j"
    and "answered_job (result 1 claims_run) = Some j'" by auto
  then have r: "result 0 claims_run = Some (Inr (AnswerJob (Some j)))"
    "result 1 claims_run = Some (Inr (AnswerJob (Some j')))" by (simp_all add: answered_jobD)
  have ops: "0 < length two_claims" "1 < length two_claims" "(0::nat) \<noteq> 1"
    "two_claims ! 0 = Claim (demo_env 8) demo_node" "two_claims ! 1 = Claim (demo_env 9) demo_node"
    by (simp_all add: two_claims_def)
  from claims_disjoint [OF claims_run_def ops r] r show ?thesis by blast
qed

theorem serial_is_sequential_witness:
  "let s = interleave (serial 2) (start demo_queued two_claims) in
    shared s = sequentially two_claims demo_queued \<and>
    result 1 s = Some (fst (run_svc (service_of (two_claims ! 1)) (sequentially (take 1 two_claims) demo_queued)))"
proof -
  have found: "find_node (n_id demo_node) demo_queued = Some demo_node"
    "find_node (n_id demo_node) (sequentially (take 1 two_claims) demo_queued) = Some demo_node" by code_simp+
  have "admissible (sequentially (take t two_claims) demo_queued) (two_claims ! t)"
    if "t < length two_claims" for t
  proof -
    have "t = 0 \<or> t = 1" using that by (auto simp: two_claims_def)
    then show ?thesis
    proof
      assume "t = 0"
      then show ?thesis using found(1) by (simp add: two_claims_def admissible_def sequentially_def)
    next
      assume t: "t = 1"
      have "two_claims ! 1 = Claim (demo_env 9) demo_node" by (simp add: two_claims_def)
      with t found(2) show ?thesis by (simp add: admissible_def)
    qed
  qed
  with serial_is_sequential [OF demo_ok(1), of two_claims] show ?thesis
    by (simp add: Let_def two_claims_def eval_nat_numeral)
qed



section \<open>What is lost when requests overlap\<close>

lemma claims_lost: "\<not> one_running (jobs (shared claims_run))"
proof -
  have "\<exists>j \<in> set (jobs (shared claims_run)). \<exists>j' \<in> set (jobs (shared claims_run)).
     running_on 81 j \<and> running_on 81 j' \<and> j_id j \<noteq> j_id j'" by code_simp
  then show ?thesis by (auto simp: one_running_def running_on_def job_status_literals) metis
qed

definition answered :: "string \<Rightarrow> (error + answer) option \<Rightarrow> bool" where
  "answered st r \<longleftrightarrow> map_option j_status (answered_job r) = Some st"

definition answered_node :: "(error + answer) option \<Rightarrow> (uuid \<times> string) option" where
  "answered_node r = (case r of Some (Inr (AnswerNode nd (Some token))) \<Rightarrow> Some (n_id nd, token) | _ \<Rightarrow> None)"

text \<open>What is read off a run, so that the kernel evaluates each run once.\<close>

definition completions_report :: "system \<Rightarrow> bool \<times> bool \<times> nat \<times> int list" where
  "completions_report s = (answered COMPLETED (result 0 s), answered COMPLETED (result 1 s),
     length (filter (\<lambda>a. a_event_type a = ''job.completed'') (audit_events (shared s))),
     map u_credits_gpu_hours (users (shared s)))"

definition cancel_report :: "system \<Rightarrow> bool \<times> bool \<times> (string \<times> uuid option) list \<times> bool" where
  "cancel_report s = (answered CANCELLED (result 0 s), answered RUNNING (result 1 s),
     map (\<lambda>j. (j_status j, j_assigned_node_id j)) (jobs (shared s)), list_all job_ok (jobs (shared s)))"

definition approval_report :: "system \<Rightarrow> bool \<times> int list \<times> int list" where
  "approval_report s = (answered COMPLETED (result 0 s),
     (case result 1 s of Some (Inr (AnswerUser u)) \<Rightarrow> [u_credits_gpu_hours u] | _ \<Rightarrow> []),
     map u_credits_gpu_hours (users (shared s)))"

lemma approval_reported: "approval_report approval_run = (True, [100], [39])"
  by code_simp

definition registrations_report ::
  "system \<Rightarrow> (uuid \<times> string) option \<times> (uuid \<times> string) option \<times> (uuid \<times> string option) list \<times> nat" where
  "registrations_report s = (answered_node (result 0 s), answered_node (result 1 s),
     map (\<lambda>nd. (n_id nd, n_agent_token_prefix nd)) (nodes (shared s)), length (claim_tokens (shared s)))"

lemma registrations_reported: "registrations_report registrations_run =
    (Some (81, ''gpuagent_005token''), Some (97, ''gpuagent_006token''),
     [(81, Some ''gpuagent_005''), (97, Some ''gpuagent_006'')], 1)"
  by code_simp

lemma completions_reported: "completions_report completions_run = (True, True, 2, [38])"
  by code_simp

lemma cancel_reported: "cancel_report cancel_run_late =
    (True, True, [(CANCELLED, Some (n_id demo_node)), (QUEUED, None)], False)"
  by code_simp

lemma credits_before: "map u_credits_gpu_hours (users demo_running) = [40]"
  by code_simp


end
