(* ===== verification/ErrorContract.thy ===== *)
theory ErrorContract
  imports Scenario
begin

text \<open>
  Which exceptions reach the exception handlers of \<open>app/main.py\<close>, endpoint by endpoint.
\<close>

section \<open>What a method can raise\<close>

definition raises :: "(error \<Rightarrow> bool) \<Rightarrow> 'a svc \<Rightarrow> bool" where
  "raises E m \<longleftrightarrow> (\<forall>s. wp m (\<lambda>r _. case r of Inl err \<Rightarrow> E err | Inr _ \<Rightarrow> True) s)"

named_theorems raises_intros "what a method raises, from its parts"

lemma raises_ret [raises_intros]: "raises E (ret x)"
  and raises_query [raises_intros]: "raises E (query f)"
  and raises_commit [raises_intros]: "raises E commit"
  and raises_rollback [raises_intros]: "raises E rollback"
  and raises_throw [raises_intros]: "E err \<Longrightarrow> raises E (throw err)"
  by (simp_all add: raises_def wp_simps)

lemma raises_lift_result [raises_intros]: "(\<And>err. x = Inl err \<Longrightarrow> E err) \<Longrightarrow> raises E (lift_result x)"
  by (simp add: raises_def wp_simps split: sum.split)

lemma raises_modify [raises_intros]: "(\<And>d err. f d = Inl err \<Longrightarrow> E err) \<Longrightarrow> raises E (modify f)"
  by (auto simp: raises_def wp_simps split: sum.split)

lemma raises_bindS [raises_intros]:
  "raises E m \<Longrightarrow> (\<And>x. raises E (f x)) \<Longrightarrow> raises E (bindS m f)"
  unfolding raises_def wp_bindS
  by (intro allI, erule allE, erule wp_mono) (auto split: sum.splits)

lemma raises_query_then: "(\<And>d. raises E (k (f d))) \<Longrightarrow> raises E (bindS (query f) k)"
  by (simp add: raises_def wp_simps)

lemma map_sum_Inl_iff: "map_sum id g x = Inl err \<longleftrightarrow> x = Inl err"
  by (cases x) simp_all

lemma raises_thenS [raises_intros]: "raises E m \<Longrightarrow> raises E k \<Longrightarrow> raises E (thenS m k)"
  by (simp add: thenS_def raises_bindS)

lemma raises_catch:
  "raises E' m \<Longrightarrow> (\<And>err. E' err \<Longrightarrow> raises E (h err)) \<Longrightarrow> raises E (catch m h)"
  unfolding raises_def wp_catch
  by (intro allI, erule allE, erule wp_mono) (auto split: sum.splits)

lemma raises_if [raises_intros]:
  "(b \<Longrightarrow> raises E m) \<Longrightarrow> (\<not> b \<Longrightarrow> raises E k) \<Longrightarrow> raises E (if b then m else k)"
  by simp

lemma raises_option [raises_intros]:
  "raises E m \<Longrightarrow> (\<And>y. raises E (f y)) \<Longrightarrow> raises E (case x of None \<Rightarrow> m | Some y \<Rightarrow> f y)"
  by (simp split: option.split)

lemma raises_prod [raises_intros]: "(\<And>a b. raises E (f a b)) \<Longrightarrow> raises E (case x of (a, b) \<Rightarrow> f a b)"
  by (cases x) simp

lemma raises_respond [raises_intros]: "raises E m \<Longrightarrow> raises E (respond f m)"
  unfolding respond_def by (intro raises_intros)

section \<open>The errors of the endpoints\<close>

definition for_admins :: "request \<Rightarrow> bool" where
  "for_admins q = (case q of GetUsers _ _ _ _ \<Rightarrow> True | GetUser _ \<Rightarrow> True | PostApprove _ _ _ \<Rightarrow> True
     | PostSuspend _ \<Rightarrow> True | GetAudit _ _ _ _ _ _ _ \<Rightarrow> True | GetAuditEvent _ \<Rightarrow> True
     | PostForceKill _ \<Rightarrow> True | PostForceDrain _ \<Rightarrow> True | GetDashboard \<Rightarrow> True | _ \<Rightarrow> False)"

definition for_anyone :: "request \<Rightarrow> bool" where
  "for_anyone q = (case q of PostSignup _ _ \<Rightarrow> True | PostLogin _ _ \<Rightarrow> True | PostRegister _ \<Rightarrow> True | _ \<Rightarrow> False)"

text \<open>The endpoints with a body or query parameters, about a job, and about a node.\<close>

definition has_input :: "request \<Rightarrow> bool" where
  "has_input q = (case q of PostSignup _ _ \<Rightarrow> True | PostLogin _ _ \<Rightarrow> True | PostKey _ \<Rightarrow> True
     | PostJob _ \<Rightarrow> True | GetJobs _ _ _ \<Rightarrow> True | PostComplete _ _ _ \<Rightarrow> True | PostLogs _ _ \<Rightarrow> True
     | GetLogs _ _ _ \<Rightarrow> True | PostRegister _ \<Rightarrow> True | PostMetrics _ _ \<Rightarrow> True | GetUsers _ _ _ _ \<Rightarrow> True
     | PostApprove _ _ _ \<Rightarrow> True | GetAudit _ _ _ _ _ _ _ \<Rightarrow> True | _ \<Rightarrow> False)"

definition finishes_job :: "request \<Rightarrow> bool" where
  "finishes_job q = (case q of PostCancel _ \<Rightarrow> True | PostComplete _ _ _ \<Rightarrow> True | PostForceKill _ \<Rightarrow> True | _ \<Rightarrow> False)"

definition names_job :: "request \<Rightarrow> bool" where
  "names_job q = (finishes_job q \<or> (case q of GetJob _ \<Rightarrow> True | PostLogs _ _ \<Rightarrow> True | GetLogs _ _ _ \<Rightarrow> True | _ \<Rightarrow> False))"

definition names_node :: "request \<Rightarrow> bool" where
  "names_node q = (case q of GetNode _ \<Rightarrow> True | PostDrain _ \<Rightarrow> True | PostUndrain _ \<Rightarrow> True
     | DeleteNode _ \<Rightarrow> True | PostForceDrain _ \<Rightarrow> True | _ \<Rightarrow> False)"

definition has_pages :: "request \<Rightarrow> bool" where
  "has_pages q = (case q of GetJobs _ _ _ \<Rightarrow> True | GetUsers _ _ _ _ \<Rightarrow> True | GetAudit _ _ _ _ _ _ _ \<Rightarrow> True | _ \<Rightarrow> False)"

text \<open>
  One equation per exception: the endpoints it can come from. The last five are what no
  handler catches.
\<close>

fun declared :: "request \<Rightarrow> error \<Rightarrow> bool" where
  "declared q (EmailAlreadyExists _) = (case q of PostSignup _ _ \<Rightarrow> True | _ \<Rightarrow> False)"
| "declared q InvalidCredentials = (case q of PostLogin _ _ \<Rightarrow> True | _ \<Rightarrow> False)"
| "declared q (UserNotFound _) =
     (case q of GetUser _ \<Rightarrow> True | PostApprove _ _ _ \<Rightarrow> True | PostSuspend _ \<Rightarrow> True | _ \<Rightarrow> False)"
| "declared q (AuditEventNotFound _) = (case q of GetAuditEvent _ \<Rightarrow> True | _ \<Rightarrow> False)"
| "declared q (ApiKeyNotFound _) = (case q of DeleteKey _ \<Rightarrow> True | _ \<Rightarrow> False)"
| "declared q ApiKeyNotOwned = (case q of DeleteKey _ \<Rightarrow> True | _ \<Rightarrow> False)"
| "declared q NotAHost = (case q of PostClaimToken \<Rightarrow> True | _ \<Rightarrow> False)"
| "declared q (NodeNotFound _) = names_node q"
| "declared q (NodeBusy _) = (case q of DeleteNode _ \<Rightarrow> True | _ \<Rightarrow> False)"
| "declared q (NodeNotDraining _ _) = (case q of PostUndrain _ \<Rightarrow> True | _ \<Rightarrow> False)"
| "declared q (ClaimTokenInvalid _) = (case q of PostRegister _ \<Rightarrow> True | _ \<Rightarrow> False)"
| "declared q (AccountNotActive _) = (case q of PostKey _ \<Rightarrow> True | PostJob _ \<Rightarrow> True | _ \<Rightarrow> False)"
| "declared q InvalidPaginationCursor = has_pages q"
| "declared q (InsufficientCredits _ _) = (case q of PostJob _ \<Rightarrow> True | _ \<Rightarrow> False)"
| "declared q (JobNotFound _) = names_job q"
| "declared q JobNotOwned = False"
| "declared q (InvalidJobTransition _ _) = finishes_job q"
| "declared q InvalidCursorError = False"
| "declared q (HTTPException code _ authenticate) =
     (if authenticate then code = 401 \<and> \<not> for_anyone q
      else code = 403 \<and> (for_admins q \<or> (case q of PostHeartbeat _ \<Rightarrow> True | PostMetrics _ _ \<Rightarrow> True | _ \<Rightarrow> False)))"
| "declared q RequestValidationError = has_input q"
| "declared q (IntegrityError _) = True"
| "declared q (DataError _) = True"
| "declared q CardinalityViolation = (case q of PostMetrics _ _ \<Rightarrow> True | _ \<Rightarrow> False)"
| "declared q AttributeError = (\<not> for_anyone q)"
| "declared q (KeyError _) = False"

lemmas route_defs = for_admins_def for_anyone_def has_input_def finishes_job_def names_job_def
  names_node_def has_pages_def

section \<open>Repositories and services\<close>

text \<open>What the database refuses is an integrity or a data error.\<close>

lemma raises_repos [raises_intros]:
  "raises (declared q) (audit_repo_create e i t u fs ip ua)"
  "raises (declared q) (user_repo_get_by_email m)" "raises (declared q) (user_repo_get_by_id i)"
  "raises (declared q) (user_repo_create e i m h)"
  "raises (declared q) (api_key_repo_create e i k name p h)" "raises (declared q) (api_key_repo_get_by_id i)"
  "raises (declared q) (api_key_repo_revoke now key)"
  "raises (declared q) (audit_repo_list_filtered e tt q' ipp lo hi cur n)"
  "raises (declared q) (claim_repo_create e i k p h x)" "raises (declared q) (claim_repo_get_by_prefix p)"
  "raises (declared q) (claim_repo_mark_consumed now c)"
  "raises (declared q) (node_repo_create e i k name gm mem gc st tp th seen)"
  "raises (declared q) (node_repo_update_last_seen now nd)" "raises (declared q) (node_repo_get_by_id i)"
  "raises (declared q) (node_repo_set_status nd st)" "raises (declared q) (node_repo_delete nd)"
  "raises (declared q) (job_repo_create e i k img cmd g dur pref)" "raises (declared q) (job_repo_get_by_id i)"
  "raises (declared q) (job_repo_get_running_for_node i)"
  "raises (declared q) (job_repo_claim_next_for_node e now i g)"
  "raises (declared q) (job_repo_mark_terminal now j st code msg)" "raises (declared q) (job_repo_request_cancel now j)"
  unfolding repo_defs audit_repo_create_def Let_def
  by (auto intro!: raises_intros simp: insert_audit_def insert_user_def insert_api_key_def insert_claim_def
      insert_node_def flush_node_def delete_node_row_def insert_job_def assign_job_def flush_job_def
      split: if_splits)

lemma insert_logs_errors: "insert_logs e i k xs ls = Inl err \<Longrightarrow> declared q err"
  by (induction e i k xs ls rule: insert_logs.induct) (auto split: if_splits sum.splits)

lemma append_errors: "append_log_rows e i xs d = Inl err \<Longrightarrow> declared q err"
  by (auto simp: append_log_rows_def intro: insert_logs_errors split: if_splits sum.splits prod.splits)

lemma raises_append_logs [raises_intros]: "raises (declared q) (job_log_repo_append e i xs)"
  unfolding job_log_repo_append_def
proof (intro raises_if raises_ret raises_query_then)
  fix d
  let ?r = "append_log_rows e i xs d"
  show "raises (declared q) (case map_sum id fst ?r of Inl err \<Rightarrow> throw err
      | Inr m \<Rightarrow> thenS (modify (\<lambda>d. map_sum id snd (append_log_rows e i xs d))) (ret m))"
    by (cases ?r) (auto intro!: raises_intros append_errors simp: map_sum_Inl_iff)
qed

lemma raises_flush_user [raises_intros]: "raises (declared q) (modify (flush_user e u u'))"
  by (rule raises_modify) (auto simp: flush_user_def split: if_splits)

lemma raises_charge [raises_intros]: "raises (declared q) (charge_user e i b)"
  unfolding charge_user_def by (intro raises_intros)

lemma raises_upsert [raises_intros]:
  "declared q CardinalityViolation \<Longrightarrow> raises (declared q) (node_metric_repo_upsert_samples now i ss)"
  unfolding node_metric_repo_upsert_samples_def
  by (auto intro!: raises_intros simp: upsert_metric_rows_def Let_def split: if_splits)

text \<open>The caller of an endpoint that wants one.\<close>

lemma raises_user_by_id: "raises (\<lambda>err. \<exists>m. err = UserNotFound m) (get_user_by_id i)"
  unfolding get_user_by_id_def user_repo_get_by_id_def by (intro raises_intros) auto

lemma raises_current_user [raises_intros]:
  assumes "\<not> for_anyone q"
  shows "raises (declared q) (get_current_user e r)"
proof -
  have key: "raises (declared q) (authenticate_key e token)" for token
    unfolding authenticate_key_def api_key_repo_get_by_prefix_def by (intro raises_intros)
  have sub: "raises (declared q) (catch (get_user_by_id i) (\<lambda>err. case err of
      UserNotFound _ \<Rightarrow> throw (unauthorized ''User no longer exists'') | _ \<Rightarrow> throw err))" for i
    using assms
    by (intro raises_catch [OF raises_user_by_id]) (auto intro!: raises_throw simp: unauthorized_def)
  show ?thesis
    using assms unfolding get_current_user_def
    by (auto intro!: raises_intros key sub simp: unauthorized_def split: json.split)
qed

lemma raises_require_admin [raises_intros]:
  "for_admins q \<Longrightarrow> raises (declared q) (require_admin e r)"
  unfolding require_admin_def
  by (auto intro!: raises_intros simp: route_defs split: request.splits)

lemma raises_current_node [raises_intros]:
  "\<not> for_anyone q \<Longrightarrow> raises (declared q) (get_current_node e r)"
  unfolding get_current_node_def authenticate_agent_def node_repo_get_by_agent_prefix_def
  by (auto intro!: raises_intros simp: unauthorized_def)

lemma raises_validated [raises_intros]:
  "has_input q \<Longrightarrow> raises (declared q) m \<Longrightarrow> raises (declared q) (validated ok m)"
  unfolding validated_def by (auto intro!: raises_intros)

lemma raises_validated_email [raises_intros]:
  "has_input q \<Longrightarrow> (\<And>m. raises (declared q) (f m)) \<Longrightarrow> raises (declared q) (validated_email e m0 f)"
  unfolding validated_email_def by (auto intro!: raises_intros)

text \<open>A bad cursor is answered as such on every endpoint with pages.\<close>

lemma decoded_cursor_errors:
  "decoded_cursor e c = Inl err \<Longrightarrow> err = InvalidCursorError \<or> err = AttributeError"
  by (auto simp: decoded_cursor_def decode_cursor_errors split: option.splits if_splits sum.splits)

lemma raises_catch_cursor:
  assumes "has_pages q" and "\<not> for_anyone q"
    and "raises (\<lambda>err. err = InvalidCursorError \<or> declared q err) m"
  shows "raises (declared q) (catch_cursor m)"
  unfolding catch_cursor_def
  by (rule raises_catch [OF assms(3)]) (use assms(1) in \<open>auto intro!: raises_throw split: error.split\<close>)

lemma raises_weaken: "raises E m \<Longrightarrow> (\<And>err. E err \<Longrightarrow> E' err) \<Longrightarrow> raises E' m"
  unfolding raises_def by (intro allI, erule allE, erule wp_mono) (auto split: sum.splits)

lemma raises_pages [raises_intros]:
  assumes "has_pages q" and "\<not> for_anyone q" and "\<And>x. raises (declared q) (f x)"
  shows "raises (declared q) (catch_cursor (bindS (lift_result (decoded_cursor e c)) f))"
proof (rule raises_catch_cursor [OF assms(1,2)], rule raises_bindS)
  show "raises (\<lambda>err. err = InvalidCursorError \<or> declared q err) (lift_result (decoded_cursor e c))"
    using assms(2) by (auto intro!: raises_lift_result dest: decoded_cursor_errors)
  show "raises (\<lambda>err. err = InvalidCursorError \<or> declared q err) (f x)" for x
    using assms(3) by (rule raises_weaken) simp
qed

lemma count_nodes_total: "count_nodes now nds (zeros NODE_STATUSES) \<noteq> Inl err"
proof -
  have "set NODE_STATUSES \<subseteq> fst ` set (zeros NODE_STATUSES)" by (force simp: zeros_def)
  then obtain m where "count_nodes now nds (zeros NODE_STATUSES) = Inr m" using count_nodes_lookup by blast
  then show ?thesis by simp
qed

lemma raises_dashboard [raises_intros]: "raises E (dashboard e)"
  unfolding dashboard_def Let_def by (intro raises_intros) (simp add: count_nodes_total)

section \<open>Every endpoint\<close>

lemma raises_accounts:
  "raises (declared (PostSignup m pw)) (h_signup e r m pw)"
  "raises (declared (PostLogin m pw)) (h_login e r m pw)" "raises (declared GetMe) (h_me e r)"
  "raises (declared (PostKey name)) (h_generate_key e r name)" "raises (declared GetKeys) (h_list_keys e r)"
  "raises (declared (DeleteKey i)) (h_revoke_key e r i)"
  unfolding h_signup_def h_login_def h_me_def h_generate_key_def h_list_keys_def h_revoke_key_def
    signup_def login_def login_failed_def generate_key_def list_keys_for_def revoke_key_def
    api_key_repo_list_for_user_def Let_def
  by (intro raises_intros; simp add: route_defs)+

lemma raises_transition [raises_intros]:
  "finishes_job q \<Longrightarrow> raises (declared q) (assert_transition s t)"
  unfolding assert_transition_def by (auto intro!: raises_intros)

lemma raises_cancel [raises_intros]:
  "finishes_job q \<Longrightarrow> raises (declared q) (cancel_or_request_cancel e j ev u uid extra ip ua)"
  unfolding cancel_or_request_cancel_def by (intro raises_intros)

lemma raises_jobs:
  "raises (declared (PostJob p)) (h_submit_job e r p)"
  "raises (declared (GetJobs st cur n)) (h_list_jobs e r st cur n)"
  "raises (declared PostClaim) (h_claim_job e r)" "raises (declared (GetJob i)) (h_get_job e r i)"
  "raises (declared (PostCancel i)) (h_cancel_job e r i)"
  "raises (declared (PostComplete i code msg)) (h_complete_job e r i code msg)"
  "raises (declared (PostLogs i xs)) (h_push_logs e r i xs)"
  "raises (declared (GetLogs i sq n)) (h_get_logs e r i sq n)"
  "raises (declared (PostForceKill i)) (h_force_kill_job e r i)"
  unfolding h_submit_job_def h_list_jobs_def h_claim_job_def h_get_job_def h_cancel_job_def
    h_complete_job_def h_push_logs_def h_get_logs_def h_force_kill_job_def submit_def
    list_jobs_for_user_def claim_for_node_def get_job_for_user_def cancel_job_def complete_job_def
    append_logs_def get_logs_for_user_def admin_force_kill_def job_repo_list_for_user_def
    job_log_repo_list_after_def Let_def
  by (intro raises_intros; simp add: route_defs)+

lemma raises_same_node [raises_intros]:
  "declared q (HTTPException 403 ''Agent token does not match node'' False) \<Longrightarrow>
   raises (declared q) m \<Longrightarrow> raises (declared q) (same_node nd i m)"
  unfolding same_node_def by (intro raises_intros)

lemma raises_nodes:
  "raises (declared PostClaimToken) (h_create_claim_token e r)"
  "raises (declared (PostRegister g)) (h_register_node e r g)"
  "raises (declared GetNodes) (h_list_nodes e r)" "raises (declared (GetNode i)) (h_get_node e r i)"
  "raises (declared (PostHeartbeat i)) (h_heartbeat e r i)"
  "raises (declared (PostDrain i)) (h_drain_node e r i)"
  "raises (declared (PostUndrain i)) (h_undrain_node e r i)"
  "raises (declared (DeleteNode i)) (h_delete_node e r i)"
  "raises (declared (PostMetrics i ss)) (h_push_metrics e r i ss)"
  "raises (declared (PostForceDrain i)) (h_force_drain_node e r i)"
  unfolding h_create_claim_token_def h_register_node_def h_list_nodes_def h_get_node_def h_heartbeat_def
    h_drain_node_def h_undrain_node_def h_delete_node_def h_push_metrics_def h_force_drain_node_def
    create_claim_token_def register_node_def list_nodes_for_user_def node_repo_list_for_user_def
    get_owned_node_def get_current_job_def record_heartbeat_def drain_node_def get_owned_for_actor_def
    undrain_node_def delete_node_def record_metrics_def admin_force_drain_def Let_def
  by (intro raises_intros; simp add: route_defs)+

lemma raises_admin:
  "raises (declared (GetUsers st m cur n)) (h_list_users e r st m cur n)"
  "raises (declared (GetUser i)) (h_get_user_detail e r i)"
  "raises (declared (PostApprove i host credits)) (h_approve_user e r i host credits)"
  "raises (declared (PostSuspend i)) (h_suspend_user e r i)"
  "raises (declared (GetAudit t m ip lo hi cur n)) (h_list_audit_events e r t m ip lo hi cur n)"
  "raises (declared (GetAuditEvent i)) (h_get_audit_event e r i)"
  "raises (declared GetDashboard) (h_dashboard e r)"
  unfolding h_list_users_def h_get_user_detail_def h_approve_user_def h_suspend_user_def
    h_list_audit_events_def h_get_audit_event_def h_dashboard_def list_users_def
    user_repo_list_filtered_def get_user_detail_def audit_repo_get_signup_ip_def approve_user_def
    suspend_user_def get_user_by_id_def list_audit_events_def get_audit_event_def
    audit_repo_get_with_email_def Let_def
  by (intro raises_intros; simp add: route_defs)+

lemma raises_handle: "raises (declared q) (handle e r q)"
  by (cases q) (auto intro!: raises_respond raises_accounts raises_jobs raises_nodes raises_admin)

lemma run_raises: "raises E m \<Longrightarrow> fst (run_svc m d) = Inl err \<Longrightarrow> E err"
proof -
  assume "raises E m" and run: "fst (run_svc m d) = Inl err"
  then have "wp m (\<lambda>r _. case r of Inl err \<Rightarrow> E err | Inr _ \<Rightarrow> True) (begin_session d)"
    by (simp add: raises_def)
  moreover obtain s where "m (begin_session d) = (Inl err, s)"
    using run by (cases "m (begin_session d)") (simp add: run_svc_def)
  ultimately show "E err" by (simp add: wp_def)
qed



end
