(* ===== verification/Responses.thy ===== *)
theory Responses
  imports ErrorContract
begin

text \<open>
  The types of the answers: which response model each endpoint fills and what is in it.
\<close>

section \<open>Well-typed answers\<close>

text \<open>
  The status strings of the models; \<open>has_status\<close> reads the computed status of a node.
\<close>

definition job_status_ok :: "job_public \<Rightarrow> bool" where
  "job_status_ok j \<longleftrightarrow> jp_status j \<in> JOB_STATUSES"

text \<open>A page has at most as many items as were asked for, and a next cursor exactly when it is full.\<close>

definition page_ok :: "int \<Rightarrow> 'a list \<Rightarrow> string option \<Rightarrow> bool" where
  "page_ok n rows next \<longleftrightarrow> int (length rows) \<le> n \<and> (next \<noteq> None \<longleftrightarrow> int (length rows) = n)"

definition asked :: "string option \<Rightarrow> string \<Rightarrow> bool" where
  "asked wanted st \<longleftrightarrow> (case wanted of None \<Rightarrow> True | Some w \<Rightarrow> st = w)"

definition node_view_ok :: "uuid \<Rightarrow> string list \<Rightarrow> response \<Rightarrow> bool" where
  "node_view_ok i sts x = (case x of RNode nd \<Rightarrow> np_id nd = i \<and> np_status nd \<in> set sts | _ \<Rightarrow> False)"

definition cancel_view_ok :: "uuid \<Rightarrow> response \<Rightarrow> bool" where
  "cancel_view_ok i x = (case x of
     RJob j \<Rightarrow> jp_id j = i \<and> (jp_status j = CANCELLED \<or> jp_status j = RUNNING) | _ \<Rightarrow> False)"

text \<open>One line per endpoint: the response model, and what the request says about its fields.\<close>

definition well_typed :: "request \<Rightarrow> response \<Rightarrow> bool" where
  "well_typed q x = (case q of
     PostSignup _ _ \<Rightarrow> (case x of RUser u \<Rightarrow> ur_status u = ''pending'' \<and> \<not> ur_is_admin u \<and> ur_credits_gpu_hours u = 0 | _ \<Rightarrow> False)
   | PostLogin _ _ \<Rightarrow> (case x of RToken t \<Rightarrow> tr_token_type t = ''bearer'' | _ \<Rightarrow> False)
   | GetMe \<Rightarrow> (case x of RUser u \<Rightarrow> 0 \<le> ur_credits_gpu_hours u | _ \<Rightarrow> False)
   | PostKey name \<Rightarrow> (case x of RKey k \<Rightarrow> kg_name k = name \<and> kg_prefix k = api_key_lookup_prefix (kg_full_key k) | _ \<Rightarrow> False)
   | GetKeys \<Rightarrow> (case x of RKeys _ \<Rightarrow> True | _ \<Rightarrow> False)
   | DeleteKey i \<Rightarrow> (case x of RKeyPublic k \<Rightarrow> kp_id k = i \<and> kp_revoked_at k \<noteq> None | _ \<Rightarrow> False)
   | PostJob p \<Rightarrow> (case x of RJob j \<Rightarrow> jp_status j = QUEUED \<and> jp_docker_image j = r_docker_image p \<and>
       jp_command j = r_command p \<and> jp_gpu_count j = r_gpu_count p \<and> jp_exit_code j = None | _ \<Rightarrow> False)
   | GetJobs st _ n \<Rightarrow> (case x of RJobs js next \<Rightarrow> page_ok n js next \<and>
       list_all (\<lambda>j. job_status_ok j \<and> asked st (jp_status j)) js | _ \<Rightarrow> False)
   | PostClaim \<Rightarrow> (case x of NoContent \<Rightarrow> True | RAssignment _ \<Rightarrow> True | _ \<Rightarrow> False)
   | GetJob i \<Rightarrow> (case x of RJob j \<Rightarrow> jp_id j = i \<and> job_status_ok j | _ \<Rightarrow> False)
   | PostCancel i \<Rightarrow> cancel_view_ok i x
   | PostComplete i code msg \<Rightarrow> (case x of RJob j \<Rightarrow> jp_id j = i \<and> jp_status j \<in> TERMINAL_STATUSES \<and>
       jp_exit_code j = Some code \<and> jp_error_message j = msg | _ \<Rightarrow> False)
   | PostLogs _ _ \<Rightarrow> x = NoContent
   | GetLogs _ sq n \<Rightarrow> (case x of RLogs ls \<Rightarrow> int (length ls) \<le> n \<and> list_all (\<lambda>l. sq < lo_sequence l) ls | _ \<Rightarrow> False)
   | PostClaimToken \<Rightarrow> (case x of RClaimToken c \<Rightarrow> cr_prefix c = claim_token_lookup_prefix (cr_token c) | _ \<Rightarrow> False)
   | PostRegister _ \<Rightarrow> (case x of RRegistered g \<Rightarrow> starts_with (rr_agent_token g) AGENT_TOKEN_PREFIX | _ \<Rightarrow> False)
   | GetNodes \<Rightarrow> (case x of RNodes nds \<Rightarrow> list_all (\<lambda>nd. np_status nd \<in> set NODE_STATUSES) nds | _ \<Rightarrow> False)
   | GetNode i \<Rightarrow> node_view_ok i NODE_STATUSES x
   | PostHeartbeat _ \<Rightarrow> (case x of RHeartbeat _ \<Rightarrow> True | _ \<Rightarrow> False)
   | PostDrain i \<Rightarrow> node_view_ok i [''draining''] x
   | PostUndrain i \<Rightarrow> node_view_ok i [''online'', ''offline''] x
   | DeleteNode _ \<Rightarrow> x = NoContent
   | PostMetrics _ _ \<Rightarrow> x = NoContent
   | GetUsers st _ _ n \<Rightarrow> (case x of RUsers us next \<Rightarrow> page_ok n us next \<and> list_all (\<lambda>u. asked st (ur_status u)) us | _ \<Rightarrow> False)
   | GetUser i \<Rightarrow> (case x of RUserDetail u _ \<Rightarrow> ur_id u = i | _ \<Rightarrow> False)
   | PostApprove i host credits \<Rightarrow> (case x of RAdminAction _ u \<Rightarrow> ur_id u = i \<and> ur_status u = ''active'' \<and>
       ur_can_host u = host \<and> ur_credits_gpu_hours u = credits | _ \<Rightarrow> False)
   | PostSuspend i \<Rightarrow> (case x of RAdminAction _ u \<Rightarrow> ur_id u = i \<and> ur_status u = ''suspended'' | _ \<Rightarrow> False)
   | GetAudit _ _ _ _ _ _ n \<Rightarrow> (case x of RAudit as next \<Rightarrow> page_ok n as next | _ \<Rightarrow> False)
   | GetAuditEvent i \<Rightarrow> (case x of RAuditEvent a \<Rightarrow> ae_id a = i | _ \<Rightarrow> False)
   | PostForceKill i \<Rightarrow> cancel_view_ok i x
   | PostForceDrain i \<Rightarrow> node_view_ok i [''draining''] x
   | GetDashboard \<Rightarrow> (case x of RDashboard _ \<Rightarrow> True | _ \<Rightarrow> False))"

section \<open>What a method returns\<close>

definition yields :: "('a \<Rightarrow> bool) \<Rightarrow> 'a svc \<Rightarrow> bool" where
  "yields P m \<longleftrightarrow> (\<forall>s. wp m (\<lambda>r _. case r of Inl _ \<Rightarrow> True | Inr x \<Rightarrow> P x) s)"

named_theorems yields_intros "what a method returns, from its parts"

lemma yields_ret [yields_intros]: "P x \<Longrightarrow> yields P (ret x)"
  and yields_throw [yields_intros]: "yields P (throw err)"
  by (simp_all add: yields_def wp_simps)

lemma yields_bind: "yields Q m \<Longrightarrow> (\<And>x. Q x \<Longrightarrow> yields P (f x)) \<Longrightarrow> yields P (bindS m f)"
  unfolding yields_def wp_bindS
  by (intro allI, erule allE, erule wp_mono) (auto split: sum.splits)

lemma yields_any: "yields (\<lambda>_. True) m"
  by (simp add: yields_def wp_def split: prod.split sum.split)

lemma yields_bindS: "(\<And>x. yields P (f x)) \<Longrightarrow> yields P (bindS m f)"
  by (rule yields_bind [OF yields_any])

lemma yields_thenS [yields_intros]: "yields P k \<Longrightarrow> yields P (thenS m k)"
  by (simp add: thenS_def yields_bindS)

lemma yields_query: "(\<And>d. P (f d)) \<Longrightarrow> yields P (query f)"
  by (simp add: yields_def wp_simps)

lemma yields_if [yields_intros]:
  "(b \<Longrightarrow> yields P m) \<Longrightarrow> (\<not> b \<Longrightarrow> yields P k) \<Longrightarrow> yields P (if b then m else k)"
  by simp

lemma yields_option [yields_intros]:
  "(x = None \<Longrightarrow> yields P m) \<Longrightarrow> (\<And>y. x = Some y \<Longrightarrow> yields P (f y)) \<Longrightarrow>
   yields P (case x of None \<Rightarrow> m | Some y \<Rightarrow> f y)"
  by (simp split: option.split)

lemma yields_prod [yields_intros]:
  "(\<And>a b. x = (a, b) \<Longrightarrow> yields P (f a b)) \<Longrightarrow> yields P (case x of (a, b) \<Rightarrow> f a b)"
  by (cases x) simp

lemma yields_respond: "yields (\<lambda>x. P (f x)) m \<Longrightarrow> yields P (respond f m)"
  unfolding respond_def by (rule yields_bind [of "\<lambda>x. P (f x)"]) (auto intro: yields_intros)

lemma yields_validated [yields_intros]: "(ok \<Longrightarrow> yields P m) \<Longrightarrow> yields P (validated ok m)"
  by (simp add: validated_def yields_throw)

lemma yields_validated_email [yields_intros]:
  "(\<And>m. yields P (f m)) \<Longrightarrow> yields P (validated_email e m f)"
  by (simp add: validated_email_def yields_throw split: option.split)

lemma yields_same_node [yields_intros]: "yields P m \<Longrightarrow> yields P (same_node nd i m)"
  by (simp add: same_node_def yields_throw)

lemma yields_catch_cursor [yields_intros]:
  "yields P m \<Longrightarrow> yields P (catch_cursor m)"
  unfolding catch_cursor_def yields_def wp_catch
  by (intro allI, erule allE, erule wp_mono) (auto simp: wp_simps split: sum.splits error.splits)

lemma yields_query_then: "(\<And>d. yields P (k (f d))) \<Longrightarrow> yields P (bindS (query f) k)"
  by (simp add: yields_def wp_simps)

section \<open>The services\<close>

lemma found_id: "find_job i d = Some j \<Longrightarrow> j_id j = i" "find_node i d = Some nd \<Longrightarrow> n_id nd = i"
  "find_user i d = Some u \<Longrightarrow> u_id u = i"
  "lookup_row k_id i (api_keys d) = Some k \<Longrightarrow> k_id k = i" "lookup_row a_id i (audit_events d) = Some a \<Longrightarrow> a_id a = i"
  by (auto dest: lookup_row_SomeD)

lemma ret_bind: "bindS (ret x) f = f x"
  and throw_bind: "bindS (throw err) f = throw err"
  and if_bind: "bindS (if b then m else m') f = (if b then bindS m f else bindS m' f)"
  by (simp_all add: fun_eq_iff bindS_def ret_def throw_def)

lemma bind_assoc: "bindS (bindS m g) f = bindS m (\<lambda>x. bindS (g x) f)"
  by (auto simp: fun_eq_iff bindS_def split: prod.split sum.split)

lemma then_bind: "bindS (thenS m k) f = thenS m (bindS k f)"
  by (simp add: thenS_def bind_assoc)

lemmas svc_laws = ret_bind throw_bind if_bind bind_assoc then_bind

lemma yields_signup:
  "yields (\<lambda>u. u_status u = ''pending'' \<and> \<not> u_is_admin u \<and> u_credits_gpu_hours u = 0) (signup e m pw ip ua)"
  unfolding signup_def user_repo_create_def user_repo_get_by_email_def Let_def svc_laws
  by (auto intro!: yields_query_then yields_intros simp: new_user_def)

lemma yields_generate_key:
  "yields (\<lambda>(k, token). k_name k = name \<and> k_prefix k = api_key_lookup_prefix token) (generate_key e u name ip ua)"
  unfolding generate_key_def api_key_repo_create_def generate_api_key_def Let_def svc_laws
  by (auto intro!: yields_intros simp: api_key_lookup_prefix_def svc_laws)

lemma yields_revoke:
  "yields (\<lambda>k. k_id k = i \<and> k_revoked_at k \<noteq> None) (revoke_key e u i ip ua)"
  unfolding revoke_key_def api_key_repo_get_by_id_def api_key_repo_revoke_def Let_def svc_laws
  by (auto intro!: yields_query_then yields_intros dest: found_id)

lemma yields_submit:
  "yields (\<lambda>j. j_status j = QUEUED \<and> j_docker_image j = img \<and> j_command j = cmd \<and> j_gpu_count j = g \<and>
     j_exit_code j = None) (submit e u img cmd g dur pref ip ua)"
  unfolding submit_def job_repo_create_def Let_def svc_laws
  by (auto intro!: yields_intros simp: new_job_def job_status_literals)

lemma yields_complete:
  "yields (\<lambda>j. j_id j = i \<and> j_status j \<in> TERMINAL_STATUSES \<and> j_exit_code j = Some code \<and> j_error_message j = msg)
     (complete_job e nd i code msg)"
  unfolding complete_job_def job_repo_get_by_id_def job_repo_mark_terminal_def Let_def svc_laws
  by (auto intro!: yields_query_then yields_intros simp: completion_target_def dest: found_id)

lemma yields_transition:
  "yields (\<lambda>_. (s, t) \<in> ALLOWED_TRANSITIONS) (assert_transition s t)"
  unfolding assert_transition_def by (auto intro: yields_intros)

lemma yields_cancel_phase:
  "yields (\<lambda>k. j_id k = j_id j \<and> (j_status k = CANCELLED \<or> j_status k = RUNNING))
     (cancel_or_request_cancel e j ev u uid extra ip ua)"
proof -
  have other: "yields P (thenS (assert_transition (j_status j) CANCELLED) m)"
    if "j_status j \<noteq> QUEUED" and "j_status j \<noteq> RUNNING" for P :: "job \<Rightarrow> bool" and m
    unfolding thenS_def
    by (rule yields_bind [OF yields_transition]) (use that in \<open>simp add: ALLOWED_TRANSITIONS_def\<close>)
  show ?thesis
    unfolding cancel_or_request_cancel_def job_repo_mark_terminal_def job_repo_request_cancel_def Let_def
      svc_laws
    by (rule yields_thenS, (intro yields_if; ((rule other; assumption) | (auto intro!: yields_thenS yields_ret)[1])))
qed

lemma yields_cancel:
  "yields (\<lambda>j. j_id j = i \<and> (j_status j = CANCELLED \<or> j_status j = RUNNING)) (cancel_job e u i ip ua)"
  "yields (\<lambda>j. j_id j = i \<and> (j_status j = CANCELLED \<or> j_status j = RUNNING)) (admin_force_kill e u i ip ua)"
proof -
  have phase: "yields (\<lambda>k. j_id k = i \<and> (j_status k = CANCELLED \<or> j_status k = RUNNING))
      (cancel_or_request_cancel e j ev u uid extra ip ua)" if "find_job i d = Some j" for j d ev uid extra
    unfolding found_id(1) [OF that, symmetric] by (rule yields_cancel_phase)
  show "yields (\<lambda>j. j_id j = i \<and> (j_status j = CANCELLED \<or> j_status j = RUNNING)) (cancel_job e u i ip ua)"
    and "yields (\<lambda>j. j_id j = i \<and> (j_status j = CANCELLED \<or> j_status j = RUNNING)) (admin_force_kill e u i ip ua)"
    unfolding cancel_job_def admin_force_kill_def job_repo_get_by_id_def
    by (rule yields_query_then, intro yields_option yields_if yields_throw, erule phase)+
qed

lemma yields_owned: "yields (\<lambda>nd. n_id nd = i) (get_owned_node u i)"
  "yields (\<lambda>nd. n_id nd = i) (get_owned_for_actor u i actor)"
  unfolding get_owned_node_def get_owned_for_actor_def node_repo_get_by_id_def
  by (auto intro!: yields_query_then yields_intros dest: found_id)

lemma yields_drain:
  "yields (\<lambda>nd. n_id nd = i \<and> n_status nd = ''draining'') (drain_node e u i ip ua actor ev)"
  "yields (\<lambda>nd. n_id nd = i \<and> n_status nd = ''draining'') (admin_force_drain e u i ip ua)"
  "yields (\<lambda>nd. n_id nd = i \<and> n_status nd = ''online'') (undrain_node e u i ip ua)"
  unfolding drain_node_def admin_force_drain_def undrain_node_def node_repo_set_status_def
    node_repo_get_by_id_def Let_def svc_laws
  by (auto intro!: yields_bind [OF yields_owned(1)] yields_bind [OF yields_owned(2)] yields_query_then
      yields_intros dest: found_id)

lemma yields_register:
  "yields (\<lambda>(nd, token). starts_with token AGENT_TOKEN_PREFIX) (register_node e tok gm mem gc nm ip ua)"
  unfolding register_node_def claim_repo_get_by_prefix_def node_repo_create_def generate_agent_token_def Let_def svc_laws
  by (auto intro!: yields_query_then yields_intros simp: starts_with_def svc_laws)

lemma yields_claim_token:
  "yields (\<lambda>(c, token, cmd). c_prefix c = claim_token_lookup_prefix token) (create_claim_token e u ip ua)"
  unfolding create_claim_token_def claim_repo_create_def generate_claim_token_def Let_def svc_laws
  by (auto intro!: yields_intros simp: claim_token_lookup_prefix_def svc_laws)

lemma yields_found_user: "yields (\<lambda>u. u_id u = i) (get_user_by_id i)"
  "yields (\<lambda>(u, ip). u_id u = i) (get_user_detail i)"
  unfolding get_user_by_id_def get_user_detail_def user_repo_get_by_id_def audit_repo_get_signup_ip_def
  by (auto intro!: yields_query_then yields_intros dest: found_id)

text \<open>Approval and suspension answer with the row that was written.\<close>

lemma flushed_user:
  assumes "flush_user e u u' d = Inr d'" and "find_user i d = Some u" and "u_id u' = u_id u"
  shows "\<exists>v. find_user i d' = Some v \<and> u_id v = i \<and> u_status v = u_status u' \<and>
    u_can_host v = u_can_host u' \<and> u_credits_gpu_hours v = u_credits_gpu_hours u'"
  using assms found_id(3) [OF assms(2)]
  by (cases "u' = u"; cases "int4_ok (u_credits_gpu_hours u')")
    (auto simp: flush_user_def lookup_row_put)

lemma yields_flushed:
  assumes "find_user i d = Some u" and "u_id u' = u_id u"
    and "\<And>v. u_id v = i \<Longrightarrow> u_status v = u_status u' \<Longrightarrow> u_can_host v = u_can_host u' \<Longrightarrow>
      u_credits_gpu_hours v = u_credits_gpu_hours u' \<Longrightarrow> P v"
    and "working s = d"
  shows "wp (thenS (modify (flush_user e u u')) (thenS (audit_repo_create e k t uid fs ip ua)
      (thenS commit (get_user_by_id i)))) (\<lambda>r _. case r of Inl _ \<Rightarrow> True | Inr x \<Rightarrow> P x) s"
proof (cases "flush_user e u u' d")
  case (Inl err)
  then show ?thesis using assms(4) by (simp add: wp_simps)
next
  case (Inr d')
  from flushed_user [OF this assms(1,2)] assms(3)
  obtain v where "find_user i d' = Some v" "P v" by blast
  with Inr assms(4) show ?thesis
    by (simp add: wp_simps audit_repo_create_def Let_def insert_audit_def get_user_by_id_def
        user_repo_get_by_id_def split: sum.split)
qed

lemma yields_approve:
  "yields (\<lambda>u. u_id u = i \<and> u_status u = ''active'' \<and> u_can_host u = host \<and> u_credits_gpu_hours u = credits)
     (approve_user e a i host credits ip ua)"
  "yields (\<lambda>u. u_id u = i \<and> u_status u = ''suspended'') (suspend_user e a i ip ua)"
  unfolding yields_def approve_user_def suspend_user_def user_repo_get_by_id_def
  by (auto simp: wp_bindS wp_query wp_throw wp_Let Let_def split: option.split intro!: yields_flushed)

lemma yields_audit_event: "yields (\<lambda>(a, m). a_id a = i) (get_audit_event i)"
  unfolding get_audit_event_def audit_repo_get_with_email_def
  by (auto intro!: yields_query_then yields_intros dest: found_id)

section \<open>Listings and reads\<close>

text \<open>What a request returns that starts on the database \<open>d\<close>, after it has read its caller.\<close>

definition gives :: "db \<Rightarrow> ('a \<Rightarrow> bool) \<Rightarrow> 'a svc \<Rightarrow> bool" where
  "gives d P m \<longleftrightarrow> wp m (\<lambda>r _. case r of Inl _ \<Rightarrow> True | Inr x \<Rightarrow> P x) (begin_session d)"

lemma gives_yields: "yields P m \<Longrightarrow> gives d P m"
  by (simp add: gives_def yields_def)

lemma gives_reads:
  assumes "reads m" and "\<And>x. fst (m (begin_session d)) = Inr x \<Longrightarrow> gives d P (f x)"
  shows "gives d P (bindS m f)"
  unfolding gives_def wp_bindS
  by (rule reads_wp [OF assms(1)]) (use assms(2) in \<open>auto simp: gives_def split: sum.splits\<close>)

lemma gives_validated: "(ok \<Longrightarrow> gives d P m) \<Longrightarrow> gives d P (validated ok m)"
  by (simp add: gives_def validated_def wp_throw)

lemma gives_respond: "gives d (\<lambda>x. P (f x)) m \<Longrightarrow> gives d P (respond f m)"
  unfolding gives_def respond_def wp_bindS
  by (erule wp_mono) (auto simp: wp_ret split: sum.splits)

lemma page_ok_limit:
  "1 \<le> n \<Longrightarrow> page_ok n (map f (limit_rows n rows)) (next_cursor key n (limit_rows n rows))"
  by (auto simp: page_ok_def next_cursor_def limit_rows_def)

lemma in_limit: "x \<in> set (limit_rows n (newest_first key rows)) \<Longrightarrow> x \<in> set rows"
  by (auto simp: limit_rows_def newest_first_def dest: in_set_takeD)

lemma job_ok_status: "job_ok j \<Longrightarrow> j_status j \<in> JOB_STATUSES"
  by (auto simp: job_ok_def JOB_STATUSES_def split: if_splits)

lemma db_job_status: "db_ok d \<Longrightarrow> j \<in> set (jobs d) \<Longrightarrow> j_status j \<in> JOB_STATUSES"
  using jobs_okD(1) [OF db_ok_jobs] job_ok_status by blast

lemma gives_list_jobs:
  assumes "db_ok d"
  shows "gives d (\<lambda>(js, next). page_ok n js next \<and> list_all (\<lambda>j. job_status_ok j \<and> asked st (jp_status j)) js)
    (h_list_jobs e r st cur n)"
  unfolding h_list_jobs_def
proof (rule gives_reads [OF reads_current_user], rule gives_validated)
  fix u :: user assume "page_limit_ok n"
  then have n: "1 \<le> n" by (simp add: page_limit_ok_def)
  have row: "job_status_ok (job_view j) \<and> asked st (jp_status (job_view j))"
    if "j \<in> set (job_rows (u_id u) st k n d)" for j k
    using in_limit [OF that [unfolded job_rows_def]] db_job_status [OF assms]
    by (auto simp: job_status_ok_def job_view_def asked_def split: option.splits)
  show "gives d (\<lambda>(js, next). page_ok n js next \<and> list_all (\<lambda>j. job_status_ok j \<and> asked st (jp_status j)) js)
      (bindS (catch_cursor (list_jobs_for_user e u st cur n)) (\<lambda>(js, next). ret (map job_view js, next)))"
  proof (rule gives_reads)
    show "reads (catch_cursor (list_jobs_for_user e u st cur n))" by (intro reads_intros)
  next
    fix x assume "fst (catch_cursor (list_jobs_for_user e u st cur n) (begin_session d)) = Inr x"
    then obtain k where "x = (job_rows (u_id u) st k n d, next_cursor job_key n (job_rows (u_id u) st k n d))"
      by (auto simp: catch_cursor_def catch_def list_jobs_for_user_def job_repo_list_for_user_def bindS_def
          lift_result_def query_def ret_def throw_def begin_session_def split: prod.splits sum.splits error.splits)
    then show "gives d (\<lambda>(js, next). page_ok n js next \<and> list_all (\<lambda>j. job_status_ok j \<and> asked st (jp_status j)) js)
        (case x of (js, next) \<Rightarrow> ret (map job_view js, next))"
      using page_ok_limit [OF n] row
      by (auto simp: gives_def wp_ret list_all_iff job_rows_def)
  qed
qed

lemma yields_list_users:
  "yields (\<lambda>(us, next). page_ok n us next \<and> list_all (\<lambda>u. asked st (ur_status u)) us) (h_list_users e r st m cur n)"
proof -
  have page: "yields (\<lambda>(us, next). next = next_cursor user_key n us \<and>
      (\<exists>rows. us = limit_rows n rows) \<and> (\<forall>u \<in> set us. asked st (u_status u))) (list_users e st m cur n)"
    unfolding list_users_def user_repo_list_filtered_def user_rows_def
    by (auto intro!: yields_bindS yields_query_then yields_ret dest!: in_limit simp: next_cursor_def asked_def
        split: option.splits)
  show ?thesis
    unfolding h_list_users_def
    by (rule yields_bindS, rule yields_validated, rule yields_bind [OF yields_catch_cursor [OF page]])
      (auto intro!: yields_ret simp: page_limit_ok_def page_ok_limit list_all_iff user_view_def split: prod.splits)
qed

lemma yields_list_audit:
  "yields (\<lambda>(as, next). page_ok n as next) (h_list_audit_events e r t m ip lo hi cur n)"
proof -
  have page: "yields (\<lambda>(rows, next). (next \<noteq> None \<longleftrightarrow> int (length rows) = n) \<and> (1 \<le> n \<longrightarrow> int (length rows) \<le> n))
      (list_audit_events e a t m ip lo hi cur n vip vua)" for a vip vua
    unfolding list_audit_events_def audit_repo_list_filtered_def audit_rows_def
    by (auto intro!: yields_bindS yields_query_then yields_thenS yields_ret simp: limit_rows_def split: if_split_asm)
  show ?thesis
    unfolding h_list_audit_events_def
    by (rule yields_bindS, rule yields_validated, rule yields_bind [OF yields_catch_cursor [OF page]])
      (auto intro!: yields_ret simp: page_limit_ok_def page_ok_def split: prod.splits)
qed

lemma yields_logs:
  "yields (\<lambda>ls. int (length ls) \<le> n \<and> list_all (\<lambda>l. sq < lo_sequence l) ls) (h_get_logs e r i sq n)"
  unfolding h_get_logs_def get_logs_for_user_def job_log_repo_list_after_def svc_laws
  by (auto intro!: yields_bindS yields_validated yields_query_then yields_ret
      simp: log_query_ok_def log_rows_def limit_rows_def list_all_iff log_view_def dest!: in_set_takeD)

lemma current_user_row:
  assumes "fst (get_current_user e r (begin_session d)) = Inr u"
  shows "u \<in> set (users d)"
  using assms
  by (auto simp: get_current_user_def authenticate_key_def api_key_repo_get_by_prefix_def
      user_repo_get_by_id_def get_user_by_id_def catch_def throw_def ret_def bindS_def query_def begin_session_def
      unauthorized_def
      split: option.splits prod.splits sum.splits if_splits json.splits error.splits dest!: lookup_row_SomeD)

section \<open>Every endpoint\<close>

lemmas typed_defs = well_typed_def node_view_ok_def cancel_view_ok_def job_view_def user_view_def api_key_view_def

lemma typed_accounts:
  "yields (\<lambda>u. well_typed (PostSignup m pw) (RUser u)) (h_signup e r m pw)"
  "yields (\<lambda>t. well_typed (PostLogin m pw) (RToken t)) (h_login e r m pw)"
  "yields (\<lambda>k. well_typed (PostKey name) (RKey k)) (h_generate_key e r name)"
  "yields (\<lambda>ks. well_typed GetKeys (RKeys ks)) (h_list_keys e r)"
  "yields (\<lambda>k. well_typed (DeleteKey i) (RKeyPublic k)) (h_revoke_key e r i)"
  unfolding h_signup_def h_login_def h_generate_key_def h_list_keys_def h_revoke_key_def
  by (auto intro!: yields_validated_email yields_validated yields_bind [OF yields_signup]
      yields_bind [OF yields_generate_key] yields_bind [OF yields_revoke] yields_ret
      intro: yields_bindS simp: typed_defs)

lemma typed_jobs:
  "yields (\<lambda>j. well_typed (PostJob p) (RJob j)) (h_submit_job e r p)"
  "yields (\<lambda>j. well_typed (PostCancel i) (RJob j)) (h_cancel_job e r i)"
  "yields (\<lambda>j. well_typed (PostComplete i code msg) (RJob j)) (h_complete_job e r i code msg)"
  "yields (\<lambda>j. well_typed (PostForceKill i) (RJob j)) (h_force_kill_job e r i)"
  "yields (\<lambda>ls. well_typed (GetLogs i sq n) (RLogs ls)) (h_get_logs e r i sq n)"
  using yields_logs
  unfolding h_submit_job_def h_cancel_job_def h_complete_job_def h_force_kill_job_def
  by (auto intro!: yields_bindS [of _ _ "get_current_user e r"] yields_bindS [of _ _ "get_current_node e r"]
      yields_bindS [of _ _ "require_admin e r"] yields_validated yields_bind [OF yields_submit]
      yields_bind [OF yields_cancel(1)] yields_bind [OF yields_cancel(2)] yields_bind [OF yields_complete] yields_ret
      simp: typed_defs)

lemma typed_nodes:
  "yields (\<lambda>c. well_typed PostClaimToken (RClaimToken c)) (h_create_claim_token e r)"
  "yields (\<lambda>g. well_typed (PostRegister p) (RRegistered g)) (h_register_node e r p)"
  "yields (\<lambda>nds. well_typed GetNodes (RNodes nds)) (h_list_nodes e r)"
  "yields (\<lambda>nd. well_typed (GetNode i) (RNode nd)) (h_get_node e r i)"
  "yields (\<lambda>nd. well_typed (PostDrain i) (RNode nd)) (h_drain_node e r i)"
  "yields (\<lambda>nd. well_typed (PostUndrain i) (RNode nd)) (h_undrain_node e r i)"
  "yields (\<lambda>nd. well_typed (PostForceDrain i) (RNode nd)) (h_force_drain_node e r i)"
proof -
  have view: "np_id (node_detail_of nd now c) = n_id nd" "np_status (node_detail_of nd now c) = compute_node_status nd now"
    for nd now c by (simp_all add: node_detail_of_def public_view_def node_public.defs)
  have st: "n_status nd = ''draining'' \<Longrightarrow> compute_node_status nd now = ''draining''"
    "n_status nd = ''online'' \<Longrightarrow> compute_node_status nd now \<noteq> ''offline'' \<Longrightarrow> compute_node_status nd now = ''online''"
    for nd now by (auto simp: compute_node_status_def Let_def split: option.splits if_splits)
  note steps = yields_bindS [of _ _ "get_current_user e r"] yields_bindS [of _ _ "require_admin e r"]
    yields_bindS [of _ _ "get_current_job nd" for nd] yields_bindS [of _ _ "list_nodes_for_user u" for u]
    yields_bind [OF yields_claim_token] yields_bind [OF yields_register] yields_bind [OF yields_owned(1)]
    yields_bind [OF yields_drain(1)] yields_bind [OF yields_drain(2)] yields_bind [OF yields_drain(3)]
    yields_validated yields_ret yields_prod
  show "yields (\<lambda>c. well_typed PostClaimToken (RClaimToken c)) (h_create_claim_token e r)"
    "yields (\<lambda>g. well_typed (PostRegister p) (RRegistered g)) (h_register_node e r p)"
    "yields (\<lambda>nds. well_typed GetNodes (RNodes nds)) (h_list_nodes e r)"
    "yields (\<lambda>nd. well_typed (GetNode i) (RNode nd)) (h_get_node e r i)"
    "yields (\<lambda>nd. well_typed (PostDrain i) (RNode nd)) (h_drain_node e r i)"
    "yields (\<lambda>nd. well_typed (PostUndrain i) (RNode nd)) (h_undrain_node e r i)"
    "yields (\<lambda>nd. well_typed (PostForceDrain i) (RNode nd)) (h_force_drain_node e r i)"
    unfolding h_create_claim_token_def h_register_node_def h_list_nodes_def h_get_node_def h_drain_node_def
      h_undrain_node_def h_force_drain_node_def
    using st by (auto intro!: steps simp: typed_defs view computed_status list_all_iff public_view_def)
qed

lemma typed_admin:
  "yields (\<lambda>(us, c). well_typed (GetUsers st m cur n) (RUsers us c)) (h_list_users e r st m cur n)"
  "yields (\<lambda>(u, ip). well_typed (GetUser i) (RUserDetail u ip)) (h_get_user_detail e r i)"
  "yields (\<lambda>(t, u). well_typed (PostApprove i host credits) (RAdminAction t u)) (h_approve_user e r i host credits)"
  "yields (\<lambda>(t, u). well_typed (PostSuspend i) (RAdminAction t u)) (h_suspend_user e r i)"
  "yields (\<lambda>(as, c). well_typed (GetAudit t m ip lo hi cur n) (RAudit as c)) (h_list_audit_events e r t m ip lo hi cur n)"
  "yields (\<lambda>a. well_typed (GetAuditEvent i) (RAuditEvent a)) (h_get_audit_event e r i)"
  using yields_list_users yields_list_audit
  unfolding h_get_user_detail_def h_approve_user_def h_suspend_user_def h_get_audit_event_def
  by (auto intro!: yields_bindS [of _ _ "require_admin e r"] yields_validated yields_bind [OF yields_found_user(2)]
      yields_bind [OF yields_approve(1)] yields_bind [OF yields_approve(2)] yields_bind [OF yields_audit_event]
      yields_ret simp: typed_defs audit_event_to_schema_def audit_event.defs)

lemma typed_trivial: "yields (\<lambda>x. well_typed (PostLogs i xs) NoContent) m"
  "yields (\<lambda>h. well_typed (PostHeartbeat i) (RHeartbeat h)) m'"
  "yields (\<lambda>x. well_typed (DeleteNode i) NoContent) m" "yields (\<lambda>x. well_typed (PostMetrics i ss) NoContent) m"
  "yields (\<lambda>x. well_typed GetDashboard (RDashboard x)) m''"
  by (simp_all add: typed_defs yields_any)

lemma gives_me:
  assumes "db_ok d"
  shows "gives d (\<lambda>u. well_typed GetMe (RUser u)) (h_me e r)"
  unfolding h_me_def
proof (rule gives_reads [OF reads_current_user])
  fix u assume "fst (get_current_user e r (begin_session d)) = Inr u"
  with current_user_row assms have "0 \<le> u_credits_gpu_hours u" by (simp add: db_ok_def users_ok_def)
  then show "gives d (\<lambda>u. well_typed GetMe (RUser u)) (ret (user_view u))"
    by (simp add: gives_def wp_ret typed_defs)
qed

lemma gives_job:
  assumes "db_ok d"
  shows "gives d (\<lambda>j. well_typed (GetJob i) (RJob j)) (h_get_job e r i)"
  unfolding h_get_job_def
proof (rule gives_reads [OF reads_current_user])
  fix u :: user
  show "gives d (\<lambda>j. well_typed (GetJob i) (RJob j)) (bindS (get_job_for_user u i) (\<lambda>j. ret (job_view j)))"
    unfolding gives_def get_job_for_user_def job_repo_get_by_id_def
    using db_job_status [OF assms] find_job_in [of i d]
    by (simp add: wp_bindS wp_query wp_throw wp_ret typed_defs job_status_ok_def begin_session_def split: option.split)
qed

lemma gives_handle:
  assumes "db_ok d"
  shows "gives d (well_typed q) (handle e r q)"
proof (cases q)
  case PostClaim
  then show ?thesis
    by (auto intro!: gives_respond gives_yields [OF yields_any] simp: typed_defs split: option.split)
next
  case (GetJobs st cur n)
  have "gives d (\<lambda>x. well_typed (GetJobs st cur n) (case x of (js, next) \<Rightarrow> RJobs js next)) (h_list_jobs e r st cur n)"
    using gives_list_jobs [OF assms, of n st e r cur] by (simp add: typed_defs case_prod_unfold)
  with GetJobs show ?thesis by (auto intro!: gives_respond)
next
  case GetMe
  with gives_me [OF assms] show ?thesis by (auto intro!: gives_respond)
next
  case (GetJob i)
  with gives_job [OF assms] show ?thesis by (auto intro!: gives_respond)
qed (use typed_accounts typed_jobs typed_nodes typed_admin typed_trivial in
  \<open>auto intro!: gives_yields yields_respond simp: case_prod_unfold\<close>)

text \<open>
  C27. Every successful answer has the type its endpoint declares: the response model of the
  endpoint, about the row that was asked for, with job states among the five of the state machine
  and node states among the three computed ones, pages and log batches no longer than their
  limit, a next cursor exactly when the page is full, and the status code 201 for what creates
  something, 204 for no content and 200 otherwise.
\<close>

theorem response_well_typed:
  assumes "reachable d" and "fst (serve e r q d) = Inr x"
  shows "well_typed q x \<and>
    http_status q (Inr x) = (if created q then 201 else if x = NoContent then 204 else 200)"
proof -
  have "db_ok d" using assms(1) by (rule reachable_ok)
  from gives_handle [OF this, of q e r] have "well_typed q x"
    using assms(2) by (auto simp: gives_def wp_def serve_def run_svc_def split: prod.splits)
  then show ?thesis by (simp add: http_status_def success_status_def split: response.split)
qed

theorem response_well_typed_witness:
  "\<exists>x. fst (serve (demo_env 9) as_agent (PostComplete 96 0 None) demo_running) = Inr x \<and>
     well_typed (PostComplete 96 0 None) x"
proof -
  have "fst (serve (demo_env 9) as_agent (PostComplete 96 0 None) demo_running) =
      Inr (RJob (job_view (hd (jobs demo_finished))))" by code_simp
  from response_well_typed [OF reachable_demo(1) this] this show ?thesis by blast
qed

end
