(* ===== verification/Credentials.thy ===== *)
theory Credentials
  imports Ledger
begin

text \<open>
  Credentials over time: a claim token that was consumed stays consumed, an API key that was
  revoked stays revoked, and neither changes its hash or owner, whatever is done afterwards.
\<close>

section \<open>Rows found by one key and written by another\<close>

lemma lookup_put_other:
  assumes "\<And>x. x \<in> set rows \<Longrightarrow> g x = g r \<Longrightarrow> f x = f r"
  shows "lookup_row f p (put_row g r rows) =
    map_option (\<lambda>x. if g x = g r then r else x) (lookup_row f p rows)"
  using assms by (induction rows) (auto simp: lookup_row_def put_row_def)

lemma lookup_add_other:
  "lookup_row f p rows = Some x \<Longrightarrow> lookup_row f p (rows @ [r]) = Some x"
  by (simp add: lookup_row_append)

lemma same_key_row:
  assumes "distinct (map g rows)" and "x \<in> set rows" and "y \<in> set rows" and "g x = g y"
  shows "x = y"
  using assms by (auto simp: distinct_map dest: inj_onD)

section \<open>The relation\<close>

definition claim_stays :: "claim_token \<Rightarrow> claim_token \<Rightarrow> bool" where
  "claim_stays c c' \<longleftrightarrow> c_user_id c' = c_user_id c \<and> c_token_hash c' = c_token_hash c \<and>
     c_expires_at c' = c_expires_at c \<and> (c_consumed_at c \<noteq> None \<longrightarrow> c_consumed_at c' = c_consumed_at c)"

definition key_stays :: "api_key \<Rightarrow> api_key \<Rightarrow> bool" where
  "key_stays k k' \<longleftrightarrow> k_user_id k' = k_user_id k \<and> k_hash k' = k_hash k \<and>
     (k_revoked_at k \<noteq> None \<longrightarrow> k_revoked_at k' = k_revoked_at k)"

definition credentials_stay :: "db \<Rightarrow> db \<Rightarrow> bool" where
  "credentials_stay d d' \<longleftrightarrow>
     (\<forall>p c. lookup_row c_prefix p (claim_tokens d) = Some c \<longrightarrow>
       (\<exists>c'. lookup_row c_prefix p (claim_tokens d') = Some c' \<and> claim_stays c c')) \<and>
     (\<forall>p k. lookup_row k_prefix p (api_keys d) = Some k \<longrightarrow>
       (\<exists>k'. lookup_row k_prefix p (api_keys d') = Some k' \<and> key_stays k k'))"

lemma stays_refl [simp]: "claim_stays c c" "key_stays k k"
  by (simp_all add: claim_stays_def key_stays_def)

lemma credentials_same:
  "claim_tokens d' = claim_tokens d \<Longrightarrow> api_keys d' = api_keys d \<Longrightarrow> credentials_stay d d'"
  by (simp add: credentials_stay_def)

lemma credentials_stay_trans:
  assumes "credentials_stay d1 d2" and "credentials_stay d2 d3"
  shows "credentials_stay d1 d3"
proof -
  show ?thesis unfolding credentials_stay_def
  proof (intro conjI allI impI)
    fix p c assume "lookup_row c_prefix p (claim_tokens d1) = Some c"
    then obtain c2 where c2: "lookup_row c_prefix p (claim_tokens d2) = Some c2" "claim_stays c c2"
      using assms(1) unfolding credentials_stay_def by blast
    then obtain c3 where "lookup_row c_prefix p (claim_tokens d3) = Some c3" "claim_stays c2 c3"
      using assms(2) unfolding credentials_stay_def by blast
    with c2 show "\<exists>c'. lookup_row c_prefix p (claim_tokens d3) = Some c' \<and> claim_stays c c'"
      by (auto simp: claim_stays_def)
  next
    fix p k assume "lookup_row k_prefix p (api_keys d1) = Some k"
    then obtain k2 where k2: "lookup_row k_prefix p (api_keys d2) = Some k2" "key_stays k k2"
      using assms(1) unfolding credentials_stay_def by blast
    then obtain k3 where "lookup_row k_prefix p (api_keys d3) = Some k3" "key_stays k2 k3"
      using assms(2) unfolding credentials_stay_def by blast
    with k2 show "\<exists>k'. lookup_row k_prefix p (api_keys d3) = Some k' \<and> key_stays k k'"
      by (auto simp: key_stays_def)
  qed
qed

section \<open>Operations on other tables\<close>

abbreviation credentials_are :: "claim_token list \<Rightarrow> api_key list \<Rightarrow> db \<Rightarrow> bool" where
  "credentials_are cs ks w \<equiv> claim_tokens w = cs \<and> api_keys w = ks"

lemma after_credentials_are:
  assumes "keeps (credentials_are (claim_tokens d) (api_keys d)) m"
  shows "after credentials_stay m d"
proof -
  have "wp m (\<lambda>_ s. credentials_are (claim_tokens d) (api_keys d) (committed s) \<and>
      credentials_are (claim_tokens d) (api_keys d) (working s)) (begin_session d)"
    using assms by (simp add: keeps_def)
  then show ?thesis unfolding after_def by (rule wp_mono) (simp add: credentials_same)
qed

lemma keeps_credentials:
  "keeps (credentials_are cs ks) (signup e m pw ip ua)" "keeps (credentials_are cs ks) (login e m pw ip ua)"
  "keeps (credentials_are cs ks) (approve_user e u i host c ip ua)"
  "keeps (credentials_are cs ks) (suspend_user e u i ip ua)"
  "keeps (credentials_are cs ks) (list_audit_events e u t q ip' lo hi cur n ip ua)"
  "keeps (credentials_are cs ks) (grant_admin e m)"
  "keeps (credentials_are cs ks) (record_heartbeat e nd)" "keeps (credentials_are cs ks) (record_metrics e nd ss)"
  "keeps (credentials_are cs ks) (drain_node e u i ip ua actor ev)"
  "keeps (credentials_are cs ks) (undrain_node e u i ip ua)"
  "keeps (credentials_are cs ks) (admin_force_drain e u i ip ua)"
  "keeps (credentials_are cs ks) (delete_node e u i ip ua actor)"
  "keeps (credentials_are cs ks) (submit e u img cmd g dur p ip ua)"
  "keeps (credentials_are cs ks) (claim_for_node e nd)"
  "keeps (credentials_are cs ks) (complete_job e nd i code msg)"
  unfolding signup_def login_def login_failed_def approve_user_def suspend_user_def list_audit_events_def
    grant_admin_def get_user_by_id_def record_heartbeat_def record_metrics_def drain_node_def
    undrain_node_def admin_force_drain_def delete_node_def get_owned_for_actor_def get_owned_node_def
    submit_def claim_for_node_def complete_job_def charge_user_def repo_defs Let_def
  by (auto intro!: keeps_audit keeps_intros simp: flush_user_def insert_user_def flush_node_def
      insert_job_def upsert_metric_rows_def delete_node_row_def assign_job_def flush_job_def Let_def
      split: if_splits prod.splits)

lemma keeps_credentials_cancel:
  "keeps (credentials_are cs ks) (cancel_or_request_cancel e j ev u uid extra ip ua)"
  unfolding cancel_or_request_cancel_def repo_defs Let_def
  by (auto intro!: keeps_audit keeps_intros simp: flush_job_def split: prod.splits)

lemma keeps_credentials_jobs:
  "keeps (credentials_are cs ks) (cancel_job e u i ip ua)"
  "keeps (credentials_are cs ks) (admin_force_kill e u i ip ua)"
  "keeps (credentials_are cs ks) (append_logs e nd i xs)"
  unfolding cancel_job_def admin_force_kill_def append_logs_def job_log_repo_append_def repo_defs
  by (auto intro!: keeps_intros keeps_credentials_cancel simp: append_log_rows_def map_sum_snd_Inr
      split: sum.splits if_splits)

section \<open>Operations on credentials\<close>

lemma wp_audit_credentials:
  assumes "\<And>err. Q (Inl err) s"
    and "\<And>a w. claim_tokens w = claim_tokens (working s) \<Longrightarrow> api_keys w = api_keys (working s) \<Longrightarrow>
      Q (Inr a) (s\<lparr>working := w\<rparr>)"
  shows "wp (audit_repo_create e i t u fs ip ua) Q s"
  using assms by (auto simp: audit_repo_create_def Let_def wp_simps dest: insert_audit_frame split: sum.splits)

lemma claim_added:
  "insert_claim c d = Inr d' \<Longrightarrow> claim_tokens w = claim_tokens d' \<Longrightarrow> api_keys w = api_keys d' \<Longrightarrow>
   credentials_stay d w"
  using lookup_add_other by (fastforce simp: insert_claim_def credentials_stay_def split: if_splits)

lemma create_claim_token_stays: "after credentials_stay (create_claim_token e u ip ua) d"
  by (auto simp: after_def create_claim_token_def claim_repo_create_def Let_def wp_simps credentials_same
      split: sum.splits prod.splits intro!: wp_audit_credentials intro: claim_added)

lemma key_added:
  "insert_api_key k d = Inr d' \<Longrightarrow> claim_tokens w = claim_tokens d' \<Longrightarrow> api_keys w = api_keys d' \<Longrightarrow>
   credentials_stay d w"
  using lookup_add_other by (fastforce simp: insert_api_key_def credentials_stay_def split: if_splits)

lemma generate_key_stays: "after credentials_stay (generate_key e u name ip ua) d"
  by (auto simp: after_def generate_key_def api_key_repo_create_def Let_def wp_simps credentials_same
      split: sum.splits prod.splits intro!: wp_audit_credentials intro: key_added)

lemma claim_consumed:
  assumes "db_ok d" and "lookup_row c_prefix p (claim_tokens d) = Some c" and "c_consumed_at c = None"
    and "claim_tokens w = put_row c_id (c\<lparr>c_consumed_at := t\<rparr>) (claim_tokens d)" and "api_keys w = api_keys d"
  shows "credentials_stay d w"
proof -
  have c: "c \<in> set (claim_tokens d)" using assms(2) by (auto dest: lookup_row_SomeD)
  have dist: "distinct (map c_id (claim_tokens d))" using assms(1) by (simp add: db_ok_def claims_ok_def)
  have row: "x = c" if "x \<in> set (claim_tokens d)" "c_id x = c_id c" for x
    using same_key_row [OF dist that(1) c that(2)] .
  have "lookup_row c_prefix q (claim_tokens w) =
      map_option (\<lambda>x. if c_id x = c_id c then c\<lparr>c_consumed_at := t\<rparr> else x) (lookup_row c_prefix q (claim_tokens d))" for q
    unfolding assms(4) by (subst lookup_put_other) (use row in auto)
  moreover have "claim_stays x (if c_id x = c_id c then c\<lparr>c_consumed_at := t\<rparr> else x)"
    if "x \<in> set (claim_tokens d)" for x
    using row [OF that] assms(3) by (auto simp: claim_stays_def)
  ultimately show ?thesis using assms(5) lookup_row_SomeD unfolding credentials_stay_def by fastforce
qed

lemma register_node_stays: "db_ok d \<Longrightarrow> after credentials_stay (register_node e tok gm mem gc nm ip ua) d"
  by (auto simp: after_def register_node_def claim_repo_get_by_prefix_def node_repo_create_def
      claim_repo_mark_consumed_def insert_node_def Let_def wp_simps credentials_same
      split: option.splits sum.splits prod.splits if_splits intro!: wp_audit_credentials intro: claim_consumed)

lemma key_revoked:
  assumes "db_ok d" and "lookup_row k_id i (api_keys d) = Some k" and "k_revoked_at k = None"
    and "api_keys w = put_row k_id (k\<lparr>k_revoked_at := t\<rparr>) (api_keys d)" and "claim_tokens w = claim_tokens d"
  shows "credentials_stay d w"
proof -
  have k: "k \<in> set (api_keys d)" using assms(2) by (auto dest: lookup_row_SomeD)
  have dist: "distinct (map k_id (api_keys d))" using assms(1) by (simp add: db_ok_def keys_ok_def)
  have row: "x = k" if "x \<in> set (api_keys d)" "k_id x = k_id k" for x
    using same_key_row [OF dist that(1) k that(2)] .
  have "lookup_row k_prefix q (api_keys w) =
      map_option (\<lambda>x. if k_id x = k_id k then k\<lparr>k_revoked_at := t\<rparr> else x) (lookup_row k_prefix q (api_keys d))" for q
    unfolding assms(4) by (subst lookup_put_other) (use row in auto)
  moreover have "key_stays x (if k_id x = k_id k then k\<lparr>k_revoked_at := t\<rparr> else x)"
    if "x \<in> set (api_keys d)" for x
    using row [OF that] assms(3) by (auto simp: key_stays_def)
  ultimately show ?thesis using assms(5) lookup_row_SomeD unfolding credentials_stay_def by fastforce
qed

lemma revoke_key_stays: "db_ok d \<Longrightarrow> after credentials_stay (revoke_key e u i ip ua) d"
  by (auto simp: after_def revoke_key_def api_key_repo_get_by_id_def api_key_repo_revoke_def Let_def wp_simps
      credentials_same split: option.splits sum.splits intro!: wp_audit_credentials intro: key_revoked)

interpretation credential_rows: step_contract credentials_stay
  by unfold_locales
    (auto intro: credentials_same after_credentials_are keeps_credentials keeps_credentials_jobs
      create_claim_token_stays generate_key_stays register_node_stays revoke_key_stays)

end
