(* ===== verification/NodeTheorems.thy ===== *)
theory NodeTheorems
  imports JobTheorems Credentials
begin

text \<open>
  The functional behaviour of the node service: registration with a claim token, the agent's
  credentials, heartbeats and metrics, draining and removal, on every branch.
\<close>

lemmas run_defs = run_svc_def bindS_def thenS_def query_def modify_def throw_def ret_def commit_def
  begin_session_def audit_repo_create_def insert_audit_def Let_def

section \<open>Registration\<close>

text \<open>The node a registration creates, and its audit event.\<close>

definition registered_node ::
  "env \<Rightarrow> claim_token \<Rightarrow> string \<Rightarrow> int \<Rightarrow> int \<Rightarrow> string option \<Rightarrow> node" where
  "registered_node e c gm mem gc nm = (let token = fst (generate_agent_token e) in
     \<lparr>n_id = uuid4 e 1, n_user_id = c_user_id c, n_name = node_name e nm, n_gpu_model = gm,
      n_gpu_memory_gb = mem, n_gpu_count = gc, n_status = ''online'', n_last_seen_at = Some (clock e 1),
      n_agent_token_hash = Some (bcrypt_hashpw e token),
      n_agent_token_prefix = Some (agent_token_lookup_prefix token), n_created_at = txn_now e\<rparr>)"

definition register_audit ::
  "env \<Rightarrow> node \<Rightarrow> string \<Rightarrow> string option \<Rightarrow> string option \<Rightarrow> audit_log" where
  "register_audit e nd prefix ip ua = \<lparr>a_id = uuid4 e 2, a_user_id = Some (n_user_id nd),
     a_event_type = ''node.registered'',
     a_event_data = JObj [(''node_id'', JStr (str_uuid (n_id nd))), (''gpu_model'', JStr (n_gpu_model nd)),
       (''gpu_memory_gb'', JInt (n_gpu_memory_gb nd)), (''gpu_count'', JInt (n_gpu_count nd)),
       (''claim_token_prefix'', JStr prefix)],
     a_ip_address = ip, a_user_agent = ua, a_created_at = txn_now e\<rparr>"

lemma claim_owner:
  "db_ok d \<Longrightarrow> lookup_row c_prefix p (claim_tokens d) = Some c \<Longrightarrow> c_user_id c \<in> u_id ` set (users d)"
  by (auto simp: db_ok_def claims_ok_def dest!: lookup_row_SomeD)

lemma run_register:
  assumes "db_ok d" and "uuid4 e 1 \<notin> n_id ` set (nodes d)" and "uuid4 e 2 \<notin> a_id ` set (audit_events d)"
    and "Some (agent_token_lookup_prefix (fst (generate_agent_token e))) \<notin> n_agent_token_prefix ` set (nodes d)"
    and "int4_ok mem" and "int4_ok gc"
    and "lookup_row c_prefix (claim_token_lookup_prefix tok) (claim_tokens d) = Some c"
    and "verify_claim_token e tok (c_token_hash c)" and "c_consumed_at c = None" and "clock e 0 < c_expires_at c"
  shows "run_svc (register_node e tok gm mem gc nm ip ua) d = (let nd = registered_node e c gm mem gc nm in
     (Inr (nd, fst (generate_agent_token e)),
      d\<lparr>claim_tokens := put_row c_id (c\<lparr>c_consumed_at := Some (clock e 2)\<rparr>) (claim_tokens d),
        nodes := nodes d @ [nd],
        audit_events := audit_events d @ [register_audit e nd (claim_token_lookup_prefix tok) ip ua]\<rparr>))"
proof -
  have gen: "generate_agent_token e = (fst (generate_agent_token e),
      agent_token_lookup_prefix (fst (generate_agent_token e)), bcrypt_hashpw e (fst (generate_agent_token e)))"
    by (simp add: generate_agent_token_def agent_token_lookup_prefix_def Let_def)
  show ?thesis using assms claim_owner [OF assms(1,7)]
    by (subst register_node_def, subst gen)
      (simp add: claim_repo_get_by_prefix_def node_repo_create_def insert_node_def claim_repo_mark_consumed_def
        registered_node_def register_audit_def run_defs)
qed

text \<open>
  Registration, on every branch: a token that is unknown or does not verify, was used, or
  has expired is refused with its reason (400) and changes nothing; otherwise the token is
  marked as used, and one online node of the token's owner with a fresh agent token, and one
  audit event, are added.
\<close>

theorem register_outcome:
  assumes "db_ok d" and "uuid4 e 1 \<notin> n_id ` set (nodes d)" and "uuid4 e 2 \<notin> a_id ` set (audit_events d)"
    and "Some (agent_token_lookup_prefix (fst (generate_agent_token e))) \<notin> n_agent_token_prefix ` set (nodes d)"
    and "int4_ok mem" and "int4_ok gc"
  shows "run_svc (register_node e tok gm mem gc nm ip ua) d =
    (case lookup_row c_prefix (claim_token_lookup_prefix tok) (claim_tokens d) of
       None \<Rightarrow> (Inl (ClaimTokenInvalid ''unknown token''), d)
     | Some c \<Rightarrow>
         if \<not> verify_claim_token e tok (c_token_hash c) then (Inl (ClaimTokenInvalid ''unknown token''), d)
         else if c_consumed_at c \<noteq> None then (Inl (ClaimTokenInvalid ''already used''), d)
         else if c_expires_at c \<le> clock e 0 then (Inl (ClaimTokenInvalid ''expired''), d)
         else let nd = registered_node e c gm mem gc nm in
           (Inr (nd, fst (generate_agent_token e)),
            d\<lparr>claim_tokens := put_row c_id (c\<lparr>c_consumed_at := Some (clock e 2)\<rparr>) (claim_tokens d),
              nodes := nodes d @ [nd],
              audit_events := audit_events d @ [register_audit e nd (claim_token_lookup_prefix tok) ip ua]\<rparr>))"
proof (cases "lookup_row c_prefix (claim_token_lookup_prefix tok) (claim_tokens d)")
  case None
  then show ?thesis by (simp add: register_node_def claim_repo_get_by_prefix_def run_defs)
next
  case (Some c)
  show ?thesis
  proof (cases "verify_claim_token e tok (c_token_hash c) \<and> c_consumed_at c = None \<and> clock e 0 < c_expires_at c")
    case True
    with run_register [OF assms Some] Some show ?thesis by simp
  next
    case False
    with Some show ?thesis
      by (auto simp: register_node_def claim_repo_get_by_prefix_def run_defs)
  qed
qed

theorem register_outcome_witness:
  "run_svc (register_node (demo_env 9) ''gpuclaim_004token'' ''A100'' 80 2 None None None) demo_queued =
    (Inl (ClaimTokenInvalid ''already used''), demo_queued)"
proof -
  have h: "uuid4 (demo_env 9) 1 \<notin> n_id ` set (nodes demo_queued)"
    "uuid4 (demo_env 9) 2 \<notin> a_id ` set (audit_events demo_queued)"
    "Some (agent_token_lookup_prefix (fst (generate_agent_token (demo_env 9)))) \<notin>
       n_agent_token_prefix ` set (nodes demo_queued)"
    "int4_ok 80" "int4_ok 2" by code_simp+
  have c: "lookup_row c_prefix (claim_token_lookup_prefix ''gpuclaim_004token'') (claim_tokens demo_queued) =
      Some (hd (claim_tokens demo_queued))"
    "verify_claim_token (demo_env 9) ''gpuclaim_004token'' (c_token_hash (hd (claim_tokens demo_queued)))"
    "c_consumed_at (hd (claim_tokens demo_queued)) \<noteq> None" by code_simp+
  show ?thesis unfolding register_outcome [OF demo_ok(1) h] using c by simp
qed

text \<open>What a successful registration leaves, and that it had a claim to use.\<close>

lemma register_success:
  assumes "run_svc (register_node e tok gm mem gc nm ip ua) d = (Inr (nd, token), d')" and "db_ok d"
  shows "token = fst (generate_agent_token e) \<and>
    n_agent_token_prefix nd = Some (agent_token_lookup_prefix token) \<and>
    n_agent_token_hash nd = Some (bcrypt_hashpw e token) \<and> nodes d' = nodes d @ [nd] \<and>
    Some (agent_token_lookup_prefix token) \<notin> n_agent_token_prefix ` set (nodes d) \<and>
    (\<exists>c. lookup_row c_prefix (claim_token_lookup_prefix tok) (claim_tokens d') = Some c \<and> c_consumed_at c \<noteq> None)"
proof -
  let ?P = "\<lambda>nd token d'. token = fst (generate_agent_token e) \<and>
    n_agent_token_prefix nd = Some (agent_token_lookup_prefix token) \<and>
    n_agent_token_hash nd = Some (bcrypt_hashpw e token) \<and> nodes d' = nodes d @ [nd] \<and>
    Some (agent_token_lookup_prefix token) \<notin> n_agent_token_prefix ` set (nodes d) \<and>
    (\<exists>c. lookup_row c_prefix (claim_token_lookup_prefix tok) (claim_tokens d') = Some c \<and> c_consumed_at c \<noteq> None)"
  have consumed: "\<exists>c'. lookup_row c_prefix p (put_row c_id (c\<lparr>c_consumed_at := Some t\<rparr>) (claim_tokens d)) = Some c' \<and>
      c_consumed_at c' \<noteq> None" if "lookup_row c_prefix p (claim_tokens d) = Some c" for p c t
  proof -
    have dist: "distinct (map c_id (claim_tokens d))" using assms(2) by (simp add: db_ok_def claims_ok_def)
    have "c \<in> set (claim_tokens d)" using that by (auto dest: lookup_row_SomeD)
    then have "x = c" if "x \<in> set (claim_tokens d)" "c_id x = c_id c" for x
      using same_key_row [OF dist that(1) _ that(2)] by blast
    then show ?thesis using that by (subst lookup_put_other) auto
  qed
  have "wp (register_node e tok gm mem gc nm ip ua)
      (\<lambda>r s. \<forall>x. r = Inr x \<longrightarrow> ?P (fst x) (snd x) (committed s)) (begin_session d)"
    using consumed
    by (auto simp: register_node_def claim_repo_get_by_prefix_def node_repo_create_def insert_node_def
        claim_repo_mark_consumed_def generate_agent_token_def agent_token_lookup_prefix_def
        audit_repo_create_def Let_def wp_simps dest!: insert_audit_eq
        split: option.splits sum.splits if_splits)
  from wp_run [OF this assms(1)] show ?thesis by auto
qed

text \<open>What making a claim token leaves.\<close>

lemma create_claim_success:
  assumes "run_svc (create_claim_token e u ip ua) d = (Inr (c, ptok, cmd), d')"
  shows "lookup_row c_prefix (claim_token_lookup_prefix ptok) (claim_tokens d') = Some c \<and>
    c_token_hash c = bcrypt_hashpw e ptok \<and> c_user_id c = u_id u \<and> c_consumed_at c = None"
proof -
  have "wp (create_claim_token e u ip ua) (\<lambda>r s. \<forall>c ptok cmd. r = Inr (c, ptok, cmd) \<longrightarrow>
      claim_tokens (committed s) = claim_tokens d @ [c] \<and> c_prefix c \<notin> c_prefix ` set (claim_tokens d) \<and>
      c_prefix c = claim_token_lookup_prefix ptok \<and>
      c_token_hash c = bcrypt_hashpw e ptok \<and> c_user_id c = u_id u \<and> c_consumed_at c = None) (begin_session d)"
    by (auto simp: create_claim_token_def generate_claim_token_def claim_repo_create_def insert_claim_def
        claim_token_lookup_prefix_def audit_repo_create_def Let_def wp_simps dest!: insert_audit_frame
        split: sum.splits if_splits)
  from wp_run [OF this assms]
  have c: "claim_tokens d' = claim_tokens d @ [c]" "c_prefix c \<notin> c_prefix ` set (claim_tokens d)"
    "c_prefix c = claim_token_lookup_prefix ptok" "c_token_hash c = bcrypt_hashpw e ptok"
    "c_user_id c = u_id u" "c_consumed_at c = None" by auto
  have "lookup_row c_prefix (c_prefix c) (claim_tokens d) = None" using c(2) by (simp add: lookup_row_None)
  with c show ?thesis by (simp add: lookup_row_append)
qed

text \<open>An agent token that was just issued authenticates as its node.\<close>

lemma issued_token_authenticates:
  assumes "nodes d' = nodes d @ [nd]" and "starts_with token AGENT_TOKEN_PREFIX"
    and "Some (agent_token_lookup_prefix token) \<notin> n_agent_token_prefix ` set (nodes d)"
    and "n_agent_token_prefix nd = Some (agent_token_lookup_prefix token)"
    and "n_agent_token_hash nd = Some h" and "bcrypt_checkpw e token h"
  shows "run_svc (authenticate_agent e token) d' = (Inr (Some nd), d')"
proof -
  have "lookup_row n_agent_token_prefix (Some (agent_token_lookup_prefix token)) (nodes d) = None"
    using assms(3) by (simp add: lookup_row_None)
  then have "lookup_row n_agent_token_prefix (Some (agent_token_lookup_prefix token)) (nodes d') = Some nd"
    using assms(1,4) by (simp add: lookup_row_append)
  with assms(2,5,6) show ?thesis
    by (simp add: authenticate_agent_def node_repo_get_by_agent_prefix_def verify_agent_token_def run_defs)
qed

lemma agent_token_starts: "starts_with (fst (generate_agent_token e)) AGENT_TOKEN_PREFIX"
  by (simp add: generate_agent_token_def starts_with_def Let_def)

text \<open>
  C29. A node can be brought online: if bcrypt verifies what it hashed, a claim token that a host
  got registers a node of that host at any time before it expires (unless the random values
  collide), and the agent token that comes back authenticates as that node.
\<close>

theorem node_onboarding:
  assumes "db_ok d" and "run_svc (create_claim_token e u ip ua) d = (Inr (c, ptok, cmd), d1)"
    and "\<And>p. bcrypt_checkpw e' p (bcrypt_hashpw e p)" and "\<And>p. bcrypt_checkpw e'' p (bcrypt_hashpw e' p)"
    and "clock e' 0 < c_expires_at c" and "int4_ok mem" and "int4_ok gc"
    and "uuid4 e' 1 \<notin> n_id ` set (nodes d1)" and "uuid4 e' 2 \<notin> a_id ` set (audit_events d1)"
    and "Some (agent_token_lookup_prefix (fst (generate_agent_token e'))) \<notin> n_agent_token_prefix ` set (nodes d1)"
  shows "\<exists>nd token d2. run_svc (register_node e' ptok gm mem gc nm ip' ua') d1 = (Inr (nd, token), d2) \<and>
    n_user_id nd = u_id u \<and> n_status nd = ''online'' \<and> find_node (n_id nd) d2 = Some nd \<and>
    run_svc (authenticate_agent e'' token) d2 = (Inr (Some nd), d2)"
proof -
  note c = create_claim_success [OF assms(2)]
  have ok: "db_ok d1" using create_claim_token_ok [OF assms(1)] assms(2) ok_run_snd by (metis snd_conv)
  let ?nd = "registered_node e' c gm mem gc nm" and ?token = "fst (generate_agent_token e')"
  let ?d2 = "d1\<lparr>claim_tokens := put_row c_id (c\<lparr>c_consumed_at := Some (clock e' 2)\<rparr>) (claim_tokens d1),
      nodes := nodes d1 @ [?nd],
      audit_events := audit_events d1 @ [register_audit e' ?nd (claim_token_lookup_prefix ptok) ip' ua']\<rparr>"
  have reg: "run_svc (register_node e' ptok gm mem gc nm ip' ua') d1 = (Inr (?nd, ?token), ?d2)"
    using run_register [OF ok assms(8-10,6,7), of ptok c gm nm ip' ua'] c assms(3,5)
    by (simp add: verify_claim_token_def Let_def)
  have id: "n_id ?nd = uuid4 e' 1" "n_agent_token_prefix ?nd = Some (agent_token_lookup_prefix ?token)"
    "n_agent_token_hash ?nd = Some (bcrypt_hashpw e' ?token)" "n_user_id ?nd = u_id u" "n_status ?nd = ''online''"
    using c by (simp_all add: registered_node_def Let_def)
  have "run_svc (authenticate_agent e'' ?token) ?d2 = (Inr (Some ?nd), ?d2)"
    using issued_token_authenticates [of ?d2 d1 ?nd ?token _ e''] agent_token_starts assms(4,10) id by simp
  moreover have "find_node (n_id ?nd) ?d2 = Some ?nd"
    using assms(8) id nodes_by_id.read_own_insert [of ?nd d1] by (simp add: lookup_row_None lookup_row_append)
  ultimately show ?thesis using reg id by blast
qed

text \<open>A second claim token in the scenario.\<close>

definition demo_claim_row :: claim_token where
  "demo_claim_row = \<lparr>c_id = 144, c_user_id = 16, c_prefix = ''gpuclaim_009'', c_token_hash = ''#gpuclaim_009token'',
     c_expires_at = demo_time 9 + 1000 + 86400000000, c_consumed_at = None, c_created_at = demo_time 9\<rparr>"

definition demo_invited :: db where
  "demo_invited = demo_queued\<lparr>claim_tokens := claim_tokens demo_queued @ [demo_claim_row],
     audit_events := audit_events demo_queued @ [(demo_audit 9 ''node.claim_token.created''
       [(''prefix'', JStr ''gpuclaim_009''), (''expires_at'', JStr (isoformat (c_expires_at demo_claim_row)))] None)
       \<lparr>a_id := 145\<rparr>]\<rparr>"

lemma demo_invites: "run_svc (create_claim_token (demo_env 9) demo_user None None) demo_queued =
    (Inr (demo_claim_row, ''gpuclaim_009token'', install_command (demo_env 9) ''gpuclaim_009token''), demo_invited)"
  by code_simp

lemma demo_hash_checks: "bcrypt_checkpw (demo_env k) p (bcrypt_hashpw (demo_env m) p)"
  by (simp add: demo_env_def)

theorem node_onboarding_witness:
  "\<exists>nd token d2. run_svc (register_node (demo_env 10) ''gpuclaim_009token'' ''H100'' 80 8 None None None) demo_invited =
      (Inr (nd, token), d2) \<and> run_svc (authenticate_agent (demo_env 11) token) d2 = (Inr (Some nd), d2)"
proof -
  have h: "clock (demo_env 10) 0 < c_expires_at demo_claim_row" "int4_ok 80" "int4_ok 8"
    "uuid4 (demo_env 10) 1 \<notin> n_id ` set (nodes demo_invited)"
    "uuid4 (demo_env 10) 2 \<notin> a_id ` set (audit_events demo_invited)"
    "Some (agent_token_lookup_prefix (fst (generate_agent_token (demo_env 10)))) \<notin>
       n_agent_token_prefix ` set (nodes demo_invited)" by code_simp+
  from node_onboarding [OF demo_ok(1) demo_invites demo_hash_checks demo_hash_checks h] show ?thesis by blast
qed

section \<open>Credentials over time\<close>

lemma register_ok:
  "db_ok d \<Longrightarrow> run_svc (register_node e tok gm mem gc nm ip ua) d = (r, d') \<Longrightarrow> db_ok d'"
  using register_node_ok ok_run_snd by (metis snd_conv)

lemma credentials_run: "db_ok d \<Longrightarrow> credentials_stay d (run_actions as d)"
  using credential_rows.step_contract_axioms credentials_stay_trans by (rule run_contract)

text \<open>
  C24. A claim token registers one node: after a registration with it, whatever requests and
  command line runs come between, another registration with it is refused and changes nothing.
\<close>

theorem claim_token_single_use:
  assumes "reachable d" and "run_svc (register_node e tok gm mem gc nm ip ua) d = (Inr r, d')"
  shows "\<exists>why. run_svc (register_node e' tok gm' mem' gc' nm' ip' ua') (run_actions as d') =
    (Inl (ClaimTokenInvalid why), run_actions as d')"
proof -
  have ok: "db_ok d" using assms(1) by (rule reachable_ok)
  obtain nd token where r: "r = (nd, token)" by (cases r)
  obtain c where c: "lookup_row c_prefix (claim_token_lookup_prefix tok) (claim_tokens d') = Some c"
    "c_consumed_at c \<noteq> None"
    using register_success [OF assms(2) [unfolded r] ok] by blast
  have "credentials_stay d' (run_actions as d')" using register_ok [OF ok assms(2)] by (rule credentials_run)
  then obtain c' where
    "lookup_row c_prefix (claim_token_lookup_prefix tok) (claim_tokens (run_actions as d')) = Some c'"
    "c_consumed_at c' \<noteq> None"
    using c unfolding credentials_stay_def claim_stays_def by metis
  then show ?thesis by (auto simp: register_node_def claim_repo_get_by_prefix_def run_defs)
qed

lemma demo_registers:
  "run_svc (register_node (demo_env 5) ''gpuclaim_004token'' ''A100'' 80 2 None (Some ''10.0.0.1'') None)
     (demo_stage 4) = (Inr (demo_node, ''gpuagent_005token''), demo_stage 5)"
  by code_simp

theorem claim_token_single_use_witness:
  "\<exists>why. run_svc (register_node (demo_env 8) ''gpuclaim_004token'' ''A100'' 80 2 None None None)
     (run_actions [demo_claim] (demo_stage 5)) = (Inl (ClaimTokenInvalid why), run_actions [demo_claim] (demo_stage 5))"
  using claim_token_single_use [OF reachable_demo_claimable demo_registers] .

text \<open>What a revocation leaves.\<close>

lemma revoke_success:
  assumes "run_svc (revoke_key e u i ip ua) d = (Inr k, d')" and "db_ok d"
  shows "lookup_row k_prefix (k_prefix k) (api_keys d') = Some k \<and> k_revoked_at k \<noteq> None \<and>
    k_user_id k = u_id u \<and> db_ok d'"
proof -
  have ok: "db_ok d'" using revoke_key_ok [OF assms(2)] assms(1) ok_run_snd by (metis snd_conv)
  have "wp (revoke_key e u i ip ua) (\<lambda>r s. \<forall>k. r = Inr k \<longrightarrow>
      k \<in> set (api_keys (committed s)) \<and> k_revoked_at k \<noteq> None \<and> k_user_id k = u_id u) (begin_session d)"
    by (auto simp: revoke_key_def api_key_repo_get_by_id_def api_key_repo_revoke_def Let_def wp_simps
        audit_repo_create_def in_set_put dest!: insert_audit_eq lookup_row_SomeD
        split: option.splits sum.splits if_splits)
  from wp_run [OF this assms(1)]
  have k: "k \<in> set (api_keys d')" "k_revoked_at k \<noteq> None" "k_user_id k = u_id u" by auto
  have "distinct (map k_prefix (api_keys d'))" using ok by (simp add: db_ok_def keys_ok_def)
  with k ok show ?thesis using lookup_row_distinct by fast
qed

text \<open>
  C25. Revoking an API key is final: whatever happens afterwards, a request with that key (any
  credentials with its lookup prefix) is answered with 401 and changes nothing.
\<close>

theorem revoked_key_dead:
  assumes "reachable d" and "run_svc (revoke_key e u i ip ua) d = (Inr k, d')"
    and "credentials r = Some tok" and "starts_with tok API_KEY_PREFIX" and "api_key_lookup_prefix tok = k_prefix k"
  shows "run_svc (get_current_user e' r) (run_actions as d') =
    (Inl (unauthorized ''Invalid or revoked API key''), run_actions as d')"
proof -
  note k = revoke_success [OF assms(2) reachable_ok [OF assms(1)]]
  then have "credentials_stay d' (run_actions as d')" by (intro credentials_run) simp
  then obtain k' where "lookup_row k_prefix (k_prefix k) (api_keys (run_actions as d')) = Some k'"
    "k_revoked_at k' \<noteq> None"
    using k unfolding credentials_stay_def key_stays_def by metis
  then show ?thesis using assms(3-5)
    by (simp add: get_current_user_def authenticate_key_def api_key_repo_get_by_prefix_def run_defs)
qed

theorem revoked_key_dead_witness:
  "run_svc (get_current_user (demo_env 10) (demo_request (Some ''gpuk_008token''))) (run_actions [] demo_revoked) =
    (Inl (unauthorized ''Invalid or revoked API key''), run_actions [] demo_revoked)"
proof -
  have "credentials (demo_request (Some ''gpuk_008token'')) = Some ''gpuk_008token''"
    "starts_with ''gpuk_008token'' API_KEY_PREFIX"
    "api_key_lookup_prefix ''gpuk_008token'' = k_prefix (hd (api_keys demo_revoked))" by code_simp+
  from revoked_key_dead [OF reachable_demo_keyed demo_revokes this] show ?thesis .
qed

end
