(* ===== verification/Privileges.thy ===== *)
theory Privileges
  imports Ledger
begin

text \<open>
  Administrator rights over time: no request gives them to anybody; only the command line does.
\<close>

definition admins_from :: "db \<Rightarrow> db \<Rightarrow> bool" where
  "admins_from d d' \<longleftrightarrow> (\<forall>u' \<in> set (users d'). u_is_admin u' \<longrightarrow>
     (\<exists>u \<in> set (users d). u_id u = u_id u' \<and> u_is_admin u))"

lemma admins_from_same: "users d' = users d \<Longrightarrow> admins_from d d'"
  by (auto simp: admins_from_def)

lemma admins_from_trans: "admins_from d1 d2 \<Longrightarrow> admins_from d2 d3 \<Longrightarrow> admins_from d1 d3"
  unfolding admins_from_def by metis

lemma admins_from_add: "users d' = users d @ [u] \<Longrightarrow> \<not> u_is_admin u \<Longrightarrow> admins_from d d'"
  by (auto simp: admins_from_def)

lemma after_users_same:
  assumes "keeps (users_are (users d)) m"
  shows "after admins_from m d"
proof -
  have "wp m (\<lambda>_ s. users (committed s) = users d \<and> users (working s) = users d) (begin_session d)"
    using assms by (simp add: keeps_def)
  then show ?thesis unfolding after_def by (rule wp_mono) (simp add: admins_from_same)
qed

lemma admins_from_flush:
  assumes "find_user i d = Some u" and "flush_user e u u' d = Inr d'" and "u_id u' = u_id u"
    and "u_is_admin u' = u_is_admin u" and "users w = users d'"
  shows "admins_from d w"
proof (cases "u' = u")
  case True
  with assms show ?thesis by (simp add: flush_user_def admins_from_same)
next
  case False
  with assms(2,5) have put: "users w = put_row u_id (u'\<lparr>u_updated_at := txn_now e\<rparr>) (users d)"
    by (auto simp: flush_user_def split: if_splits)
  have u: "u \<in> set (users d)" using assms(1) by (auto dest: lookup_row_SomeD)
  show ?thesis unfolding admins_from_def
  proof (intro ballI impI)
    fix x assume "x \<in> set (users w)" and adm: "u_is_admin x"
    then consider "x = u'\<lparr>u_updated_at := txn_now e\<rparr>" | "x \<in> set (users d)" unfolding put in_set_put by blast
    then show "\<exists>y \<in> set (users d). u_id y = u_id x \<and> u_is_admin y"
    proof cases
      case 1
      then have "u_id u = u_id x \<and> u_is_admin u" using assms(3,4) adm by simp
      with u show ?thesis by blast
    qed (use adm in blast)
  qed
qed

lemma signup_admins: "after admins_from (signup e m pw ip ua) d"
proof -
  have "admins_from d w" if "insert_user (new_user e i m h) d = Inr d'" "users w = users d'" for e i h d' w
    using that by (intro admins_from_add [where u = "new_user e i m h"])
      (auto simp: insert_user_def new_user_def split: if_splits)
  then show ?thesis
    by (auto simp: after_def signup_def user_repo_get_by_email_def user_repo_create_def Let_def wp_simps
        admins_from_same split: option.splits sum.splits intro!: wp_audit_users)
qed

lemma approve_admins: "after admins_from (approve_user e ad i host c ip ua) d"
  by (auto simp: after_def approve_user_def get_user_by_id_def user_repo_get_by_id_def Let_def wp_simps
      admins_from_same split: option.splits sum.splits intro!: wp_audit_users intro: admins_from_flush)

lemma suspend_admins: "after admins_from (suspend_user e ad i ip ua) d"
  by (auto simp: after_def suspend_user_def get_user_by_id_def user_repo_get_by_id_def Let_def wp_simps
      admins_from_same split: option.splits sum.splits intro!: wp_audit_users intro: admins_from_flush)

lemma complete_admins: "after admins_from (complete_job e nd i code msg) d"
  by (auto simp: after_def complete_job_def charge_user_def user_repo_get_by_id_def job_repo_get_by_id_def
      job_repo_mark_terminal_def flush_job_def Let_def wp_simps admins_from_same
      split: option.splits sum.splits intro!: wp_audit_users elim: admins_from_flush)

interpretation admins: approval_contract admins_from
  by unfold_locales
    (auto intro: admins_from_same after_users_same keeps_users keeps_users_jobs signup_admins
      approve_admins suspend_admins complete_admins)

end
