(* ===== verification/AccountTheorems.thy ===== *)
theory AccountTheorems
  imports NodeTheorems Privileges
begin

text \<open>
  Accounts: signing up, logging in and using the session, and who may use the
  administration endpoints.
\<close>

section \<open>Signing up and logging in\<close>

definition auth_audit ::
  "env \<Rightarrow> nat \<Rightarrow> string \<Rightarrow> uuid option \<Rightarrow> (string \<times> json) list \<Rightarrow> string option \<Rightarrow> string option \<Rightarrow> audit_log" where
  "auth_audit e k ev i fs ip ua = \<lparr>a_id = uuid4 e k, a_user_id = i, a_event_type = ev, a_event_data = JObj fs,
     a_ip_address = ip, a_user_agent = ua, a_created_at = txn_now e\<rparr>"

lemma run_signup:
  assumes "uuid4 e 0 \<notin> u_id ` set (users d)" and "uuid4 e 1 \<notin> a_id ` set (audit_events d)"
    and "lookup_row u_email m (users d) = None"
  shows "run_svc (signup e m pw ip ua) d = (let u = new_user e (uuid4 e 0) m (hash_password e pw) in
    (Inr u, d\<lparr>users := users d @ [u],
       audit_events := audit_events d @ [auth_audit e 1 ''auth.signup'' (Some (u_id u)) [] ip ua]\<rparr>))"
proof -
  have "m \<notin> u_email ` set (users d)" using assms(3) by (simp add: lookup_row_None)
  with assms show ?thesis
    by (simp add: signup_def user_repo_get_by_email_def user_repo_create_def new_user_def insert_user_def
        auth_audit_def run_defs)
qed

text \<open>
  C<signup_outcome>. Signing up, on both branches: a registered address is refused and changes nothing;
  otherwise one pending user without credits, host or administrator rights is added, with the
  hash of the password, and one audit event.
\<close>

theorem signup_outcome:
  assumes "uuid4 e 0 \<notin> u_id ` set (users d)" and "uuid4 e 1 \<notin> a_id ` set (audit_events d)"
  shows "run_svc (signup e m pw ip ua) d =
    (if m \<in> u_email ` set (users d) then (Inl (EmailAlreadyExists m), d)
     else let u = \<lparr>u_id = uuid4 e 0, u_email = m, u_password_hash = bcrypt_hashpw e pw, u_status = ''pending'',
            u_can_host = False, u_can_rent = True, u_is_admin = False, u_credits_gpu_hours = 0,
            u_created_at = txn_now e, u_updated_at = txn_now e\<rparr> in
       (Inr u, d\<lparr>users := users d @ [u],
          audit_events := audit_events d @ [auth_audit e 1 ''auth.signup'' (Some (u_id u)) [] ip ua]\<rparr>))"
proof (cases "lookup_row u_email m (users d)")
  case None
  moreover have "m \<notin> u_email ` set (users d)" using None by (simp add: lookup_row_None)
  ultimately show ?thesis using run_signup [OF assms None] by (simp add: new_user_def hash_password_def Let_def)
next
  case (Some u)
  then have "m \<in> u_email ` set (users d)" by (auto dest: lookup_row_SomeD)
  with Some show ?thesis by (simp add: signup_def user_repo_get_by_email_def run_defs)
qed

theorem signup_outcome_witness:
  "run_svc (signup (demo_env 9) ''a@x'' ''other-password'' None None) demo_queued =
    (Inl (EmailAlreadyExists ''a@x''), demo_queued)"
proof -
  have h: "uuid4 (demo_env 9) 0 \<notin> u_id ` set (users demo_queued)"
    "uuid4 (demo_env 9) 1 \<notin> a_id ` set (audit_events demo_queued)" by code_simp+
  have "''a@x'' \<in> u_email ` set (users demo_queued)" by code_simp
  with signup_outcome [OF h] show ?thesis by simp
qed

lemma run_login:
  assumes "db_ok d" and "uuid4 e 0 \<notin> a_id ` set (audit_events d)"
  shows "run_svc (login e m pw ip ua) d =
    (case lookup_row u_email m (users d) of
       None \<Rightarrow> (Inl InvalidCredentials, d\<lparr>audit_events := audit_events d @
         [auth_audit e 0 ''auth.login.failed'' None [(''email'', JStr m)] ip ua]\<rparr>)
     | Some u \<Rightarrow> if bcrypt_checkpw e pw (u_password_hash u)
         then (Inr (create_access_token e (str_uuid (u_id u))), d\<lparr>audit_events := audit_events d @
           [auth_audit e 0 ''auth.login.success'' (Some (u_id u)) [] ip ua]\<rparr>)
         else (Inl InvalidCredentials, d\<lparr>audit_events := audit_events d @
           [auth_audit e 0 ''auth.login.failed'' (Some (u_id u)) [(''email'', JStr m)] ip ua]\<rparr>))"
proof (cases "lookup_row u_email m (users d)")
  case None
  with assms(2) show ?thesis
    by (simp add: login_def login_failed_def user_repo_get_by_email_def auth_audit_def run_defs)
next
  case (Some u)
  then have "u_id u \<in> u_id ` set (users d)" by (auto dest: lookup_row_SomeD)
  with Some assms(2) show ?thesis
    by (simp add: login_def login_failed_def user_repo_get_by_email_def verify_password_def auth_audit_def run_defs)
qed

text \<open>
  Logging in tells no more than it must: an unknown address and a wrong password get the same
  401 error; a token is handed out exactly for the right password; and every attempt, failed or
  not, adds exactly one audit event and changes nothing else.
\<close>

theorem login_outcome:
  assumes "reachable d" and "uuid4 e 0 \<notin> a_id ` set (audit_events d)"
  shows "\<exists>x a. run_svc (login e m pw ip ua) d = (x, d\<lparr>audit_events := audit_events d @ [a]\<rparr>) \<and>
    (x = Inl InvalidCredentials \<or>
      (\<exists>u \<in> set (users d). x = Inr (create_access_token e (str_uuid (u_id u))))) \<and>
    (x \<noteq> Inl InvalidCredentials \<longleftrightarrow>
      (\<exists>u \<in> set (users d). u_email u = m \<and> bcrypt_checkpw e pw (u_password_hash u))) \<and>
    (a_event_type a = ''auth.login.success'' \<longleftrightarrow> x \<noteq> Inl InvalidCredentials) \<and>
    a_user_id a = map_option u_id (lookup_row u_email m (users d))"
proof (cases "lookup_row u_email m (users d)")
  case None
  then have "\<not> (\<exists>u \<in> set (users d). u_email u = m)" by (auto simp: lookup_row_None)
  with None run_login [OF reachable_ok [OF assms(1)] assms(2), of m pw ip ua] show ?thesis
    by (auto simp: auth_audit_def)
next
  case (Some u)
  have dist: "distinct (map u_email (users d))" using reachable_ok [OF assms(1)] by (simp add: db_ok_def users_ok_def)
  have u: "u \<in> set (users d)" "u_email u = m" using Some by (auto dest: lookup_row_SomeD)
  have "v = u" if "v \<in> set (users d)" "u_email v = m" for v
    using same_key_row [OF dist that(1) u(1)] that(2) u(2) by simp
  then have "(\<exists>v \<in> set (users d). u_email v = m \<and> bcrypt_checkpw e pw (u_password_hash v)) \<longleftrightarrow>
      bcrypt_checkpw e pw (u_password_hash u)" using u by blast
  with Some u run_login [OF reachable_ok [OF assms(1)] assms(2), of m pw ip ua] show ?thesis
    by (auto simp: auth_audit_def)
qed

theorem login_outcome_witness:
  "fst (run_svc (login (demo_env 9) ''a@x'' ''wrong'' None None) demo_queued) = Inl InvalidCredentials"
proof -
  have h: "uuid4 (demo_env 9) 0 \<notin> a_id ` set (audit_events demo_queued)" by code_simp
  have no: "\<not> (\<exists>u \<in> set (users demo_queued). u_email u = ''a@x'' \<and>
      bcrypt_checkpw (demo_env 9) ''wrong'' (u_password_hash u))" by code_simp
  from login_outcome [OF reachable_demo_queued h, of "''a@x''" "''wrong''" None None] no show ?thesis
    by (metis fst_conv)
qed

section \<open>Sessions\<close>


text \<open>A token format that can be decoded: the sign and the value of \<open>exp\<close> in unary, and the subject.\<close>

definition session_env :: "env \<Rightarrow> env" where
  "session_env e = e\<lparr>
     jwt_encode := (\<lambda>p k a. case (json_get ''sub'' p, json_get ''exp'' p) of
        (Some (JStr s), Some (JInt x)) \<Rightarrow>
          (if x < 0 then CHR ''-'' else CHR ''+'') # replicate (nat \<bar>x\<bar>) (CHR ''i'') @ CHR ''.'' # s
      | _ \<Rightarrow> []),
     jwt_decode := (\<lambda>t k a. case t of [] \<Rightarrow> None
      | c # r \<Rightarrow> let n = length (takeWhile (\<lambda>x. x = CHR ''i'') r) in
          Some (JObj [(''sub'', JStr (drop (Suc n) r)),
            (''exp'', JInt (if c = CHR ''-'' then - int n else int n))]))\<rparr>"

lemma session_env_decodes:
  "jwt_decode (session_env e) (jwt_encode (session_env e') (JObj [(''sub'', JStr s), (''exp'', JInt x)]) k a) k a =
    Some (JObj [(''sub'', JStr s), (''exp'', JInt x)])"
proof -
  have "takeWhile (\<lambda>c. c = CHR ''i'') (replicate n (CHR ''i'') @ CHR ''.'' # s) = replicate n (CHR ''i'')" for n
    by (induction n) auto
  then show ?thesis by (simp add: session_env_def json_get_def json_fields_def Let_def)
qed

lemma session_token: "\<not> starts_with (create_access_token (session_env e) s) API_KEY_PREFIX"
  by (simp add: create_access_token_def session_env_def json_get_def json_fields_def starts_with_def
      API_KEY_PREFIX_def Let_def)

definition demo_guest :: user where
  "demo_guest = \<lparr>u_id = 144, u_email = ''b@x'', u_password_hash = ''#password'', u_status = ''pending'',
     u_can_host = False, u_can_rent = True, u_is_admin = False, u_credits_gpu_hours = 0,
     u_created_at = demo_time 9, u_updated_at = demo_time 9\<rparr>"

lemma demo_joins: "run_svc (signup (demo_env 9) ''b@x'' ''password'' None None) demo_queued =
    (Inr demo_guest, demo_queued\<lparr>users := users demo_queued @ [demo_guest],
      audit_events := audit_events demo_queued @ [auth_audit (demo_env 9) 1 ''auth.signup'' (Some 144) [] None None]\<rparr>)"
  by code_simp


section \<open>Administration\<close>

definition admin_request :: "request \<Rightarrow> bool" where
  "admin_request q = (case q of GetUsers _ _ _ _ \<Rightarrow> True | GetUser _ \<Rightarrow> True | PostApprove _ _ _ \<Rightarrow> True
     | PostSuspend _ \<Rightarrow> True | GetAudit _ _ _ _ _ _ _ \<Rightarrow> True | GetAuditEvent _ \<Rightarrow> True
     | PostForceKill _ \<Rightarrow> True | PostForceDrain _ \<Rightarrow> True | GetDashboard \<Rightarrow> True | _ \<Rightarrow> False)"

lemma failed_bind: "m s = (Inl err, s) \<Longrightarrow> bindS m f s = (Inl err, s)"
  by (simp add: bindS_def)

text \<open>
  Every endpoint under /api/admin is closed to everybody but administrators: a caller who does
  not authenticate gets the authentication error and one who is not an administrator gets 403,
  before anything else is looked at, and nothing changes.
\<close>

theorem admin_guard:
  assumes "admin_request q" and "fst (run_svc (get_current_user e r) d) = x" and "\<And>u. x = Inr u \<Longrightarrow> \<not> u_is_admin u"
  shows "serve e r q d =
    (Inl (case x of Inl err \<Rightarrow> err | Inr _ \<Rightarrow> HTTPException 403 ''Admin privileges required'' False), d)"
proof -
  let ?err = "case x of Inl err \<Rightarrow> err | Inr _ \<Rightarrow> HTTPException 403 ''Admin privileges required'' False"
  have "snd (get_current_user e r (begin_session d)) = begin_session d"
    using reads_current_user [of e r] by (simp add: reads_def)
  moreover have "fst (get_current_user e r (begin_session d)) = x"
    using assms(2) by (auto simp: run_svc_def split: prod.splits)
  ultimately have caller: "get_current_user e r (begin_session d) = (x, begin_session d)"
    by (metis prod.collapse)
  have "require_admin e r (begin_session d) = (Inl ?err, begin_session d)"
    using assms(3) by (cases x) (simp_all add: require_admin_def bindS_def caller throw_def)
  then have guard: "bindS (require_admin e r) f (begin_session d) = (Inl ?err, begin_session d)" for f :: "user \<Rightarrow> 'a svc"
    by (rule failed_bind)
  have "handle e r q (begin_session d) = (Inl ?err, begin_session d)"
    using assms(1)
    by (cases q) (simp_all add: admin_request_def respond_def h_list_users_def h_get_user_detail_def
        h_approve_user_def h_suspend_user_def h_list_audit_events_def h_get_audit_event_def
        h_force_kill_job_def h_force_drain_node_def h_dashboard_def failed_bind guard)
  then show ?thesis by (simp add: serve_def run_svc_def begin_session_def)
qed

theorem admin_guard_witness:
  "serve (demo_env 9) (demo_request None) (PostForceKill 96) demo_running =
    (Inl (unauthorized ''Not authenticated''), demo_running)"
proof -
  have h: "admin_request (PostForceKill 96)" by (simp add: admin_request_def)
  have x: "fst (run_svc (get_current_user (demo_env 9) (demo_request None)) demo_running) =
      Inl (unauthorized ''Not authenticated'')" by code_simp
  from admin_guard [OF h x] show ?thesis by simp
qed

text \<open>
  C26. Nobody becomes an administrator over HTTP: after any sequence of requests, by anybody and
  with whatever content, every administrator was one before.
\<close>

theorem admins_only_by_cli:
  assumes "reachable d" and "\<forall>a \<in> set as. \<exists>e r q. a = Http e r q"
    and "u' \<in> set (users (run_actions as d))" and "u_is_admin u'"
  shows "\<exists>u \<in> set (users d). u_id u = u_id u' \<and> u_is_admin u"
proof -
  have "admins_from d (run_actions as d)" using reachable_ok [OF assms(1)] assms(2)
  proof (induction as arbitrary: d)
    case Nil
    then show ?case by (simp add: admins_from_same)
  next
    case (Cons a as)
    then obtain e r q where a: "a = Http e r q" by auto
    have "admins_from d (execute a d)" unfolding a using admins.served [OF Cons.prems(1)] by simp
    with Cons.IH [OF integrity.executed [OF Cons.prems(1)]] Cons.prems(2) show ?case
      by (auto intro: admins_from_trans)
  qed
  with assms(3,4) show ?thesis by (auto simp: admins_from_def)
qed

theorem admins_only_by_cli_witness: "\<exists>u \<in> set (users demo_queued). u_id u = 16 \<and> u_is_admin u"
proof -
  have run: "run_actions [demo_claim, demo_complete] demo_queued = demo_finished"
    using demo_steps by simp
  have u: "demo_user\<lparr>u_credits_gpu_hours := 39, u_updated_at := demo_time 9\<rparr> \<in> set (users demo_finished)"
    "u_is_admin (demo_user\<lparr>u_credits_gpu_hours := 39, u_updated_at := demo_time 9\<rparr>)"
    "u_id (demo_user\<lparr>u_credits_gpu_hours := 39, u_updated_at := demo_time 9\<rparr>) = 16" by code_simp+
  have "\<forall>a \<in> set [demo_claim, demo_complete]. \<exists>e r q. a = Http e r q"
    by (simp add: demo_claim_def demo_complete_def)
  from admins_only_by_cli [OF reachable_demo_queued this, unfolded run, OF u(1,2)] u(3) show ?thesis by simp
qed

end
