(* ===== verification/FleetTheorems.thy ===== *)
theory FleetTheorems
  imports NodeTheorems
begin

text \<open>
  Nodes in operation: the heartbeat that relays a cancellation, the last metrics of each GPU,
  draining, and removal with everything that referred to the node.
\<close>

section \<open>Unique rows\<close>

lemma distinct_filter_map_eq:
  assumes "distinct (filter (\<lambda>p. p \<noteq> None) (map f xs))" and "x \<in> set xs" and "y \<in> set xs"
    and "f x = f y" and "f y \<noteq> None"
  shows "x = y"
  using assms by (induction xs) (force split: if_splits)+

lemma running_unique:
  assumes "db_ok d" and "j \<in> set (jobs d)" and "k \<in> set (jobs d)" and "running_on i j" and "running_on i k"
  shows "j = k"
proof -
  note js = db_ok_jobs [OF assms(1)]
  have "j_id j = j_id k"
    using jobs_ok_one_running [OF js] assms(2-) unfolding one_running_def running_on_def
    by (metis job_status_literals(2))
  with jobs_ok_distinct [OF js] assms(2,3) show ?thesis by (rule same_key_row)
qed

section \<open>Removal\<close>

lemma node_owner: "db_ok d \<Longrightarrow> find_node i d = Some nd \<Longrightarrow> n_user_id nd \<in> u_id ` set (users d) \<and> n_id nd = i"
  by (auto simp: db_ok_def nodes_ok_def dest!: lookup_row_SomeD)

definition node_audit ::
  "env \<Rightarrow> string \<Rightarrow> node \<Rightarrow> user \<Rightarrow> string option \<Rightarrow> string option \<Rightarrow> audit_log" where
  "node_audit e ev nd by_user ip ua = \<lparr>a_id = uuid4 e 0, a_user_id = Some (n_user_id nd), a_event_type = ev,
     a_event_data = JObj [(''node_id'', JStr (str_uuid (n_id nd))),
       (''actor_user_id'', JStr (str_uuid (u_id by_user))), (''actor_email'', JStr (u_email by_user))],
     a_ip_address = ip, a_user_agent = ua, a_created_at = txn_now e\<rparr>"

definition may_manage :: "user \<Rightarrow> user option \<Rightarrow> node \<Rightarrow> bool" where
  "may_manage u actor nd \<longleftrightarrow> n_user_id nd = u_id u \<or> (case actor of None \<Rightarrow> False | Some a \<Rightarrow> u_is_admin a)"

text \<open>
  Removing a node, on every branch: a node that does not exist or is someone else's (and no
  administrator acts) is not found, a node with a running job is busy, and both refusals change
  nothing; otherwise exactly its row, its metrics and the references of jobs to it go, and one
  audit event is added. No job is lost.
\<close>

theorem delete_outcome:
  assumes "db_ok d" and "uuid4 e 0 \<notin> a_id ` set (audit_events d)"
  shows "run_svc (delete_node e u i ip ua actor) d =
    (case find_node i d of
       None \<Rightarrow> (Inl (NodeNotFound (not_found_message ''node'' i)), d)
     | Some nd \<Rightarrow>
         if \<not> may_manage u actor nd then (Inl (NodeNotFound (not_found_message ''node'' i)), d)
         else if \<exists>j \<in> set (jobs d). running_on i j then (Inl (NodeBusy (str_uuid i)), d)
         else (Inr (str_uuid i),
           d\<lparr>nodes := drop_row n_id i (nodes d), jobs := map (forget_node i) (jobs d),
             node_metrics := filter (\<lambda>m. m_node_id m \<noteq> i) (node_metrics d),
             audit_events := audit_events d @ [node_audit e ''node.removed'' nd (acting_user u actor) ip ua]\<rparr>))"
proof (cases "find_node i d")
  case None
  then show ?thesis by (simp add: delete_node_def get_owned_for_actor_def node_repo_get_by_id_def run_defs)
next
  case (Some nd)
  note owner = node_owner [OF assms(1) Some]
  have busy: "find (running_on i) (jobs d) = None \<longleftrightarrow> \<not> (\<exists>j \<in> set (jobs d). running_on i j)"
    by (auto simp: find_None_iff)
  have allowed: "(case actor of None \<Rightarrow> False | Some a \<Rightarrow> u_is_admin a) \<or> n_user_id nd = u_id u \<longleftrightarrow>
      may_manage u actor nd" by (auto simp: may_manage_def)
  have "run_svc (get_owned_for_actor u i actor) d =
      (if may_manage u actor nd then Inr nd else Inl (NodeNotFound (not_found_message ''node'' i)), d)"
    using Some allowed by (auto simp: get_owned_for_actor_def node_repo_get_by_id_def run_defs)
  then have get: "get_owned_for_actor u i actor (begin_session d) =
      (if may_manage u actor nd then Inr nd else Inl (NodeNotFound (not_found_message ''node'' i)), begin_session d)"
    using Some allowed by (auto simp: get_owned_for_actor_def node_repo_get_by_id_def run_defs)
  show ?thesis
  proof (cases "find (running_on i) (jobs d)")
    case None
    with Some owner assms(2) busy get show ?thesis
      by (simp add: delete_node_def job_repo_get_running_for_node_def node_repo_delete_def delete_node_row_def
          node_audit_def run_defs)
  next
    case (Some j)
    with \<open>find_node i d = Some nd\<close> owner busy get show ?thesis
      by (simp add: delete_node_def job_repo_get_running_for_node_def run_defs)
  qed
qed

theorem delete_outcome_witness:
  "run_svc (delete_node (demo_env 9) demo_user 81 None None None) demo_running = (Inl (NodeBusy (str_uuid 81)), demo_running)"
proof -
  have h: "uuid4 (demo_env 9) 0 \<notin> a_id ` set (audit_events demo_running)" by code_simp
  have f: "find_node 81 demo_running = Some demo_node" "may_manage demo_user None demo_node"
    "\<exists>j \<in> set (jobs demo_running). running_on 81 j" by code_simp+
  show ?thesis unfolding delete_outcome [OF demo_ok(2) h] using f by simp
qed

text \<open>
  A removed node is gone for its agent too: once a removal has succeeded, the agent token
  of the node is refused with 401, and every other node is found as before.
\<close>

theorem removed_node_locked_out:
  assumes "db_ok d" and "run_svc (delete_node e u i ip ua actor) d = (Inr x, d')"
    and "find_node i d = Some nd" and "n_agent_token_prefix nd = Some (agent_token_lookup_prefix tok)"
    and "credentials r = Some tok"
  shows "run_svc (get_current_node e' r) d' = (Inl (unauthorized ''Invalid agent token''), d') \<and>
    find_node i d' = None \<and> (\<forall>k. k \<noteq> i \<longrightarrow> find_node k d' = find_node k d)"
proof -
  have "wp (delete_node e u i ip ua actor) (\<lambda>r s. \<forall>x. r = Inr x \<longrightarrow>
      nodes (committed s) = nodes (projr (delete_node_row i d))) (begin_session d)"
    by (auto simp: delete_node_def get_owned_for_actor_def node_repo_get_by_id_def
        job_repo_get_running_for_node_def node_repo_delete_def delete_node_row_def audit_repo_create_def
        Let_def wp_simps dest!: insert_audit_frame lookup_row_SomeD split: option.splits sum.splits if_splits)
  from wp_run [OF this assms(2)] have nodes: "nodes d' = nodes (projr (delete_node_row i d))" by simp
  have other: "find_node k d' = (if k = i then None else find_node k d)" for k
    using nodes_by_id.lookup_del [of k i d] by (simp add: nodes)
  have dist: "distinct (filter (\<lambda>p. p \<noteq> None) (map n_agent_token_prefix (nodes d)))"
    using assms(1) by (simp add: db_ok_def nodes_ok_def)
  have nd: "nd \<in> set (nodes d)" "n_id nd = i" using assms(3) by (auto dest!: lookup_row_SomeD)
  have "n_id x = i" if "x \<in> set (nodes d)" "n_agent_token_prefix x = n_agent_token_prefix nd" for x
    using distinct_filter_map_eq [OF dist that(1) nd(1) that(2)] assms(4) nd(2) by simp
  then have "n_agent_token_prefix x \<noteq> Some (agent_token_lookup_prefix tok)" if "x \<in> set (nodes d')" for x
    using that assms(4) by (auto simp: nodes delete_node_row_def in_set_drop)
  then have "lookup_row n_agent_token_prefix (Some (agent_token_lookup_prefix tok)) (nodes d') = None"
    by (metis lookup_row_None imageE)
  then have "run_svc (get_current_node e' r) d' = (Inl (unauthorized ''Invalid agent token''), d')"
    using assms(5) by (simp add: get_current_node_def authenticate_agent_def node_repo_get_by_agent_prefix_def run_defs)
  with other show ?thesis by simp
qed

section \<open>Draining\<close>

text \<open>
  Draining a node stops new work only: after a drain the node is stored as draining, no job
  has changed (a running one goes on), the node claims nothing, draining it again changes
  nothing, and its owner can undo it, which puts it back online and changes nothing else but
  the audit log.
\<close>

theorem drain_stops_work:
  assumes "db_ok d" and "run_svc (drain_node e u i ip ua actor ev) d = (Inr nd, d')"
    and "n_user_id nd = u_id owner" and "uuid4 e' 0 \<notin> a_id ` set (audit_events d')"
  shows "find_node i d' = Some nd \<and> n_status nd = ''draining'' \<and> jobs d' = jobs d \<and>
    run_svc (claim_for_node e' nd) d' = (Inr None, d') \<and>
    run_svc (drain_node e' owner i ip ua None ev) d' = (Inr nd, d') \<and>
    run_svc (undrain_node e' owner i ip ua) d' = (Inr (nd\<lparr>n_status := ''online''\<rparr>),
      d'\<lparr>nodes := put_row n_id (nd\<lparr>n_status := ''online''\<rparr>) (nodes d'),
        audit_events := audit_events d' @ [node_audit e' ''node.undrained'' nd owner ip ua]\<rparr>)"
proof -
  have ok: "db_ok d'" using drain_node_ok [OF assms(1)] assms(2) ok_run_snd by (metis snd_conv)
  have "wp (drain_node e u i ip ua actor ev) (\<lambda>r s. \<forall>nd. r = Inr nd \<longrightarrow>
      find_node i (committed s) = Some nd \<and> n_status nd = ''draining'' \<and> jobs (committed s) = jobs d) (begin_session d)"
  proof (cases "find_node i d")
    case None
    then show ?thesis by (simp add: drain_node_def get_owned_for_actor_def node_repo_get_by_id_def wp_simps)
  next
    case (Some x)
    moreover have "n_id x = i" using Some by (auto dest: lookup_row_SomeD)
    ultimately show ?thesis
      by (auto simp: drain_node_def get_owned_for_actor_def node_repo_get_by_id_def node_repo_set_status_def
          flush_node_def audit_repo_create_def row_simps Let_def wp_simps
          dest!: insert_audit_frame split: option.splits sum.splits if_splits)
  qed
  from wp_run [OF this assms(2)]
  have nd: "find_node i d' = Some nd" "n_status nd = ''draining''" "jobs d' = jobs d" by auto
  have claim: "run_svc (claim_for_node e' nd) d' = (Inr None, d')" using nd(2) by (intro claim_nothing) simp
  have drain: "run_svc (drain_node e' owner i ip ua None ev) d' = (Inr nd, d')"
    using nd assms(3) by (simp add: drain_node_def get_owned_for_actor_def node_repo_get_by_id_def run_defs)
  have undrain: "run_svc (undrain_node e' owner i ip ua) d' = (Inr (nd\<lparr>n_status := ''online''\<rparr>),
      d'\<lparr>nodes := put_row n_id (nd\<lparr>n_status := ''online''\<rparr>) (nodes d'),
        audit_events := audit_events d' @ [node_audit e' ''node.undrained'' nd owner ip ua]\<rparr>)"
    using nd assms(3,4) node_owner [OF ok nd(1)]
    by (simp add: undrain_node_def get_owned_node_def node_repo_get_by_id_def node_repo_set_status_def
        flush_node_def node_audit_def run_defs)
  from nd claim drain undrain show ?thesis by blast
qed

lemma demo_drains:
  "run_svc (drain_node (demo_env 9) demo_user 81 None None None ''node.drained'') demo_queued =
    (Inr (demo_node\<lparr>n_status := ''draining''\<rparr>),
     demo_queued\<lparr>nodes := [demo_node\<lparr>n_status := ''draining''\<rparr>], audit_events := audit_events demo_queued @
       [node_audit (demo_env 9) ''node.drained'' demo_node demo_user None None]\<rparr>)"
  by code_simp

theorem drain_stops_work_witness:
  "\<exists>d'. run_svc (drain_node (demo_env 9) demo_user 81 None None None ''node.drained'') demo_queued =
      (Inr (demo_node\<lparr>n_status := ''draining''\<rparr>), d') \<and>
    run_svc (claim_for_node (demo_env 10) (demo_node\<lparr>n_status := ''draining''\<rparr>)) d' = (Inr None, d')"
proof -
  have "n_user_id (demo_node\<lparr>n_status := ''draining''\<rparr>) = u_id demo_user"
    "uuid4 (demo_env 10) 0 \<notin> a_id ` set (audit_events (snd (run_svc (drain_node (demo_env 9) demo_user 81
        None None None ''node.drained'') demo_queued)))" by code_simp+
  with drain_stops_work [OF demo_ok(1) demo_drains, of demo_user "demo_env 10"] demo_drains show ?thesis by auto
qed

definition demo_removed :: db where
  "demo_removed = demo_queued\<lparr>nodes := [], jobs := map (forget_node 81) (jobs demo_queued),
     audit_events := audit_events demo_queued @
       [node_audit (demo_env 9) ''node.removed'' demo_node demo_user None None]\<rparr>"

lemma demo_removes: "run_svc (delete_node (demo_env 9) demo_user 81 None None None) demo_queued =
    (Inr (str_uuid 81), demo_removed)"
  by code_simp

theorem removed_node_locked_out_witness:
  "\<exists>d'. run_svc (get_current_node (demo_env 10) as_agent) d' = (Inl (unauthorized ''Invalid agent token''), d') \<and>
    jobs d' \<noteq> []"
proof -
  have h: "find_node 81 demo_queued = Some demo_node"
    "n_agent_token_prefix demo_node = Some (agent_token_lookup_prefix ''gpuagent_005token'')"
    "credentials as_agent = Some ''gpuagent_005token''" by code_simp+
  have "jobs (demo_removed) \<noteq> []" by (simp add: demo_removed_def demo_queued_def)
  with removed_node_locked_out [OF demo_ok(1) demo_removes h, of "demo_env 10"] show ?thesis by blast
qed

section \<open>Heartbeats\<close>

text \<open>
  A heartbeat of an authenticated agent is refused with 403 and changes nothing when the
  path names another node; otherwise it only stamps the node's row with the time, and it
  answers with a job to cancel exactly when that job runs on the node and its cancellation was
  requested.
\<close>

theorem heartbeat_outcome:
  assumes "db_ok d" and "run_svc (get_current_node e r) d = (Inr nd, d)"
  shows "if n_id nd \<noteq> i
    then run_svc (h_heartbeat e r i) d = (Inl (HTTPException 403 ''Agent token does not match node'' False), d)
    else \<exists>c. run_svc (h_heartbeat e r i) d = (Inr \<lparr>hr_received_at = clock e 1, hr_cancel_job_id = c\<rparr>,
        projr (flush_node (nd\<lparr>n_last_seen_at := Some (clock e 0)\<rparr>) d)) \<and>
      (\<forall>k. c = Some k \<longleftrightarrow>
        (\<exists>j \<in> set (jobs d). j_id j = k \<and> running_on i j \<and> j_cancel_requested_at j \<noteq> None))"
proof -
  have caller: "get_current_node e r (begin_session d) = (Inr nd, begin_session d)"
    using assms(2) reads_current_node [of e r]
    by (auto simp: reads_def run_svc_def split: prod.splits) (metis snd_conv)
  let ?c = "case find (running_on i) (jobs d) of None \<Rightarrow> None
    | Some j \<Rightarrow> if j_cancel_requested_at j \<noteq> None then Some (j_id j) else None"
  have same: "j = k" if "j \<in> set (jobs d)" "k \<in> set (jobs d)" "running_on i j" "running_on i k" for j k
    using running_unique [OF assms(1)] that by blast
  have relays: "?c = Some k \<longleftrightarrow>
      (\<exists>j \<in> set (jobs d). j_id j = k \<and> running_on i j \<and> j_cancel_requested_at j \<noteq> None)" for k
  proof (cases "find (running_on i) (jobs d)")
    case None
    then have "?c = None" "\<not> (\<exists>j \<in> set (jobs d). running_on i j)" by (simp, auto simp: find_None_iff)
    then show ?thesis by (auto simp del: option.case_eq_if)
  next
    case (Some j)
    then have "j \<in> set (jobs d)" "running_on i j" by (auto simp: find_Some_iff)
    with same Some show ?thesis by (auto split: if_splits) 
  qed
  show ?thesis
  proof (cases "n_id nd = i")
    case True
    then have "run_svc (h_heartbeat e r i) d = (Inr \<lparr>hr_received_at = clock e 1, hr_cancel_job_id = ?c\<rparr>,
        projr (flush_node (nd\<lparr>n_last_seen_at := Some (clock e 0)\<rparr>) d))"
      using caller
      by (simp add: h_heartbeat_def same_node_def record_heartbeat_def node_repo_update_last_seen_def flush_node_def
          get_current_job_def job_repo_get_running_for_node_def run_defs split: option.splits)
    with True relays show ?thesis by auto
  next
    case False
    with caller show ?thesis by (simp add: h_heartbeat_def same_node_def run_defs)
  qed
qed

theorem heartbeat_outcome_witness:
  "\<exists>d'. run_svc (h_heartbeat (demo_env 10) as_agent 81) demo_cancelling =
    (Inr \<lparr>hr_received_at = clock (demo_env 10) 1, hr_cancel_job_id = Some 96\<rparr>, d')"
proof -
  have caller: "run_svc (get_current_node (demo_env 10) as_agent) demo_cancelling = (Inr demo_node, demo_cancelling)"
    by code_simp
  have "n_id demo_node = 81"
    "\<exists>j \<in> set (jobs demo_cancelling). j_id j = 96 \<and> running_on 81 j \<and> j_cancel_requested_at j \<noteq> None"
    by code_simp+
  with heartbeat_outcome [OF demo_ok(3) caller, of 81] show ?thesis by auto
qed

section \<open>Progress of the queue\<close>

text \<open>How many jobs the node would get before this one.\<close>

definition jobs_ahead :: "env \<Rightarrow> node \<Rightarrow> job \<Rightarrow> db \<Rightarrow> nat" where
  "jobs_ahead e nd j d =
     length (filter (\<lambda>k. claimable e (n_id nd) (n_gpu_count nd) k \<and> job_key k < job_key j) (jobs d))"

lemma filter_put:
  assumes "distinct (map f xs)" and "x \<in> set xs" and "f y = f x" and "P x" and "\<not> P y"
  shows "Suc (length (filter P (put_row f y xs))) = length (filter P xs)"
  using assms
proof (induction xs)
  case (Cons z zs)
  show ?case
  proof (cases "f z = f x")
    case True
    then have "z = x" and "\<And>w. w \<in> set zs \<Longrightarrow> f w \<noteq> f x" using Cons.prems(1,2) by (auto simp: rev_image_eqI)
    moreover from this(2) have "map (\<lambda>w. if f w = f x then y else w) zs = zs" by (auto intro: map_idI)
    ultimately show ?thesis using Cons.prems(3-5) by (simp add: put_row_def)
  next
    case False
    with Cons show ?thesis by (auto simp: put_row_def)
  qed
qed simp

lemma run_claim:
  assumes "db_ok d" and "find_node (n_id nd) d = Some nd" and "n_status nd \<noteq> ''draining''"
    and "\<not> (\<exists>k \<in> set (jobs d). running_on (n_id nd) k)"
    and "next_claimable e (n_id nd) (n_gpu_count nd) (jobs d) = Some j"
    and "uuid4 e 0 \<notin> a_id ` set (audit_events d)"
  defines "j' \<equiv> j\<lparr>j_status := RUNNING, j_assigned_node_id := Some (n_id nd), j_started_at := Some (clock e 0)\<rparr>"
  shows "\<exists>a. run_svc (claim_for_node e nd) d = (Inr (Some j'),
    d\<lparr>jobs := put_row j_id j' (jobs d), audit_events := audit_events d @ [a]\<rparr>)"
proof -
  have idle: "find (running_on (n_id nd)) (jobs d) = None" using assms(4) by (auto simp: find_None_iff)
  have node: "n_id nd \<in> n_id ` set (nodes d)" using assms(2) by (auto dest: lookup_row_SomeD)
  have "j \<in> set (jobs d)" using next_claimable_in [OF assms(5)] by blast
  then have "j_user_id j \<in> u_id ` set (users d)" using db_ok_jobs [OF assms(1)] by (simp add: jobs_ok_def job_row_ok_def)
  with assms(3,5,6) idle node show ?thesis
    by (simp add: claim_for_node_def job_repo_get_running_for_node_def job_repo_claim_next_for_node_def
        assign_job_def flush_job_def node_ref_ok_def j'_def job_status_literals [symmetric] run_defs)
      (rule exI, rule refl)
qed

text \<open>
  C20. No claimable job starves: when an idle node that is not draining asks for work and some
  job could run on it, it gets one; for every such job, either it is that one, or it is still
  waiting with exactly one job fewer ahead of it. So it is handed out after as many claims as
  there are claimable jobs before it in creation order.
\<close>

theorem claim_progress:
  assumes "db_ok d" and "find_node (n_id nd) d = Some nd" and "n_status nd \<noteq> ''draining''"
    and "\<not> (\<exists>k \<in> set (jobs d). running_on (n_id nd) k)"
    and "j \<in> set (jobs d)" and "claimable e (n_id nd) (n_gpu_count nd) j"
    and "uuid4 e 0 \<notin> a_id ` set (audit_events d)"
  shows "\<exists>j' d'. run_svc (claim_for_node e nd) d = (Inr (Some j'), d') \<and> running_on (n_id nd) j' \<and>
    find_job (j_id j') d' = Some j' \<and>
    (j_id j' = j_id j \<and> jobs_ahead e nd j d = 0 \<or>
     j \<in> set (jobs d') \<and> Suc (jobs_ahead e nd j d') = jobs_ahead e nd j d)"
proof -
  obtain c where c: "next_claimable e (n_id nd) (n_gpu_count nd) (jobs d) = Some c"
    using next_claimable_None assms(5,6) by (metis not_None_eq)
  note in_queue = next_claimable_in [OF c]
  let ?c = "c\<lparr>j_status := RUNNING, j_assigned_node_id := Some (n_id nd), j_started_at := Some (clock e 0)\<rparr>"
  obtain a where run: "run_svc (claim_for_node e nd) d = (Inr (Some ?c),
      d\<lparr>jobs := put_row j_id ?c (jobs d), audit_events := audit_events d @ [a]\<rparr>)"
    using run_claim [OF assms(1-4) c assms(7)] by blast
  let ?d = "d\<lparr>jobs := put_row j_id ?c (jobs d), audit_events := audit_events d @ [a]\<rparr>"
  have dist: "distinct (map j_id (jobs d))" using jobs_ok_distinct [OF db_ok_jobs [OF assms(1)]] .
  have found: "find_job (j_id ?c) ?d = Some ?c"
    using lookup_row_distinct [OF dist, of c] in_queue by (simp add: row_simps)
  have runs: "running_on (n_id nd) ?c" by (simp add: running_on_def job_status_literals)
  have least: "job_key c \<le> job_key k" if "k \<in> set (jobs d)" "claimable e (n_id nd) (n_gpu_count nd) k" for k
    using next_claimable_min [OF c that] .
  have order: "j_id c = j_id j \<and> jobs_ahead e nd j d = 0 \<or>
      j \<in> set (jobs ?d) \<and> Suc (jobs_ahead e nd j ?d) = jobs_ahead e nd j d"
  proof (cases "j_id c = j_id j")
    case True
    then have "c = j" using same_key_row [OF dist _ assms(5)] in_queue by blast
    then have "jobs_ahead e nd j d = 0" using least by (force simp: jobs_ahead_def filter_empty_conv)
    with True show ?thesis by simp
  next
    case False
    have "job_key c \<noteq> job_key j" using False by (simp add: job_key_def)
    with least [OF assms(5,6)] have "job_key c < job_key j" by simp
    then have "Suc (jobs_ahead e nd j ?d) = jobs_ahead e nd j d"
      using in_queue unfolding jobs_ahead_def
      by (simp, intro filter_put [OF dist]) (auto simp: claimable_def job_status_defs)
    with False assms(5) show ?thesis by (simp add: in_set_put)
  qed
  from run found runs order show ?thesis by (intro exI [of _ ?c] exI [of _ ?d]) simp
qed

theorem claim_progress_witness:
  "\<exists>j' d'. run_svc (claim_for_node (demo_env 8) demo_node) demo_queued = (Inr (Some j'), d') \<and> running_on 81 j'"
proof -
  have h: "find_node (n_id demo_node) demo_queued = Some demo_node" "n_status demo_node \<noteq> ''draining''"
    "\<not> (\<exists>k \<in> set (jobs demo_queued). running_on (n_id demo_node) k)" "demo_job \<in> set (jobs demo_queued)"
    "claimable (demo_env 8) (n_id demo_node) (n_gpu_count demo_node) demo_job"
    "uuid4 (demo_env 8) 0 \<notin> a_id ` set (audit_events demo_queued)" "n_id demo_node = 81" by code_simp+
  from claim_progress [OF demo_ok(1) h(1-6)] h(7) show ?thesis by auto
qed

end
