(* ===== verification/TelemetryTheorems.thy ===== *)
theory TelemetryTheorems
  imports NodeTheorems
begin

text \<open>
  What agents report: the last metrics of each GPU, and the log of a job, which is delivered
  at least once and kept exactly once, in the order of its sequence numbers.
\<close>

section \<open>Metrics\<close>

lemma lookup_upsert:
  "lookup_row metric_key k (upsert_metric m rows) =
    (if metric_key m = k then Some m else lookup_row metric_key k rows)"
proof (cases "metric_key m \<in> metric_key ` set rows")
  case True
  then have "\<exists>x. lookup_row metric_key (metric_key m) rows = Some x" by (metis lookup_row_None not_None_eq)
  with True show ?thesis by (auto simp: upsert_metric_def row_simps)
next
  case False
  then have "lookup_row metric_key (metric_key m) rows = None" by (simp add: lookup_row_None)
  with False show ?thesis by (auto simp: upsert_metric_def lookup_row_append split: option.splits)
qed

lemma lookup_row_Cons: "lookup_row key k (r # rows) = (if key r = k then Some r else lookup_row key k rows)"
  by (simp add: lookup_row_def)

lemma fold_upsert_lookup:
  "distinct (map metric_key ms) \<Longrightarrow> lookup_row metric_key k (fold upsert_metric ms rows) =
    (case lookup_row metric_key k ms of None \<Rightarrow> lookup_row metric_key k rows | Some m \<Rightarrow> Some m)"
proof (induction ms arbitrary: rows)
  case (Cons m ms)
  have "lookup_row metric_key (metric_key m) ms = None" using Cons.prems by (auto simp: lookup_row_None)
  with Cons show ?case by (auto simp: lookup_upsert lookup_row_Cons split: option.splits)
qed (simp add: lookup_row_def)

text \<open>
  C34. A metrics report of a node: values out of the columns' range and a GPU index that occurs
  twice make the statement fail and change nothing; otherwise afterwards the row of every
  reported GPU is the reported sample, every other row (of this or another node) is as before,
  and the node was seen.
\<close>

theorem metrics_outcome:
  assumes "find_node (n_id nd) d = Some nd" and "samples \<noteq> []"
  shows "case run_svc (record_metrics e nd samples) d of
      (Inl err, d') \<Rightarrow> d' = d \<and>
        (if list_all metric_in_range (map (metric_of_sample (n_id nd) (clock e 0)) samples)
         then err = CardinalityViolation \<and> \<not> distinct (map s_gpu_index samples)
         else err = DataError ''node_metrics'')
    | (Inr _, d') \<Rightarrow> distinct (map s_gpu_index samples) \<and>
        (\<forall>x \<in> set samples. lookup_row metric_key (n_id nd, s_gpu_index x) (node_metrics d') =
           Some (metric_of_sample (n_id nd) (clock e 0) x)) \<and>
        (\<forall>i g. i \<noteq> n_id nd \<or> g \<notin> s_gpu_index ` set samples \<longrightarrow>
           lookup_row metric_key (i, g) (node_metrics d') = lookup_row metric_key (i, g) (node_metrics d)) \<and>
        nodes d' = put_row n_id (nd\<lparr>n_last_seen_at := Some (clock e 1)\<rparr>) (nodes d)"
proof -
  let ?f = "metric_of_sample (n_id nd) (clock e 0)"
  let ?ms = "map ?f samples"
  have key: "metric_key (?f x) = (n_id nd, s_gpu_index x)" for x
    by (simp add: metric_key_def metric_of_sample_def)
  have keys: "map metric_key ?ms = map (Pair (n_id nd)) (map s_gpu_index samples)" by (simp add: key)
  have dist: "distinct (map metric_key ?ms) \<longleftrightarrow> distinct (map s_gpu_index samples)"
    unfolding keys distinct_map by (auto simp: inj_on_def)
  have member: "n_id nd \<in> n_id ` set (nodes d)" using assms(1) by (auto dest: lookup_row_SomeD)
  have run: "run_svc (record_metrics e nd samples) d =
     (if \<not> list_all metric_in_range ?ms then (Inl (DataError ''node_metrics''), d)
      else if \<not> distinct (map metric_key ?ms) then (Inl CardinalityViolation, d)
      else (Inr (), d\<lparr>node_metrics := fold upsert_metric ?ms (node_metrics d),
        nodes := put_row n_id (nd\<lparr>n_last_seen_at := Some (clock e 1)\<rparr>) (nodes d)\<rparr>))"
    using assms(2) member
    by (simp add: record_metrics_def node_metric_repo_upsert_samples_def upsert_metric_rows_def
        node_repo_update_last_seen_def flush_node_def run_defs)
  have found: "lookup_row metric_key (n_id nd, s_gpu_index x) ?ms = Some (?f x)"
    if "x \<in> set samples" "distinct (map metric_key ?ms)" for x
    using lookup_row_distinct [OF that(2), of "?f x"] that(1) by (simp add: key)
  have other: "lookup_row metric_key (i, g) ?ms = None" if "i \<noteq> n_id nd \<or> g \<notin> s_gpu_index ` set samples" for i g
    using that by (auto simp: lookup_row_None key)
  show ?thesis unfolding run using found other dist by (simp add: fold_upsert_lookup)
qed

theorem metrics_outcome_witness:
  "snd (run_svc (record_metrics (demo_env 9) demo_node
      [\<lparr>s_gpu_index = 0, s_utilization_pct = 5, s_memory_used_bytes = 6, s_memory_total_bytes = 7, s_temperature_c = 8\<rparr>,
       \<lparr>s_gpu_index = 0, s_utilization_pct = 1, s_memory_used_bytes = 2, s_memory_total_bytes = 3, s_temperature_c = 4\<rparr>])
    demo_queued) = demo_queued"
proof -
  let ?xs = "[\<lparr>s_gpu_index = 0, s_utilization_pct = 5, s_memory_used_bytes = 6, s_memory_total_bytes = 7, s_temperature_c = 8\<rparr>,
       \<lparr>s_gpu_index = 0, s_utilization_pct = 1, s_memory_used_bytes = 2, s_memory_total_bytes = 3, s_temperature_c = 4\<rparr>]"
  have "find_node (n_id demo_node) demo_queued = Some demo_node" by code_simp
  from metrics_outcome [OF this, of ?xs "demo_env 9"] show ?thesis by (auto split: prod.splits sum.splits)
qed

section \<open>Logs\<close>

text \<open>What a batch adds to a log with the sequence numbers \<open>K\<close>: the first entry of each new number.\<close>

fun accepted :: "int set \<Rightarrow> log_entry list \<Rightarrow> log_entry list" where
  "accepted K [] = []"
| "accepted K (x # xs) =
     (if e_sequence x \<in> K then accepted K xs else x # accepted (insert (e_sequence x) K) xs)"

lemma accepted_sequences:
  "e_sequence ` set (accepted K xs) = e_sequence ` set xs - K \<and> distinct (map e_sequence (accepted K xs))"
  by (induction K xs rule: accepted.induct) auto

lemma accepted_first: "x \<in> set (accepted K xs) \<Longrightarrow> find (\<lambda>y. e_sequence y = e_sequence x) xs = Some x"
proof (induction K xs rule: accepted.induct)
  case (2 K y ys)
  show ?case
  proof (cases "e_sequence y \<in> K")
    case True
    have "e_sequence x \<notin> K" using accepted_sequences [of K "y # ys"] "2.prems" by blast
    with True "2.IH"(1) "2.prems" show ?thesis by auto
  next
    case False
    have "e_sequence x \<noteq> e_sequence y" if "x \<in> set (accepted (insert (e_sequence y) K) ys)"
      using accepted_sequences [of "insert (e_sequence y) K" ys] that by blast
    with False "2.IH"(2) "2.prems" show ?thesis by auto
  qed
qed simp

definition log_entry_of :: "job_log \<Rightarrow> log_entry" where
  "log_entry_of l = \<lparr>e_stream = l_stream l, e_content = l_content l, e_sequence = l_sequence l\<rparr>"

definition sequences :: "uuid \<Rightarrow> job_log list \<Rightarrow> int set" where
  "sequences i logs = l_sequence ` {l \<in> set logs. l_job_id l = i}"

lemma log_present_iff: "log_present i s logs \<longleftrightarrow> s \<in> sequences i logs"
  by (auto simp: log_present_def sequences_def)

lemma sequences_append: "sequences i (logs @ new) = sequences i logs \<union> sequences i new"
  by (auto simp: sequences_def)

lemma insert_logs_result:
  assumes "uuid4 e ` {k..<k + length xs} \<inter> l_id ` set logs = {}" and "inj_on (uuid4 e) {k..<k + length xs}"
    and "\<forall>x \<in> set xs. int4_ok (e_sequence x)"
  shows "\<exists>new. insert_logs e i k xs logs = Inr (length new, logs @ new) \<and>
    map log_entry_of new = accepted (sequences i logs) xs \<and> (\<forall>l \<in> set new. l_job_id l = i)"
  using assms
proof (induction xs arbitrary: k logs)
  case (Cons x xs)
  have split: "{k..<k + length (x # xs)} = insert k {Suc k..<Suc k + length xs}" by auto
  let ?row = "\<lparr>l_id = uuid4 e k, l_job_id = i, l_stream = e_stream x, l_content = e_content x,
     l_sequence = e_sequence x, l_received_at = txn_now e\<rparr>"
  let ?K = "{Suc k..<Suc k + length xs}"
  have used: "insert (uuid4 e k) (uuid4 e ` ?K) \<inter> l_id ` set logs = {}" "inj_on (uuid4 e) (insert k ?K)"
    using Cons.prems(1,2) unfolding split image_insert .
  have "k \<notin> ?K" by simp
  then have "uuid4 e k \<notin> uuid4 e ` ?K" using used(2) unfolding inj_on_def by blast
  moreover have parts: "uuid4 e ` ?K \<inter> l_id ` set logs = {}" "uuid4 e k \<notin> l_id ` set logs" "inj_on (uuid4 e) ?K"
    using used by (blast, blast, blast intro: inj_on_subset)
  moreover have ids: "l_id ` set (logs @ [?row]) = insert (uuid4 e k) (l_id ` set logs)" by simp
  ultimately have fresh: "uuid4 e ` ?K \<inter> l_id ` set (logs @ [?row]) = {}"
    by (simp only: ids Int_insert_right if_False)
  have "{l \<in> set [?row]. l_job_id l = i} = {?row}" by auto
  then have seqs: "sequences i (logs @ [?row]) = insert (e_sequence x) (sequences i logs)"
    unfolding sequences_append by (simp add: sequences_def)
  have entry: "log_entry_of ?row = x" by (simp add: log_entry_of_def)
  show ?case
  proof (cases "e_sequence x \<in> sequences i logs")
    case True
    with Cons.IH [OF parts(1,3)] Cons.prems(3) show ?thesis by (simp add: log_present_iff)
  next
    case False
    obtain new where new: "insert_logs e i (Suc k) xs (logs @ [?row]) = Inr (length new, (logs @ [?row]) @ new)"
      "map log_entry_of new = accepted (sequences i (logs @ [?row])) xs" "\<forall>l \<in> set new. l_job_id l = i"
      using Cons.IH [OF fresh parts(3)] Cons.prems(3) by auto
    with False parts(2) Cons.prems(3) seqs entry show ?thesis
      by (intro exI [of _ "?row # new"]) (simp add: log_present_iff)
  qed
qed simp

lemma insert_logs_known:
  assumes "\<forall>x \<in> set xs. int4_ok (e_sequence x)" and "e_sequence ` set xs \<subseteq> sequences i logs"
  shows "insert_logs e i k xs logs = Inr (0, logs)"
  using assms by (induction xs arbitrary: k) (simp_all add: log_present_iff)

lemma run_append_logs:
  assumes "find_job i d = Some j" and "j_assigned_node_id j = Some (n_id nd)"
    and "insert_logs e i 0 xs (job_logs d) = Inr (m, logs')"
  shows "run_svc (append_logs e nd i xs) d = (Inr m, d\<lparr>job_logs := logs'\<rparr>)"
proof -
  have j: "j_id j = i" "i \<in> j_id ` set (jobs d)" using assms(1) by (auto dest: lookup_row_SomeD)
  show ?thesis
  proof (cases "xs = []")
    case True
    with assms j show ?thesis
      by (simp add: append_logs_def job_repo_get_by_id_def job_log_repo_append_def run_defs)
  next
    case False
    with assms j show ?thesis
      by (simp add: append_logs_def job_repo_get_by_id_def job_log_repo_append_def append_log_rows_def run_defs)
  qed
qed

text \<open>
  C32. Log delivery is idempotent: a batch for a job of the node appends, of the entries whose
  sequence number the job's log does not have, the first one of each number, as they were sent
  and without touching another row; the answer is how many those are; and delivering the batch
  again inserts nothing and changes nothing.
\<close>

theorem log_delivery:
  assumes "find_job i d = Some j" and "j_assigned_node_id j = Some (n_id nd)"
    and "\<forall>x \<in> set xs. int4_ok (e_sequence x)" and "inj_on (uuid4 e) {0..<length xs}"
    and "uuid4 e ` {0..<length xs} \<inter> l_id ` set (job_logs d) = {}"
  shows "\<exists>new. run_svc (append_logs e nd i xs) d = (Inr (length new), d\<lparr>job_logs := job_logs d @ new\<rparr>) \<and>
    distinct (map l_sequence new) \<and> l_sequence ` set new = e_sequence ` set xs - sequences i (job_logs d) \<and>
    (\<forall>l \<in> set new. l_job_id l = i \<and>
      find (\<lambda>x. e_sequence x = l_sequence l) xs =
        Some \<lparr>e_stream = l_stream l, e_content = l_content l, e_sequence = l_sequence l\<rparr>) \<and>
    run_svc (append_logs e' nd i xs) (d\<lparr>job_logs := job_logs d @ new\<rparr>) = (Inr 0, d\<lparr>job_logs := job_logs d @ new\<rparr>)"
proof -
  obtain new where new: "insert_logs e i 0 xs (job_logs d) = Inr (length new, job_logs d @ new)"
    "map log_entry_of new = accepted (sequences i (job_logs d)) xs" "\<forall>l \<in> set new. l_job_id l = i"
    using insert_logs_result [of e 0 xs "job_logs d" i] assms(3-5) by auto
  have seq: "map l_sequence new = map e_sequence (accepted (sequences i (job_logs d)) xs)"
    unfolding new(2) [symmetric] by (simp add: log_entry_of_def)
  have set_seq: "l_sequence ` set new = e_sequence ` set (accepted (sequences i (job_logs d)) xs)"
    using arg_cong [OF seq, of set] by simp
  have first: "find (\<lambda>x. e_sequence x = l_sequence l) xs = Some (log_entry_of l)" if "l \<in> set new" for l
  proof -
    have "log_entry_of l \<in> set (accepted (sequences i (job_logs d)) xs)"
      unfolding new(2) [symmetric] using that by simp
    from accepted_first [OF this] show ?thesis by (simp add: log_entry_of_def)
  qed
  have "sequences i new = l_sequence ` set new" using new(3) by (auto simp: sequences_def)
  then have "e_sequence ` set xs \<subseteq> sequences i (job_logs d @ new)"
    using accepted_sequences [of "sequences i (job_logs d)" xs] by (auto simp: sequences_append set_seq)
  then have again: "insert_logs e' i 0 xs (job_logs d @ new) = Inr (0, job_logs d @ new)"
    using assms(3) by (intro insert_logs_known)
  show ?thesis
    using run_append_logs [OF assms(1,2) new(1)] run_append_logs [of i "d\<lparr>job_logs := job_logs d @ new\<rparr>" j nd e' xs]
      assms(1,2) again accepted_sequences [of "sequences i (job_logs d)" xs] set_seq seq first new(3)
    by (intro exI [of _ new]) (simp add: log_entry_of_def)
qed

definition demo_entries :: "log_entry list" where
  "demo_entries = [\<lparr>e_stream = ''stdout'', e_content = ''a'', e_sequence = 0\<rparr>,
     \<lparr>e_stream = ''stdout'', e_content = ''b'', e_sequence = 1\<rparr>,
     \<lparr>e_stream = ''stderr'', e_content = ''c'', e_sequence = 0\<rparr>]"

theorem log_delivery_witness:
  "\<exists>new. run_svc (append_logs (demo_env 9) demo_node 96 demo_entries) demo_running =
    (Inr (length new), demo_running\<lparr>job_logs := new\<rparr>) \<and> l_sequence ` set new = {0, 1}"
proof -
  have j: "find_job 96 demo_running = Some (hd (jobs demo_running))"
    "j_assigned_node_id (hd (jobs demo_running)) = Some (n_id demo_node)"
    "\<forall>x \<in> set demo_entries. int4_ok (e_sequence x)" by code_simp+
  have u: "inj_on (uuid4 (demo_env 9)) {0..<length demo_entries}"
    "uuid4 (demo_env 9) ` {0..<length demo_entries} \<inter> l_id ` set (job_logs demo_running) = {}" by code_simp+
  have logs: "job_logs demo_running = []" "sequences 96 [] = {}" "e_sequence ` set demo_entries = {0, 1}" by code_simp+
  obtain new where "run_svc (append_logs (demo_env 9) demo_node 96 demo_entries) demo_running =
      (Inr (length new), demo_running\<lparr>job_logs := job_logs demo_running @ new\<rparr>)"
    "l_sequence ` set new = e_sequence ` set demo_entries - sequences 96 (job_logs demo_running)"
    using log_delivery [OF j u, of "demo_env 10"] by blast
  with logs show ?thesis by (intro exI [of _ new]) simp
qed

end
