(* ===== verification/PagingTheorems.thy ===== *)
theory PagingTheorems
  imports JobTheorems
begin

text \<open>
  Keyset pagination: a client that follows the cursors of a listing sees every row exactly
  once, newest first, and stops after finitely many requests.
\<close>

section \<open>Following the cursors\<close>

text \<open>
  \<open>follow k fetch cur\<close> is what a client gets that asks for the page after \<open>cur\<close> and goes on
  as long as there is a next cursor, with at most \<open>k\<close> requests; \<open>None\<close> when these did not do.
\<close>

fun follow ::
  "nat \<Rightarrow> (string option \<Rightarrow> error + ('r list \<times> string option)) \<Rightarrow> string option \<Rightarrow> (error + 'r list) option" where
  "follow 0 fetch cur = None"
| "follow (Suc k) fetch cur =
     (case fetch cur of
        Inl err \<Rightarrow> Some (Inl err)
      | Inr (rs, None) \<Rightarrow> Some (Inr rs)
      | Inr (rs, Some c) \<Rightarrow> map_option (map_sum id ((@) rs)) (follow k fetch (Some c)))"

section \<open>Sorted rows\<close>

lemma newest_first_filter: "newest_first key (filter P rows) = filter P (newest_first key rows)"
  by (simp add: newest_first_def rev_filter [symmetric] filter_sort)

lemma set_newest_first [simp]: "set (newest_first key rows) = set rows"
  and length_newest_first [simp]: "length (newest_first key rows) = length rows"
  by (simp_all add: newest_first_def)

definition descending :: "('r \<Rightarrow> row_key) \<Rightarrow> 'r list \<Rightarrow> bool" where
  "descending key rows \<longleftrightarrow> sorted_wrt (\<lambda>x y. key y < key x) rows"

lemma newest_first_descending:
  assumes "distinct (map key rows)"
  shows "descending key (newest_first key rows)"
proof -
  have "distinct (map key (sort_key key rows))"
    using assms by (metis distinct_map set_sort distinct_sort)
  moreover have "sorted (map key (sort_key key rows))" by simp
  ultimately have "sorted_wrt (<) (map key (sort_key key rows))" by (simp add: strict_sorted_iff)
  then show ?thesis
    by (simp add: descending_def newest_first_def sorted_wrt_rev sorted_wrt_map)
qed

lemma rows_after:
  "descending key (xs @ x # ys) \<Longrightarrow> filter (\<lambda>y. key y < key x) (xs @ x # ys) = ys"
  by (induction xs) (auto simp: descending_def filter_empty_conv filter_id_conv sorted_wrt_append)

section \<open>The interface of a keyset listing\<close>

text \<open>
  The law of a listing endpoint: a page is the first \<open>n\<close> of the newest-first rows after the
  cursor, and the next cursor is the key of its last row when the page is full.
\<close>

locale keyset_listing =
  fixes fetch :: "'q \<Rightarrow> int \<Rightarrow> db \<Rightarrow> string option \<Rightarrow> error + ('r list \<times> string option)"
    and rows :: "'q \<Rightarrow> db \<Rightarrow> 'r list"
    and key :: "'r \<Rightarrow> row_key"
  assumes fetch_first: "fetch q n d None = (let page = limit_rows n (newest_first key (rows q d))
      in Inr (page, next_cursor key n page))"
    and fetch_next: "datetime_ok (rk_time c) \<Longrightarrow> fetch q n d (Some (key_cursor c)) =
      (let page = limit_rows n (newest_first key (filter (\<lambda>r. key r < c) (rows q d)))
       in Inr (page, next_cursor key n page))"
    and key_distinct: "db_ok d \<Longrightarrow> distinct (map key (rows q d))"
begin

lemma follow_rest:
  assumes "db_ok d" and "1 \<le> n" and "\<forall>r \<in> set (rows q d). datetime_ok (rk_time (key r))"
    and "newest_first key (rows q d) = seen @ rest"
    and "fetch q n d cur = (let page = limit_rows n rest in Inr (page, next_cursor key n page))"
    and "length rest < k"
  shows "follow k (fetch q n d) cur = Some (Inr rest)"
  using assms(4-6)
proof (induction k arbitrary: seen rest cur)
  case (Suc k)
  let ?page = "limit_rows n rest"
  show ?case
  proof (cases "int (length ?page) = n")
    case True
    then have "?page \<noteq> []" using assms(2) by auto
    then obtain front x where page: "?page = front @ [x]" by (metis rev_exhaust)
    let ?rest = "drop (nat n) rest"
    have rest: "rest = front @ x # ?rest"
      using page append_take_drop_id [of "nat n" rest] by (simp add: limit_rows_def)
    have x: "x \<in> set (rows q d)"
      using Suc.prems(1) rest by (metis UnCI list.set_intros(1) set_append set_newest_first)
    have desc: "descending key ((seen @ front) @ x # ?rest)"
      using newest_first_descending [OF key_distinct [OF assms(1)]] Suc.prems(1) rest by (metis append.assoc)
    have all: "newest_first key (rows q d) = (seen @ front) @ x # ?rest"
      using Suc.prems(1) rest by (metis append.assoc)
    have after: "newest_first key (filter (\<lambda>r. key r < key x) (rows q d)) = ?rest"
      unfolding newest_first_filter all using desc by (rule rows_after)
    have next_page: "fetch q n d (Some (key_cursor (key x))) =
        (let page = limit_rows n ?rest in Inr (page, next_cursor key n page))"
      using fetch_next [of "key x" q n d] assms(3) x by (simp add: after)
    have "length rest = length front + Suc (length ?rest)" using arg_cong [OF rest, of length] by simp
    then have "length ?rest < k" using Suc.prems(3) by linarith
    then have "follow k (fetch q n d) (Some (key_cursor (key x))) = Some (Inr ?rest)"
      using Suc.IH [of "seen @ front @ [x]" ?rest] all next_page by simp
    moreover have "next_cursor key n ?page = Some (key_cursor (key x))"
      using True page by (simp add: next_cursor_def)
    ultimately show ?thesis using Suc.prems(2) page rest by (simp add: Let_def)
  next
    case False
    then have "?page = rest" using assms(2) by (auto simp: limit_rows_def min_def split: if_splits)
    with False Suc.prems(2) show ?thesis by (simp add: next_cursor_def Let_def)
  qed
qed simp

lemma follow_all:
  assumes "db_ok d" and "1 \<le> n" and "\<forall>r \<in> set (rows q d). datetime_ok (rk_time (key r))"
    and "length (rows q d) < k"
  shows "follow k (fetch q n d) None = Some (Inr (newest_first key (rows q d)))"
  using follow_rest [OF assms(1-3), of "[]"] fetch_first assms(4) by simp

end

section \<open>The two listings\<close>

text \<open>A listing of jobs is made by a user with a status filter, one of users with two filters.\<close>

definition fetch_jobs :: "env \<times> user \<times> string option \<Rightarrow> int \<Rightarrow> db \<Rightarrow> string option \<Rightarrow>
   error + (job list \<times> string option)" where
  "fetch_jobs = (\<lambda>(e, u, st) n d cur. fst (run_svc (list_jobs_for_user e u st cur n) d))"

definition matching_jobs :: "user \<Rightarrow> string option \<Rightarrow> db \<Rightarrow> job list" where
  "matching_jobs u st d = filter (\<lambda>j. j_user_id j = u_id u \<and>
     (case st of None \<Rightarrow> True | Some x \<Rightarrow> j_status j = x)) (jobs d)"

definition fetch_users :: "env \<times> string option \<times> string option \<Rightarrow> int \<Rightarrow> db \<Rightarrow> string option \<Rightarrow>
   error + (user list \<times> string option)" where
  "fetch_users = (\<lambda>(e, st, mail) n d cur. fst (run_svc (list_users e st mail cur n) d))"

definition matching_users :: "env \<Rightarrow> string option \<Rightarrow> string option \<Rightarrow> db \<Rightarrow> user list" where
  "matching_users e st mail d = filter (\<lambda>u. (case st of None \<Rightarrow> True | Some x \<Rightarrow> u_status u = x) \<and>
     (case mail of None \<Rightarrow> True | Some m \<Rightarrow> m = [] \<or> ilike e (u_email u) (contains_pattern m))) (users d)"

lemma distinct_row_keys:
  assumes "distinct (map f xs)" and "\<And>x. rk_id (key x) = f x"
  shows "distinct (map key (filter P xs))"
proof -
  have "map f (filter P xs) = map rk_id (map key (filter P xs))" using assms(2) by simp
  moreover have "distinct (map f (filter P xs))" using assms(1) by (rule distinct_map_filter)
  ultimately show ?thesis by (metis distinct_map)
qed

lemma after_no_cursor: "decoded_cursor e None = Inr None"
  by (simp add: decoded_cursor_def)

interpretation job_pages: keyset_listing fetch_jobs "\<lambda>(e, u, st) d. matching_jobs u st d" job_key
proof unfold_locales
  show "fetch_jobs q n d None = (let page = limit_rows n (newest_first job_key
      ((\<lambda>(e, u, st) d. matching_jobs u st d) q d)) in Inr (page, next_cursor job_key n page))" for q n d
    by (cases q) (simp add: fetch_jobs_def list_jobs_for_user_def after_no_cursor job_repo_list_for_user_def
        job_rows_def matching_jobs_def run_svc_def lift_result_def bindS_def query_def ret_def begin_session_def
        Let_def)
  show "fetch_jobs q n d (Some (key_cursor c)) = (let page = limit_rows n (newest_first job_key
      (filter (\<lambda>r. job_key r < c) ((\<lambda>(e, u, st) d. matching_jobs u st d) q d)))
      in Inr (page, next_cursor job_key n page))" if "datetime_ok (rk_time c)" for q n d c
    by (cases q) (simp add: fetch_jobs_def list_jobs_for_user_def decoded_key_cursor [OF that]
        job_repo_list_for_user_def job_rows_def matching_jobs_def run_svc_def lift_result_def bindS_def
        query_def ret_def begin_session_def Let_def after_cursor_less conj_assoc cong: conj_cong)
  show "distinct (map job_key ((\<lambda>(e, u, st) d. matching_jobs u st d) q d))" if "db_ok d" for q d
    unfolding matching_jobs_def
    using jobs_ok_distinct [OF db_ok_jobs [OF that]]
    by (cases q) (auto intro!: distinct_row_keys simp: job_key_def)
qed

interpretation user_pages: keyset_listing fetch_users "\<lambda>(e, st, mail) d. matching_users e st mail d" user_key
proof unfold_locales
  show "fetch_users q n d None = (let page = limit_rows n (newest_first user_key
      ((\<lambda>(e, st, mail) d. matching_users e st mail d) q d)) in Inr (page, next_cursor user_key n page))" for q n d
    by (cases q) (simp add: fetch_users_def list_users_def after_no_cursor user_repo_list_filtered_def
        user_rows_def matching_users_def run_svc_def lift_result_def bindS_def query_def ret_def begin_session_def
        Let_def next_cursor_def)
  show "fetch_users q n d (Some (key_cursor c)) = (let page = limit_rows n (newest_first user_key
      (filter (\<lambda>r. user_key r < c) ((\<lambda>(e, st, mail) d. matching_users e st mail d) q d)))
      in Inr (page, next_cursor user_key n page))" if "datetime_ok (rk_time c)" for q n d c
    by (cases q) (simp add: fetch_users_def list_users_def decoded_key_cursor [OF that]
        user_repo_list_filtered_def user_rows_def matching_users_def run_svc_def lift_result_def bindS_def
        query_def ret_def begin_session_def Let_def after_cursor_less next_cursor_def conj_assoc)
  show "distinct (map user_key ((\<lambda>(e, st, mail) d. matching_users e st mail d) q d))" if "db_ok d" for q d
    unfolding matching_users_def
    using that by (cases q) (auto intro!: distinct_row_keys simp: user_key_def db_ok_def users_ok_def)
qed

text \<open>
  C31. A user who follows the cursors of the job list, with any page size and status filter, gets
  every matching job exactly once, newest first, and is done after at most one request more
  than there are jobs; the same holds of the administrator's list of users.
\<close>

theorem pages_cover:
  assumes "reachable d" and "page_limit_ok n"
    and "\<forall>j \<in> set (jobs d). datetime_ok (j_created_at j)" and "\<forall>u \<in> set (users d). datetime_ok (u_created_at u)"
  shows "follow (length (jobs d) + 1) (\<lambda>cur. fst (run_svc (list_jobs_for_user e u st cur n) d)) None =
      Some (Inr (newest_first job_key (matching_jobs u st d))) \<and>
    follow (length (users d) + 1) (\<lambda>cur. fst (run_svc (list_users e st mail cur n) d)) None =
      Some (Inr (newest_first user_key (matching_users e st mail d)))"
proof
  note ok = reachable_ok [OF assms(1)]
  have n: "1 \<le> n" using assms(2) by (simp add: page_limit_ok_def)
  have "length (matching_jobs u st d) < length (jobs d) + 1"
    by (simp add: matching_jobs_def less_Suc_eq_le)
  then show "follow (length (jobs d) + 1) (\<lambda>cur. fst (run_svc (list_jobs_for_user e u st cur n) d)) None =
      Some (Inr (newest_first job_key (matching_jobs u st d)))"
    using job_pages.follow_all [OF ok n, of "(e, u, st)"] assms(3)
    by (simp add: fetch_jobs_def matching_jobs_def job_key_def del: follow.simps)
  have "length (matching_users e st mail d) < length (users d) + 1"
    by (simp add: matching_users_def less_Suc_eq_le)
  then show "follow (length (users d) + 1) (\<lambda>cur. fst (run_svc (list_users e st mail cur n) d)) None =
      Some (Inr (newest_first user_key (matching_users e st mail d)))"
    using user_pages.follow_all [OF ok n, of "(e, st, mail)"] assms(4)
    by (simp add: fetch_users_def matching_users_def user_key_def del: follow.simps)
qed

theorem pages_cover_witness:
  "follow 3 (\<lambda>cur. fst (run_svc (list_jobs_for_user (demo_env 9) demo_user None cur 1) demo_queued)) None =
    Some (Inr (newest_first job_key (matching_jobs demo_user None demo_queued)))"
proof -
  have h: "page_limit_ok 1" "\<forall>j \<in> set (jobs demo_queued). datetime_ok (j_created_at j)"
    "\<forall>u \<in> set (users demo_queued). datetime_ok (u_created_at u)" "length (jobs demo_queued) + 1 = 3"
    by (simp_all add: page_limit_ok_def demo_queued_def datetime_ok_def)
  show ?thesis
    using pages_cover [OF reachable_demo_queued h(1-3), THEN conjunct1, of "demo_env 9" demo_user None]
    unfolding h(4) .
qed

text \<open>
  A cursor is the position it was made for: decoding the cursor of a row gives its creation
  time and id, so two rows with the same cursor are the same position, and what is not a
  cursor is answered with one of two errors.
\<close>

theorem cursor_roundtrip:
  assumes "datetime_ok t" and "datetime_ok t'"
  shows "decode_cursor e (encode_cursor t i) = Inr (RowKey t i) \<and>
    (encode_cursor t i = encode_cursor t' i' \<longleftrightarrow> t = t' \<and> i = i') \<and>
    (\<forall>c err. decode_cursor e c = Inl err \<longrightarrow> err = InvalidCursorError \<or> err = AttributeError)"
proof (intro conjI)
  show dec: "decode_cursor e (encode_cursor t i) = Inr (RowKey t i)" using assms(1) by (rule decode_encode_cursor)
  have "decode_cursor e (encode_cursor t' i') = Inr (RowKey t' i')" using assms(2) by (rule decode_encode_cursor)
  with dec have "encode_cursor t i = encode_cursor t' i' \<Longrightarrow> RowKey t i = RowKey t' i'" by (metis sum.inject(2))
  then show "encode_cursor t i = encode_cursor t' i' \<longleftrightarrow> t = t' \<and> i = i'" by (metis row_key.inject)
  show "\<forall>c err. decode_cursor e c = Inl err \<longrightarrow> err = InvalidCursorError \<or> err = AttributeError"
    using decode_cursor_errors by blast
qed

theorem cursor_roundtrip_witness:
  "decode_cursor (demo_env 1) (encode_cursor 1700000600000000 16) = Inr (RowKey 1700000600000000 16)"
proof -
  have "datetime_ok 1700000600000000" by (simp add: datetime_ok_def)
  from cursor_roundtrip [OF this this] show ?thesis by blast
qed

end
