(* ===== verification/Migrations.thy ===== *)
theory Migrations
  imports Main
begin

text \<open>
  The schema as data: what \<open>alembic/versions\<close> builds, revision by revision, and what the
  ORM classes of \<open>app/models\<close> declare. An operation of Alembic is a function on schemas that
  may be refused by the database.
\<close>

section \<open>Schemas\<close>

datatype sql_type =
    SqlUuid
  | SqlString "nat option"
  | SqlText
  | SqlInteger
  | SqlBigInteger
  | SqlBoolean
  | SqlTimestamp
  | SqlJsonb

datatype on_delete = Cascade | SetNull

text \<open>\<open>fk_target\<close> is the referenced table; every foreign key references its column \<open>id\<close>.\<close>

record foreign_key =
  fk_target :: string
  fk_on_delete :: on_delete

record column =
  cl_name :: string
  cl_type :: sql_type
  cl_primary_key :: bool
  cl_foreign_key :: "foreign_key option"
  cl_nullable :: bool
  cl_server_default :: "string option"

record table =
  tb_name :: string
  tb_columns :: "column list"
  tb_primary_key :: "string list"
  tb_uniques :: "(string \<times> string list) list"
  tb_indexes :: "(string \<times> string list) list"

type_synonym schema = "table list"

definition find_table :: "string \<Rightarrow> schema \<Rightarrow> table option" where
  "find_table n s = find (\<lambda>t. tb_name t = n) s"

definition column_names :: "table \<Rightarrow> string list" where
  "column_names t = map cl_name (tb_columns t)"

text \<open>Tables, indexes and constraints that have an index share one name space.\<close>

definition relation_names :: "schema \<Rightarrow> string list" where
  "relation_names s = concat (map (\<lambda>t. tb_name t # map fst (tb_uniques t) @ map fst (tb_indexes t)) s)"

definition refers_to :: "string \<Rightarrow> table \<Rightarrow> bool" where
  "refers_to n t \<longleftrightarrow> list_ex (\<lambda>c. case cl_foreign_key c of None \<Rightarrow> False | Some f \<Rightarrow> fk_target f = n) (tb_columns t)"

section \<open>Operations\<close>

type_synonym ddl = "schema \<Rightarrow> schema option"

definition on_table :: "string \<Rightarrow> (table \<Rightarrow> bool) \<Rightarrow> (table \<Rightarrow> table) \<Rightarrow> ddl" where
  "on_table n ok f s =
     (case find_table n s of None \<Rightarrow> None
      | Some t \<Rightarrow> if ok t then Some (map (\<lambda>x. if tb_name x = n then f x else x) s) else None)"

definition target_exists :: "schema \<Rightarrow> column \<Rightarrow> bool" where
  "target_exists s c = (case cl_foreign_key c of None \<Rightarrow> True
     | Some f \<Rightarrow> (case find_table (fk_target f) s of None \<Rightarrow> False
                 | Some t \<Rightarrow> tb_primary_key t = [''id'']))"

text \<open>
  \<open>op.create_table\<close>: the primary key is given by the columns declared so or by a
  \<open>PrimaryKeyConstraint\<close>, whose columns become NOT NULL.
\<close>

definition create_table ::
  "string \<Rightarrow> column list \<Rightarrow> string list \<Rightarrow> (string \<times> string list) list \<Rightarrow> ddl" where
  "create_table n cols pk uniques s =
     (let key = map cl_name (filter cl_primary_key cols) @ pk;
          cols' = map (\<lambda>c. if cl_name c \<in> set key then c\<lparr>cl_primary_key := True, cl_nullable := False\<rparr> else c) cols;
          t = \<lparr>tb_name = n, tb_columns = cols', tb_primary_key = key, tb_uniques = uniques, tb_indexes = []\<rparr> in
      if distinct (relation_names (s @ [t])) \<and> distinct (column_names t) \<and> list_all (target_exists s) cols \<and>
         list_all (\<lambda>(_, cs). set cs \<subseteq> set (column_names t)) uniques \<and> set key \<subseteq> set (column_names t)
      then Some (s @ [t]) else None)"

definition drop_table :: "string \<Rightarrow> ddl" where
  "drop_table n s =
     (if find_table n s = None \<or> list_ex (\<lambda>t. tb_name t \<noteq> n \<and> refers_to n t) s then None
      else Some (filter (\<lambda>t. tb_name t \<noteq> n) s))"

definition create_index :: "string \<Rightarrow> string \<Rightarrow> string list \<Rightarrow> ddl" where
  "create_index i n cs s =
     (if i \<in> set (relation_names s) then None
      else on_table n (\<lambda>t. set cs \<subseteq> set (column_names t))
             (\<lambda>t. t\<lparr>tb_indexes := tb_indexes t @ [(i, cs)]\<rparr>) s)"

definition drop_index :: "string \<Rightarrow> string \<Rightarrow> ddl" where
  "drop_index i n = on_table n (\<lambda>t. i \<in> fst ` set (tb_indexes t))
     (\<lambda>t. t\<lparr>tb_indexes := filter (\<lambda>x. fst x \<noteq> i) (tb_indexes t)\<rparr>)"

definition add_column :: "string \<Rightarrow> column \<Rightarrow> ddl" where
  "add_column n c s =
     (if target_exists s c
      then on_table n (\<lambda>t. cl_name c \<notin> set (column_names t)) (\<lambda>t. t\<lparr>tb_columns := tb_columns t @ [c]\<rparr>) s
      else None)"

text \<open>Dropping a column drops the indexes and constraints of its table that involve it.\<close>

definition drop_column :: "string \<Rightarrow> string \<Rightarrow> ddl" where
  "drop_column n cn s =
     (if cn = ''id'' \<and> list_ex (refers_to n) s then None
      else on_table n (\<lambda>t. cn \<in> set (column_names t))
        (\<lambda>t. t\<lparr>tb_columns := filter (\<lambda>c. cl_name c \<noteq> cn) (tb_columns t),
              tb_primary_key := (if cn \<in> set (tb_primary_key t) then [] else tb_primary_key t),
              tb_uniques := filter (\<lambda>x. cn \<notin> set (snd x)) (tb_uniques t),
              tb_indexes := filter (\<lambda>x. cn \<notin> set (snd x)) (tb_indexes t)\<rparr>) s)"

definition create_unique_constraint :: "string \<Rightarrow> string \<Rightarrow> string list \<Rightarrow> ddl" where
  "create_unique_constraint u n cs s =
     (if u \<in> set (relation_names s) then None
      else on_table n (\<lambda>t. set cs \<subseteq> set (column_names t))
             (\<lambda>t. t\<lparr>tb_uniques := tb_uniques t @ [(u, cs)]\<rparr>) s)"

definition drop_constraint :: "string \<Rightarrow> string \<Rightarrow> ddl" where
  "drop_constraint u n = on_table n (\<lambda>t. u \<in> fst ` set (tb_uniques t))
     (\<lambda>t. t\<lparr>tb_uniques := filter (\<lambda>x. fst x \<noteq> u) (tb_uniques t)\<rparr>)"

text \<open>A revision runs in one transaction: the first refusal ends it.\<close>

fun run_ddl :: "ddl list \<Rightarrow> ddl" where
  "run_ddl [] s = Some s"
| "run_ddl (op # ops) s = (case op s of None \<Rightarrow> None | Some s' \<Rightarrow> run_ddl ops s')"

section \<open>Columns\<close>

definition col :: "string \<Rightarrow> sql_type \<Rightarrow> bool \<Rightarrow> string option \<Rightarrow> column" where
  "col n ty nullable server_default = \<lparr>cl_name = n, cl_type = ty, cl_primary_key = False,
     cl_foreign_key = None, cl_nullable = nullable, cl_server_default = server_default\<rparr>"

definition id_col :: column where
  "id_col = (col ''id'' SqlUuid False None)\<lparr>cl_primary_key := True\<rparr>"

definition ref_col :: "string \<Rightarrow> string \<Rightarrow> on_delete \<Rightarrow> bool \<Rightarrow> column" where
  "ref_col n target action nullable =
     (col n SqlUuid nullable None)\<lparr>cl_foreign_key := Some \<lparr>fk_target = target, fk_on_delete = action\<rparr>\<rparr>"

section \<open>Revisions\<close>

definition upgrade_0001 :: "ddl list" where
  "upgrade_0001 =
     [create_table ''users''
        [id_col,
         col ''email'' (SqlString (Some 255)) False None,
         col ''password_hash'' (SqlString (Some 255)) False None,
         col ''status'' (SqlString (Some 20)) False (Some ''pending''),
         col ''can_host'' SqlBoolean False (Some ''false''),
         col ''can_rent'' SqlBoolean False (Some ''true''),
         col ''created_at'' SqlTimestamp False (Some ''now()''),
         col ''updated_at'' SqlTimestamp False (Some ''now()'')]
        [] [(''uq_users_email'', [''email''])],
      create_index ''ix_users_email'' ''users'' [''email''],
      create_table ''audit_log''
        [id_col,
         ref_col ''user_id'' ''users'' SetNull True,
         col ''event_type'' (SqlString (Some 100)) False None,
         col ''event_data'' SqlJsonb False (Some ''{}''),
         col ''ip_address'' (SqlString (Some 45)) True None,
         col ''user_agent'' (SqlString None) True None,
         col ''created_at'' SqlTimestamp False (Some ''now()'')]
        [] [],
      create_index ''ix_audit_log_user_id'' ''audit_log'' [''user_id''],
      create_index ''ix_audit_log_event_type'' ''audit_log'' [''event_type''],
      create_index ''ix_audit_log_created_at'' ''audit_log'' [''created_at'']]"

definition downgrade_0001 :: "ddl list" where
  "downgrade_0001 =
     [drop_index ''ix_audit_log_created_at'' ''audit_log'',
      drop_index ''ix_audit_log_event_type'' ''audit_log'',
      drop_index ''ix_audit_log_user_id'' ''audit_log'',
      drop_table ''audit_log'',
      drop_index ''ix_users_email'' ''users'',
      drop_table ''users'']"

definition upgrade_0002 :: "ddl list" where
  "upgrade_0002 =
     [add_column ''users'' (col ''is_admin'' SqlBoolean False (Some ''false'')),
      add_column ''users'' (col ''credits_gpu_hours'' SqlInteger False (Some ''0''))]"

definition downgrade_0002 :: "ddl list" where
  "downgrade_0002 = [drop_column ''users'' ''credits_gpu_hours'', drop_column ''users'' ''is_admin'']"

definition upgrade_0003 :: "ddl list" where
  "upgrade_0003 =
     [create_table ''api_keys''
        [id_col,
         ref_col ''user_id'' ''users'' Cascade False,
         col ''name'' (SqlString (Some 100)) False None,
         col ''prefix'' (SqlString (Some 12)) False None,
         col ''hash'' (SqlString (Some 255)) False None,
         col ''created_at'' SqlTimestamp False (Some ''now()''),
         col ''revoked_at'' SqlTimestamp True None]
        [] [(''uq_api_keys_prefix'', [''prefix''])],
      create_index ''ix_api_keys_user_id'' ''api_keys'' [''user_id''],
      create_index ''ix_api_keys_prefix'' ''api_keys'' [''prefix'']]"

definition downgrade_0003 :: "ddl list" where
  "downgrade_0003 =
     [drop_index ''ix_api_keys_prefix'' ''api_keys'',
      drop_index ''ix_api_keys_user_id'' ''api_keys'',
      drop_table ''api_keys'']"

definition upgrade_0004 :: "ddl list" where
  "upgrade_0004 =
     [create_table ''claim_tokens''
        [id_col,
         ref_col ''user_id'' ''users'' Cascade False,
         col ''prefix'' (SqlString (Some 12)) False None,
         col ''token_hash'' (SqlString (Some 255)) False None,
         col ''expires_at'' SqlTimestamp False None,
         col ''consumed_at'' SqlTimestamp True None,
         col ''created_at'' SqlTimestamp False (Some ''now()'')]
        [] [(''uq_claim_tokens_prefix'', [''prefix''])],
      create_index ''ix_claim_tokens_user_id'' ''claim_tokens'' [''user_id''],
      create_table ''nodes''
        [id_col,
         ref_col ''user_id'' ''users'' Cascade False,
         col ''name'' (SqlString (Some 100)) False None,
         col ''gpu_model'' (SqlString (Some 100)) False None,
         col ''gpu_memory_gb'' SqlInteger False None,
         col ''gpu_count'' SqlInteger False None,
         col ''status'' (SqlString (Some 20)) False (Some ''offline''),
         col ''last_seen_at'' SqlTimestamp True None,
         col ''created_at'' SqlTimestamp False (Some ''now()'')]
        [] [],
      create_index ''ix_nodes_user_id'' ''nodes'' [''user_id'']]"

definition downgrade_0004 :: "ddl list" where
  "downgrade_0004 =
     [drop_index ''ix_nodes_user_id'' ''nodes'',
      drop_table ''nodes'',
      drop_index ''ix_claim_tokens_user_id'' ''claim_tokens'',
      drop_table ''claim_tokens'']"

definition upgrade_0005 :: "ddl list" where
  "upgrade_0005 =
     [create_table ''jobs''
        [id_col,
         ref_col ''user_id'' ''users'' Cascade False,
         col ''docker_image'' (SqlString (Some 255)) False None,
         col ''command'' SqlJsonb False None,
         col ''gpu_count'' SqlInteger False None,
         col ''max_duration_seconds'' SqlInteger False None,
         col ''status'' (SqlString (Some 20)) False (Some ''queued''),
         col ''exit_code'' SqlInteger True None,
         col ''error_message'' SqlText True None,
         ref_col ''assigned_node_id'' ''nodes'' SetNull True,
         col ''created_at'' SqlTimestamp False (Some ''now()''),
         col ''started_at'' SqlTimestamp True None,
         col ''completed_at'' SqlTimestamp True None]
        [] [],
      create_index ''ix_jobs_user_id'' ''jobs'' [''user_id''],
      create_index ''ix_jobs_status'' ''jobs'' [''status''],
      create_index ''ix_jobs_assigned_node_id'' ''jobs'' [''assigned_node_id'']]"

definition downgrade_0005 :: "ddl list" where
  "downgrade_0005 =
     [drop_index ''ix_jobs_assigned_node_id'' ''jobs'',
      drop_index ''ix_jobs_status'' ''jobs'',
      drop_index ''ix_jobs_user_id'' ''jobs'',
      drop_table ''jobs'']"

definition upgrade_0006 :: "ddl list" where
  "upgrade_0006 =
     [add_column ''nodes'' (col ''agent_token_hash'' (SqlString (Some 255)) True None),
      add_column ''nodes'' (col ''agent_token_prefix'' (SqlString (Some 12)) True None),
      create_unique_constraint ''uq_nodes_agent_token_prefix'' ''nodes'' [''agent_token_prefix'']]"

definition downgrade_0006 :: "ddl list" where
  "downgrade_0006 =
     [drop_constraint ''uq_nodes_agent_token_prefix'' ''nodes'',
      drop_column ''nodes'' ''agent_token_prefix'',
      drop_column ''nodes'' ''agent_token_hash'']"

definition upgrade_0007 :: "ddl list" where
  "upgrade_0007 =
     [create_table ''node_metrics''
        [ref_col ''node_id'' ''nodes'' Cascade False,
         col ''gpu_index'' SqlInteger False None,
         col ''utilization_pct'' SqlInteger False None,
         col ''memory_used_bytes'' SqlBigInteger False None,
         col ''memory_total_bytes'' SqlBigInteger False None,
         col ''temperature_c'' SqlInteger False None,
         col ''recorded_at'' SqlTimestamp False (Some ''now()'')]
        [''node_id'', ''gpu_index''] []]"

definition downgrade_0007 :: "ddl list" where
  "downgrade_0007 = [drop_table ''node_metrics'']"

definition upgrade_0008 :: "ddl list" where
  "upgrade_0008 =
     [create_table ''job_logs''
        [id_col,
         ref_col ''job_id'' ''jobs'' Cascade False,
         col ''stream'' (SqlString (Some 6)) False None,
         col ''content'' SqlText False None,
         col ''sequence'' SqlInteger False None,
         col ''received_at'' SqlTimestamp False (Some ''now()'')]
        [] [(''uq_job_logs_job_seq'', [''job_id'', ''sequence''])],
      create_index ''ix_job_logs_job_seq'' ''job_logs'' [''job_id'', ''sequence'']]"

definition downgrade_0008 :: "ddl list" where
  "downgrade_0008 = [drop_index ''ix_job_logs_job_seq'' ''job_logs'', drop_table ''job_logs'']"

definition upgrade_0009 :: "ddl list" where
  "upgrade_0009 = [add_column ''jobs'' (col ''cancel_requested_at'' SqlTimestamp True None)]"

definition downgrade_0009 :: "ddl list" where
  "downgrade_0009 = [drop_column ''jobs'' ''cancel_requested_at'']"

definition upgrade_0010 :: "ddl list" where
  "upgrade_0010 =
     [add_column ''jobs'' (ref_col ''preferred_node_id'' ''nodes'' SetNull True),
      create_index ''ix_jobs_preferred_node_id'' ''jobs'' [''preferred_node_id'']]"

definition downgrade_0010 :: "ddl list" where
  "downgrade_0010 =
     [drop_index ''ix_jobs_preferred_node_id'' ''jobs'', drop_column ''jobs'' ''preferred_node_id'']"

record revision =
  rv_id :: string
  rv_down :: "string option"
  rv_upgrade :: "ddl list"
  rv_downgrade :: "ddl list"

definition revisions :: "revision list" where
  "revisions =
     [\<lparr>rv_id = ''0001'', rv_down = None, rv_upgrade = upgrade_0001, rv_downgrade = downgrade_0001\<rparr>,
      \<lparr>rv_id = ''0002'', rv_down = Some ''0001'', rv_upgrade = upgrade_0002, rv_downgrade = downgrade_0002\<rparr>,
      \<lparr>rv_id = ''0003'', rv_down = Some ''0002'', rv_upgrade = upgrade_0003, rv_downgrade = downgrade_0003\<rparr>,
      \<lparr>rv_id = ''0004'', rv_down = Some ''0003'', rv_upgrade = upgrade_0004, rv_downgrade = downgrade_0004\<rparr>,
      \<lparr>rv_id = ''0005'', rv_down = Some ''0004'', rv_upgrade = upgrade_0005, rv_downgrade = downgrade_0005\<rparr>,
      \<lparr>rv_id = ''0006'', rv_down = Some ''0005'', rv_upgrade = upgrade_0006, rv_downgrade = downgrade_0006\<rparr>,
      \<lparr>rv_id = ''0007'', rv_down = Some ''0006'', rv_upgrade = upgrade_0007, rv_downgrade = downgrade_0007\<rparr>,
      \<lparr>rv_id = ''0008'', rv_down = Some ''0007'', rv_upgrade = upgrade_0008, rv_downgrade = downgrade_0008\<rparr>,
      \<lparr>rv_id = ''0009'', rv_down = Some ''0008'', rv_upgrade = upgrade_0009, rv_downgrade = downgrade_0009\<rparr>,
      \<lparr>rv_id = ''0010'', rv_down = Some ''0009'', rv_upgrade = upgrade_0010, rv_downgrade = downgrade_0010\<rparr>]"

text \<open>\<open>alembic upgrade\<close> to the \<open>k\<close>-th revision from an empty database, in down-revision order.\<close>

fun upgrade_all :: "revision list \<Rightarrow> ddl" where
  "upgrade_all [] s = Some s"
| "upgrade_all (r # rs) s = (case run_ddl (rv_upgrade r) s of None \<Rightarrow> None | Some s' \<Rightarrow> upgrade_all rs s')"

definition schema_at :: "nat \<Rightarrow> schema option" where
  "schema_at k = upgrade_all (take k revisions) []"

definition users_table :: table where
  "users_table = \<lparr>tb_name = ''users'', tb_columns =
       [id_col,
        col ''email'' (SqlString (Some 255)) False None,
        col ''password_hash'' (SqlString (Some 255)) False None,
        col ''status'' (SqlString (Some 20)) False (Some ''pending''),
        col ''can_host'' SqlBoolean False (Some ''false''),
        col ''can_rent'' SqlBoolean False (Some ''true''),
        col ''created_at'' SqlTimestamp False (Some ''now()''),
        col ''updated_at'' SqlTimestamp False (Some ''now()''),
        col ''is_admin'' SqlBoolean False (Some ''false''),
        col ''credits_gpu_hours'' SqlInteger False (Some ''0'')],
     tb_primary_key = [''id''], tb_uniques = [(''uq_users_email'', [''email''])],
     tb_indexes = [(''ix_users_email'', [''email''])]\<rparr>"

definition audit_log_table :: table where
  "audit_log_table = \<lparr>tb_name = ''audit_log'', tb_columns =
       [id_col,
        ref_col ''user_id'' ''users'' SetNull True,
        col ''event_type'' (SqlString (Some 100)) False None,
        col ''event_data'' SqlJsonb False (Some ''{}''),
        col ''ip_address'' (SqlString (Some 45)) True None,
        col ''user_agent'' (SqlString None) True None,
        col ''created_at'' SqlTimestamp False (Some ''now()'')],
     tb_primary_key = [''id''], tb_uniques = [],
     tb_indexes = [(''ix_audit_log_user_id'', [''user_id'']), (''ix_audit_log_event_type'', [''event_type'']),
       (''ix_audit_log_created_at'', [''created_at''])]\<rparr>"

definition api_keys_table :: table where
  "api_keys_table = \<lparr>tb_name = ''api_keys'', tb_columns =
       [id_col,
        ref_col ''user_id'' ''users'' Cascade False,
        col ''name'' (SqlString (Some 100)) False None,
        col ''prefix'' (SqlString (Some 12)) False None,
        col ''hash'' (SqlString (Some 255)) False None,
        col ''created_at'' SqlTimestamp False (Some ''now()''),
        col ''revoked_at'' SqlTimestamp True None],
     tb_primary_key = [''id''], tb_uniques = [(''uq_api_keys_prefix'', [''prefix''])],
     tb_indexes = [(''ix_api_keys_user_id'', [''user_id'']), (''ix_api_keys_prefix'', [''prefix''])]\<rparr>"

definition claim_tokens_table :: table where
  "claim_tokens_table = \<lparr>tb_name = ''claim_tokens'', tb_columns =
       [id_col,
        ref_col ''user_id'' ''users'' Cascade False,
        col ''prefix'' (SqlString (Some 12)) False None,
        col ''token_hash'' (SqlString (Some 255)) False None,
        col ''expires_at'' SqlTimestamp False None,
        col ''consumed_at'' SqlTimestamp True None,
        col ''created_at'' SqlTimestamp False (Some ''now()'')],
     tb_primary_key = [''id''], tb_uniques = [(''uq_claim_tokens_prefix'', [''prefix''])],
     tb_indexes = [(''ix_claim_tokens_user_id'', [''user_id''])]\<rparr>"

definition nodes_table :: table where
  "nodes_table = \<lparr>tb_name = ''nodes'', tb_columns =
       [id_col,
        ref_col ''user_id'' ''users'' Cascade False,
        col ''name'' (SqlString (Some 100)) False None,
        col ''gpu_model'' (SqlString (Some 100)) False None,
        col ''gpu_memory_gb'' SqlInteger False None,
        col ''gpu_count'' SqlInteger False None,
        col ''status'' (SqlString (Some 20)) False (Some ''offline''),
        col ''last_seen_at'' SqlTimestamp True None,
        col ''created_at'' SqlTimestamp False (Some ''now()''),
        col ''agent_token_hash'' (SqlString (Some 255)) True None,
        col ''agent_token_prefix'' (SqlString (Some 12)) True None],
     tb_primary_key = [''id''],
     tb_uniques = [(''uq_nodes_agent_token_prefix'', [''agent_token_prefix''])],
     tb_indexes = [(''ix_nodes_user_id'', [''user_id''])]\<rparr>"

definition jobs_table :: table where
  "jobs_table = \<lparr>tb_name = ''jobs'', tb_columns =
       [id_col,
        ref_col ''user_id'' ''users'' Cascade False,
        col ''docker_image'' (SqlString (Some 255)) False None,
        col ''command'' SqlJsonb False None,
        col ''gpu_count'' SqlInteger False None,
        col ''max_duration_seconds'' SqlInteger False None,
        col ''status'' (SqlString (Some 20)) False (Some ''queued''),
        col ''exit_code'' SqlInteger True None,
        col ''error_message'' SqlText True None,
        ref_col ''assigned_node_id'' ''nodes'' SetNull True,
        col ''created_at'' SqlTimestamp False (Some ''now()''),
        col ''started_at'' SqlTimestamp True None,
        col ''completed_at'' SqlTimestamp True None,
        col ''cancel_requested_at'' SqlTimestamp True None,
        ref_col ''preferred_node_id'' ''nodes'' SetNull True],
     tb_primary_key = [''id''], tb_uniques = [],
     tb_indexes = [(''ix_jobs_user_id'', [''user_id'']), (''ix_jobs_status'', [''status'']),
       (''ix_jobs_assigned_node_id'', [''assigned_node_id'']),
       (''ix_jobs_preferred_node_id'', [''preferred_node_id''])]\<rparr>"

definition node_metrics_table :: table where
  "node_metrics_table = \<lparr>tb_name = ''node_metrics'', tb_columns =
       [(ref_col ''node_id'' ''nodes'' Cascade False)\<lparr>cl_primary_key := True\<rparr>,
        (col ''gpu_index'' SqlInteger False None)\<lparr>cl_primary_key := True\<rparr>,
        col ''utilization_pct'' SqlInteger False None,
        col ''memory_used_bytes'' SqlBigInteger False None,
        col ''memory_total_bytes'' SqlBigInteger False None,
        col ''temperature_c'' SqlInteger False None,
        col ''recorded_at'' SqlTimestamp False (Some ''now()'')],
     tb_primary_key = [''node_id'', ''gpu_index''], tb_uniques = [], tb_indexes = []\<rparr>"

definition job_logs_table :: table where
  "job_logs_table = \<lparr>tb_name = ''job_logs'', tb_columns =
       [id_col,
        ref_col ''job_id'' ''jobs'' Cascade False,
        col ''stream'' (SqlString (Some 6)) False None,
        col ''content'' SqlText False None,
        col ''sequence'' SqlInteger False None,
        col ''received_at'' SqlTimestamp False (Some ''now()'')],
     tb_primary_key = [''id''], tb_uniques = [(''uq_job_logs_job_seq'', [''job_id'', ''sequence''])],
     tb_indexes = [(''ix_job_logs_job_seq'', [''job_id'', ''sequence''])]\<rparr>"

text \<open>The schema the program runs on.\<close>

definition head_schema :: schema where
  "head_schema = [users_table, audit_log_table, api_keys_table, claim_tokens_table, nodes_table,
     jobs_table, node_metrics_table, job_logs_table]"

text \<open>The chain of revisions is linear: each builds on the one before it.\<close>

fun linear_chain :: "string option \<Rightarrow> revision list \<Rightarrow> bool" where
  "linear_chain prev [] \<longleftrightarrow> True"
| "linear_chain prev (r # rs) \<longleftrightarrow> rv_down r = prev \<and> linear_chain (Some (rv_id r)) rs"

lemmas table_defs = users_table_def audit_log_table_def api_keys_table_def claim_tokens_table_def
  nodes_table_def jobs_table_def node_metrics_table_def job_logs_table_def id_col_def ref_col_def col_def

lemmas upgrade_defs = upgrade_0001_def upgrade_0002_def upgrade_0003_def upgrade_0004_def upgrade_0005_def
  upgrade_0006_def upgrade_0007_def upgrade_0008_def upgrade_0009_def upgrade_0010_def

lemmas ddl_defs = create_table_def create_index_def add_column_def create_unique_constraint_def
  on_table_def find_table_def relation_names_def column_names_def target_exists_def

text \<open>The versions of tables that later revisions change.\<close>

definition users_v1 :: table where
  "users_v1 = users_table\<lparr>tb_columns := take 8 (tb_columns users_table)\<rparr>"

definition nodes_v1 :: table where
  "nodes_v1 = nodes_table\<lparr>tb_columns := take 9 (tb_columns nodes_table), tb_uniques := []\<rparr>"

definition jobs_v1 :: table where
  "jobs_v1 = jobs_table\<lparr>tb_columns := take 13 (tb_columns jobs_table),
     tb_indexes := take 3 (tb_indexes jobs_table)\<rparr>"

definition jobs_v2 :: table where
  "jobs_v2 = jobs_table\<lparr>tb_columns := take 14 (tb_columns jobs_table),
     tb_indexes := take 3 (tb_indexes jobs_table)\<rparr>"

lemmas version_defs = users_v1_def nodes_v1_def jobs_v1_def jobs_v2_def

lemma run_0001: "run_ddl upgrade_0001 [] = Some [users_v1, audit_log_table]"
  by (simp add: upgrade_0001_def ddl_defs Let_def version_defs table_defs)

lemma run_0002: "run_ddl upgrade_0002 [users_v1, audit_log_table] = Some [users_table, audit_log_table]"
  by (simp add: upgrade_0002_def ddl_defs Let_def version_defs table_defs)

lemma run_0003: "run_ddl upgrade_0003 [users_table, audit_log_table] =
    Some [users_table, audit_log_table, api_keys_table]"
  by (simp add: upgrade_0003_def ddl_defs Let_def table_defs)

lemma run_0004: "run_ddl upgrade_0004 [users_table, audit_log_table, api_keys_table] =
    Some [users_table, audit_log_table, api_keys_table, claim_tokens_table, nodes_v1]"
  by (simp add: upgrade_0004_def ddl_defs Let_def version_defs table_defs)

lemma run_0005: "run_ddl upgrade_0005 [users_table, audit_log_table, api_keys_table, claim_tokens_table, nodes_v1] =
    Some [users_table, audit_log_table, api_keys_table, claim_tokens_table, nodes_v1, jobs_v1]"
  by (simp add: upgrade_0005_def ddl_defs Let_def version_defs table_defs)

lemma run_0006: "run_ddl upgrade_0006
      [users_table, audit_log_table, api_keys_table, claim_tokens_table, nodes_v1, jobs_v1] =
    Some [users_table, audit_log_table, api_keys_table, claim_tokens_table, nodes_table, jobs_v1]"
  by (simp add: upgrade_0006_def ddl_defs Let_def version_defs table_defs)

lemma run_0007: "run_ddl upgrade_0007
      [users_table, audit_log_table, api_keys_table, claim_tokens_table, nodes_table, jobs_v1] =
    Some [users_table, audit_log_table, api_keys_table, claim_tokens_table, nodes_table, jobs_v1,
      node_metrics_table]"
  by (simp add: upgrade_0007_def ddl_defs Let_def version_defs table_defs)

lemma run_0008: "run_ddl upgrade_0008
      [users_table, audit_log_table, api_keys_table, claim_tokens_table, nodes_table, jobs_v1,
       node_metrics_table] =
    Some [users_table, audit_log_table, api_keys_table, claim_tokens_table, nodes_table, jobs_v1,
      node_metrics_table, job_logs_table]"
  by (simp add: upgrade_0008_def ddl_defs Let_def version_defs table_defs)

lemma run_0009: "run_ddl upgrade_0009
      [users_table, audit_log_table, api_keys_table, claim_tokens_table, nodes_table, jobs_v1,
       node_metrics_table, job_logs_table] =
    Some [users_table, audit_log_table, api_keys_table, claim_tokens_table, nodes_table, jobs_v2,
      node_metrics_table, job_logs_table]"
  by (simp add: upgrade_0009_def ddl_defs Let_def version_defs table_defs)

lemma run_0010: "run_ddl upgrade_0010
      [users_table, audit_log_table, api_keys_table, claim_tokens_table, nodes_table, jobs_v2,
       node_metrics_table, job_logs_table] = Some head_schema"
  by (simp add: upgrade_0010_def ddl_defs Let_def version_defs head_schema_def table_defs)

lemma schema_at_head: "schema_at 10 = Some head_schema"
  by (simp add: schema_at_def revisions_def run_0001 run_0002 run_0003 run_0004 run_0005 run_0006
      run_0007 run_0008 run_0009 run_0010)

section \<open>What the ORM declares\<close>

text \<open>
  The metadata of \<open>app/models\<close>: client-side defaults are not part of the schema, constraints
  have no names, and \<open>index=True\<close> and \<open>unique=True\<close> give one-column indexes and constraints.
\<close>

definition orm_table :: "string \<Rightarrow> column list \<Rightarrow> string list list \<Rightarrow> string list list \<Rightarrow> table" where
  "orm_table n cols uniques indexes = \<lparr>tb_name = n, tb_columns = cols,
     tb_primary_key = map cl_name (filter cl_primary_key cols),
     tb_uniques = map (Pair []) uniques, tb_indexes = map (Pair []) indexes\<rparr>"

definition orm_user :: table where
  "orm_user = orm_table ''users''
     [id_col,
      col ''email'' (SqlString (Some 255)) False None,
      col ''password_hash'' (SqlString (Some 255)) False None,
      col ''status'' (SqlString (Some 20)) False None,
      col ''can_host'' SqlBoolean False None,
      col ''can_rent'' SqlBoolean False None,
      col ''is_admin'' SqlBoolean False None,
      col ''credits_gpu_hours'' SqlInteger False None,
      col ''created_at'' SqlTimestamp False (Some ''now()''),
      col ''updated_at'' SqlTimestamp False (Some ''now()'')]
     [[''email'']] [[''email'']]"

definition orm_audit_log :: table where
  "orm_audit_log = orm_table ''audit_log''
     [id_col,
      ref_col ''user_id'' ''users'' SetNull True,
      col ''event_type'' (SqlString (Some 100)) False None,
      col ''event_data'' SqlJsonb False None,
      col ''ip_address'' (SqlString (Some 45)) True None,
      col ''user_agent'' (SqlString None) True None,
      col ''created_at'' SqlTimestamp False (Some ''now()'')]
     [] [[''user_id''], [''event_type''], [''created_at'']]"

definition orm_api_key :: table where
  "orm_api_key = orm_table ''api_keys''
     [id_col,
      ref_col ''user_id'' ''users'' Cascade False,
      col ''name'' (SqlString (Some 100)) False None,
      col ''prefix'' (SqlString (Some 12)) False None,
      col ''hash'' (SqlString (Some 255)) False None,
      col ''created_at'' SqlTimestamp False (Some ''now()''),
      col ''revoked_at'' SqlTimestamp True None]
     [[''prefix'']] [[''user_id''], [''prefix'']]"

definition orm_claim_token :: table where
  "orm_claim_token = orm_table ''claim_tokens''
     [id_col,
      ref_col ''user_id'' ''users'' Cascade False,
      col ''prefix'' (SqlString (Some 12)) False None,
      col ''token_hash'' (SqlString (Some 255)) False None,
      col ''expires_at'' SqlTimestamp False None,
      col ''consumed_at'' SqlTimestamp True None,
      col ''created_at'' SqlTimestamp False (Some ''now()'')]
     [[''prefix'']] [[''user_id'']]"

definition orm_node :: table where
  "orm_node = orm_table ''nodes''
     [id_col,
      ref_col ''user_id'' ''users'' Cascade False,
      col ''name'' (SqlString (Some 100)) False None,
      col ''gpu_model'' (SqlString (Some 100)) False None,
      col ''gpu_memory_gb'' SqlInteger False None,
      col ''gpu_count'' SqlInteger False None,
      col ''status'' (SqlString (Some 20)) False None,
      col ''last_seen_at'' SqlTimestamp True None,
      col ''agent_token_hash'' (SqlString (Some 255)) True None,
      col ''agent_token_prefix'' (SqlString (Some 12)) True None,
      col ''created_at'' SqlTimestamp False (Some ''now()'')]
     [[''agent_token_prefix'']] [[''user_id'']]"

definition orm_job :: table where
  "orm_job = orm_table ''jobs''
     [id_col,
      ref_col ''user_id'' ''users'' Cascade False,
      col ''docker_image'' (SqlString (Some 255)) False None,
      col ''command'' SqlJsonb False None,
      col ''gpu_count'' SqlInteger False None,
      col ''max_duration_seconds'' SqlInteger False None,
      col ''status'' (SqlString (Some 20)) False None,
      col ''exit_code'' SqlInteger True None,
      col ''error_message'' SqlText True None,
      ref_col ''assigned_node_id'' ''nodes'' SetNull True,
      ref_col ''preferred_node_id'' ''nodes'' SetNull True,
      col ''created_at'' SqlTimestamp False (Some ''now()''),
      col ''started_at'' SqlTimestamp True None,
      col ''completed_at'' SqlTimestamp True None,
      col ''cancel_requested_at'' SqlTimestamp True None]
     [] [[''user_id''], [''status''], [''assigned_node_id''], [''preferred_node_id'']]"

definition orm_node_metric :: table where
  "orm_node_metric = orm_table ''node_metrics''
     [(ref_col ''node_id'' ''nodes'' Cascade False)\<lparr>cl_primary_key := True\<rparr>,
      (col ''gpu_index'' SqlInteger False None)\<lparr>cl_primary_key := True\<rparr>,
      col ''utilization_pct'' SqlInteger False None,
      col ''memory_used_bytes'' SqlBigInteger False None,
      col ''memory_total_bytes'' SqlBigInteger False None,
      col ''temperature_c'' SqlInteger False None,
      col ''recorded_at'' SqlTimestamp False (Some ''now()'')]
     [] []"

definition orm_job_log :: table where
  "orm_job_log = orm_table ''job_logs''
     [id_col,
      ref_col ''job_id'' ''jobs'' Cascade False,
      col ''stream'' (SqlString (Some 6)) False None,
      col ''content'' SqlText False None,
      col ''sequence'' SqlInteger False None,
      col ''received_at'' SqlTimestamp False (Some ''now()'')]
     [] []"

definition orm_metadata :: schema where
  "orm_metadata = [orm_user, orm_audit_log, orm_api_key, orm_claim_token, orm_node, orm_job,
     orm_node_metric, orm_job_log]"

text \<open>
  Two declarations of a table agree when they have the same columns, whatever their order and
  their server-side defaults.
\<close>

definition without_default :: "column \<Rightarrow> column" where
  "without_default c = c\<lparr>cl_server_default := None\<rparr>"

definition covers :: "'a list \<Rightarrow> 'a list \<Rightarrow> bool" where
  "covers xs ys \<longleftrightarrow> list_all (\<lambda>y. y \<in> set xs) ys"

definition same_columns :: "table \<Rightarrow> table \<Rightarrow> bool" where
  "same_columns t t' \<longleftrightarrow> length (tb_columns t) = length (tb_columns t') \<and>
     covers (map without_default (tb_columns t)) (map without_default (tb_columns t')) \<and>
     tb_primary_key t = tb_primary_key t'"

definition same_constraints :: "table \<Rightarrow> table \<Rightarrow> bool" where
  "same_constraints t t' \<longleftrightarrow>
     covers (map snd (tb_uniques t)) (map snd (tb_uniques t')) \<and>
     covers (map snd (tb_uniques t')) (map snd (tb_uniques t)) \<and>
     covers (map snd (tb_indexes t)) (map snd (tb_indexes t')) \<and>
     covers (map snd (tb_indexes t')) (map snd (tb_indexes t))"

end
