(* ===== verification/SchemaTheorems.thy ===== *)
theory SchemaTheorems
  imports Migrations Scenario
begin

text \<open>
  What the migrations guarantee: each revision's downgrade undoes its upgrade, the head schema
  declares what the ORM declares, and the rows of every reachable database meet the
  constraints of the head schema.
\<close>

section \<open>Operations and their inverses\<close>

definition wf_table :: "table \<Rightarrow> bool" where
  "wf_table t \<longleftrightarrow> set (tb_primary_key t) \<subseteq> set (column_names t) \<and>
     (\<forall>x \<in> set (tb_uniques t). set (snd x) \<subseteq> set (column_names t)) \<and>
     (\<forall>x \<in> set (tb_indexes t). set (snd x) \<subseteq> set (column_names t))"

definition targets :: "table \<Rightarrow> string set" where
  "targets t = {fk_target f | f c. c \<in> set (tb_columns t) \<and> cl_foreign_key c = Some f}"

definition wf_schema :: "schema \<Rightarrow> bool" where
  "wf_schema s \<longleftrightarrow> distinct (map tb_name s) \<and> (\<forall>t \<in> set s. wf_table t \<and> targets t \<subseteq> tb_name ` set s)"

definition undoes :: "ddl \<Rightarrow> ddl \<Rightarrow> bool" where
  "undoes op op' \<longleftrightarrow> (\<forall>s s'. wf_schema s \<longrightarrow> op s = Some s' \<longrightarrow> wf_schema s' \<and> op' s' = Some s)"

lemma refers_to_targets: "refers_to n t \<longleftrightarrow> n \<in> targets t"
  by (auto simp: refers_to_def targets_def list_ex_iff split: option.splits)

lemma find_table_Some: "find_table n s = Some t \<Longrightarrow> t \<in> set s \<and> tb_name t = n"
  by (auto simp: find_table_def find_Some_iff)

lemma target_in: "target_exists s c \<Longrightarrow> cl_foreign_key c = Some f \<Longrightarrow> fk_target f \<in> tb_name ` set s"
  by (auto simp: target_exists_def split: option.splits dest!: find_table_Some intro: rev_image_eqI)

lemma find_table_distinct: "distinct (map tb_name s) \<Longrightarrow> t \<in> set s \<Longrightarrow> find_table (tb_name t) s = Some t"
  by (induction s) (auto simp: find_table_def)

lemma wf_same_name: "wf_schema s \<Longrightarrow> x \<in> set s \<Longrightarrow> t \<in> set s \<Longrightarrow> tb_name x = tb_name t \<Longrightarrow> x = t"
  by (auto simp: wf_schema_def distinct_map dest: inj_onD)

lemma find_table_None: "find_table n s = None \<longleftrightarrow> n \<notin> tb_name ` set s"
  by (auto simp: find_table_def find_None_iff)

lemma on_table_cases:
  assumes "wf_schema s" and "on_table n ok f s = Some s'"
  obtains t where "t \<in> set s" "tb_name t = n" "ok t" "s' = map (\<lambda>x. if x = t then f t else x) s"
proof -
  obtain t where t: "find_table n s = Some t" "ok t" "s' = map (\<lambda>x. if tb_name x = n then f x else x) s"
    using assms(2) by (auto simp: on_table_def split: option.splits if_splits)
  have "x = t \<longleftrightarrow> tb_name x = n" if "x \<in> set s" for x
  proof
    assume "tb_name x = n"
    then show "x = t" using wf_same_name [OF assms(1) that, of t] find_table_Some [OF t(1)] by simp
  qed (use find_table_Some [OF t(1)] in simp)
  then have "s' = map (\<lambda>x. if x = t then f t else x) s" unfolding t(3) by (intro map_cong) auto
  with t find_table_Some [OF t(1)] that show thesis by blast
qed

lemma wf_replace:
  assumes "wf_schema s" and "t \<in> set s" and "tb_name u = tb_name t" and "wf_table u"
    and "targets u \<subseteq> tb_name ` set s"
  shows "wf_schema (map (\<lambda>x. if x = t then u else x) s)"
proof -
  have names: "map tb_name (map (\<lambda>x. if x = t then u else x) s) = map tb_name s"
    unfolding map_map by (rule map_cong) (use assms(3) in auto)
  then have "tb_name ` set (map (\<lambda>x. if x = t then u else x) s) = tb_name ` set s"
    by (metis list.set_map)
  then show ?thesis using assms unfolding wf_schema_def names by (auto split: if_splits)
qed

text \<open>Changing one table and changing it back.\<close>

lemma on_table_undo:
  assumes "wf_schema s" and "on_table n ok f s = Some s'"
    and "\<And>t. t \<in> set s \<Longrightarrow> ok t \<Longrightarrow> wf_table t \<Longrightarrow> targets t \<subseteq> tb_name ` set s \<Longrightarrow>
      tb_name (f t) = tb_name t \<and> wf_table (f t) \<and> targets (f t) \<subseteq> tb_name ` set s \<and> ok' (f t) \<and> g (f t) = t"
  shows "wf_schema s' \<and> on_table n ok' g s' = Some s"
proof -
  obtain t where t: "t \<in> set s" "tb_name t = n" "ok t" "s' = map (\<lambda>x. if x = t then f t else x) s"
    using assms(1,2) by (rule on_table_cases)
  have ft: "tb_name (f t) = n \<and> wf_table (f t) \<and> targets (f t) \<subseteq> tb_name ` set s \<and> ok' (f t) \<and> g (f t) = t"
    using assms(1,3) t by (auto simp: wf_schema_def)
  have wf: "wf_schema s'" unfolding t(4) using assms(1) t ft by (intro wf_replace) auto
  have "f t \<in> set s'" using t by auto
  then have "find_table n s' = Some (f t)"
    using find_table_distinct [of s' "f t"] wf ft by (simp add: wf_schema_def)
  moreover have "(if tb_name (if x = t then f t else x) = n then g (if x = t then f t else x)
      else (if x = t then f t else x)) = x" if "x \<in> set s" for x
  proof (cases "x = t")
    case False
    then have "tb_name x \<noteq> n" using wf_same_name [OF assms(1) that t(1)] t(2) by auto
    with False show ?thesis by simp
  qed (simp add: ft)
  then have "map (\<lambda>x. if tb_name x = n then g x else x) s' = s" by (simp add: t(4) map_idI)
  ultimately show ?thesis using wf ft by (simp add: on_table_def)
qed

lemma filter_new: "x \<notin> fst ` set xs \<Longrightarrow> filter (\<lambda>y. fst y \<noteq> x) xs = xs"
  by (induction xs) auto

lemma index_names: "t \<in> set s \<Longrightarrow> i \<notin> set (relation_names s) \<Longrightarrow>
    i \<notin> fst ` set (tb_indexes t) \<and> i \<notin> fst ` set (tb_uniques t)"
  by (force simp: relation_names_def)

lemma undoes_create_index: "undoes (create_index i n cs) (drop_index i n)"
  unfolding undoes_def drop_index_def
proof (intro allI impI)
  fix s s' assume wf: "wf_schema s" and op: "create_index i n cs s = Some s'"
  then have new: "i \<notin> set (relation_names s)" by (auto simp: create_index_def split: if_splits)
  show "wf_schema s' \<and> on_table n (\<lambda>t. i \<in> fst ` set (tb_indexes t))
      (\<lambda>t. t\<lparr>tb_indexes := filter (\<lambda>x. fst x \<noteq> i) (tb_indexes t)\<rparr>) s' = Some s"
    by (rule on_table_undo [OF wf, of n "\<lambda>t. set cs \<subseteq> set (column_names t)"
          "\<lambda>t. t\<lparr>tb_indexes := tb_indexes t @ [(i, cs)]\<rparr>"])
      (use op new index_names in \<open>auto simp: create_index_def wf_table_def column_names_def targets_def
         filter_new split: if_splits\<close>)
qed

lemma undoes_unique: "undoes (create_unique_constraint u n cs) (drop_constraint u n)"
  unfolding undoes_def drop_constraint_def
proof (intro allI impI)
  fix s s' assume wf: "wf_schema s" and op: "create_unique_constraint u n cs s = Some s'"
  then have new: "u \<notin> set (relation_names s)" by (auto simp: create_unique_constraint_def split: if_splits)
  show "wf_schema s' \<and> on_table n (\<lambda>t. u \<in> fst ` set (tb_uniques t))
      (\<lambda>t. t\<lparr>tb_uniques := filter (\<lambda>x. fst x \<noteq> u) (tb_uniques t)\<rparr>) s' = Some s"
    by (rule on_table_undo [OF wf, of n "\<lambda>t. set cs \<subseteq> set (column_names t)"
          "\<lambda>t. t\<lparr>tb_uniques := tb_uniques t @ [(u, cs)]\<rparr>"])
      (use op new index_names in \<open>auto simp: create_unique_constraint_def wf_table_def column_names_def
         targets_def filter_new split: if_splits\<close>)
qed

lemma drop_added_column:
  assumes "wf_table t" and "cn \<notin> set (column_names t)" and "cl_name c = cn"
    and "u = t\<lparr>tb_columns := tb_columns t @ [c]\<rparr>"
  shows "u\<lparr>tb_columns := filter (\<lambda>c. cl_name c \<noteq> cn) (tb_columns u),
      tb_primary_key := (if cn \<in> set (tb_primary_key u) then [] else tb_primary_key u),
      tb_uniques := filter (\<lambda>x. cn \<notin> set (snd x)) (tb_uniques u),
      tb_indexes := filter (\<lambda>x. cn \<notin> set (snd x)) (tb_indexes u)\<rparr> = t"
proof -
  have "filter (\<lambda>c. cl_name c \<noteq> cn) (tb_columns t @ [c]) = tb_columns t"
    using assms(2,3) by (auto simp: filter_id_conv column_names_def image_iff)
  moreover have "filter (\<lambda>x. cn \<notin> set (snd x)) (tb_uniques t) = tb_uniques t"
    "filter (\<lambda>x. cn \<notin> set (snd x)) (tb_indexes t) = tb_indexes t" "cn \<notin> set (tb_primary_key t)"
    using assms(1,2) by (auto simp: wf_table_def filter_id_conv)
  ultimately show ?thesis unfolding assms(4) by simp
qed

lemma undoes_add_column:
  assumes "cl_name c = cn" and "cn \<noteq> ''id''"
  shows "undoes (add_column n c) (drop_column n cn)"
  unfolding undoes_def
proof (intro allI impI)
  fix s s' assume wf: "wf_schema s" and op: "add_column n c s = Some s'"
  then have target: "target_exists s c" by (auto simp: add_column_def split: if_splits)
  let ?g = "\<lambda>t. t\<lparr>tb_columns := filter (\<lambda>c. cl_name c \<noteq> cn) (tb_columns t),
      tb_primary_key := (if cn \<in> set (tb_primary_key t) then [] else tb_primary_key t),
      tb_uniques := filter (\<lambda>x. cn \<notin> set (snd x)) (tb_uniques t),
      tb_indexes := filter (\<lambda>x. cn \<notin> set (snd x)) (tb_indexes t)\<rparr>"
  have "wf_schema s' \<and> on_table n (\<lambda>t. cn \<in> set (column_names t)) ?g s' = Some s"
  proof (rule on_table_undo [OF wf])
    show "on_table n (\<lambda>t. cn \<notin> set (column_names t)) (\<lambda>t. t\<lparr>tb_columns := tb_columns t @ [c]\<rparr>) s = Some s'"
      using op assms(1) by (auto simp: add_column_def split: if_splits)
  next
    fix t assume t: "cn \<notin> set (column_names t)" "wf_table t" "targets t \<subseteq> tb_name ` set s"
    let ?u = "t\<lparr>tb_columns := tb_columns t @ [c]\<rparr>"
    have "targets ?u \<subseteq> tb_name ` set s" using t(3) target_in [OF target] by (auto simp: targets_def)
    moreover have "wf_table ?u" using t(2) by (auto simp: wf_table_def column_names_def)
    moreover have "cn \<in> set (column_names ?u)" using assms(1) by (simp add: column_names_def)
    moreover have "?g ?u = t" by (rule drop_added_column [OF t(2,1) assms(1) refl])
    ultimately show "tb_name ?u = tb_name t \<and> wf_table ?u \<and> targets ?u \<subseteq> tb_name ` set s \<and>
        cn \<in> set (column_names ?u) \<and> ?g ?u = t" by simp
  qed
  then show "wf_schema s' \<and> drop_column n cn s' = Some s" using assms(2) by (simp add: drop_column_def)
qed

lemma undoes_create_table: "undoes (create_table n cols pk uniques) (drop_table n)"
  unfolding undoes_def
proof (intro allI impI)
  fix s s' assume wf: "wf_schema s" and op: "create_table n cols pk uniques s = Some s'"
  let ?key = "map cl_name (filter cl_primary_key cols) @ pk"
  define t where "t = \<lparr>tb_name = n,
    tb_columns = map (\<lambda>c. if cl_name c \<in> set ?key then c\<lparr>cl_primary_key := True, cl_nullable := False\<rparr> else c) cols,
    tb_primary_key = ?key, tb_uniques = uniques, tb_indexes = []\<rparr>"
  have s': "s' = s @ [t]" and new: "distinct (relation_names (s @ [t]))" and tg: "list_all (target_exists s) cols"
    and cs: "list_all (\<lambda>(_, cs). set cs \<subseteq> set (column_names t)) uniques" and key: "set ?key \<subseteq> set (column_names t)"
    using op by (auto simp: create_table_def t_def Let_def split: if_splits)
  have n: "n \<notin> tb_name ` set s" using new by (auto simp: relation_names_def t_def)
  have "cl_foreign_key c' = Some f \<Longrightarrow> c' \<in> set (tb_columns t) \<Longrightarrow> \<exists>c \<in> set cols. cl_foreign_key c = Some f" for c' f
    by (auto simp: t_def split: if_splits)
  then have "targets t \<subseteq> tb_name ` set s"
    using tg target_in unfolding targets_def list_all_iff by blast
  moreover have "tb_primary_key t = ?key" "tb_uniques t = uniques" "tb_indexes t = []" by (simp_all add: t_def)
  then have "wf_table t" using cs key unfolding wf_table_def by (auto simp: list_all_iff case_prod_beta)
  ultimately have wf': "wf_schema s'" using wf n by (auto simp: s' wf_schema_def t_def)
  have "\<not> list_ex (\<lambda>x. tb_name x \<noteq> n \<and> refers_to n x) s'"
    using wf n by (auto simp: s' list_ex_iff refers_to_targets wf_schema_def t_def)
  moreover have "filter (\<lambda>x. tb_name x \<noteq> n) s' = s"
    using n by (auto simp: s' t_def filter_id_conv)
  moreover have "find_table n s' \<noteq> None" by (simp add: find_table_None s' t_def)
  ultimately show "wf_schema s' \<and> drop_table n s' = Some s" using wf' by (simp add: drop_table_def)
qed

lemmas undoes_ops = undoes_create_index undoes_unique undoes_add_column undoes_create_table

section \<open>Revisions and their downgrades\<close>

lemma run_ddl_append: "run_ddl (xs @ ys) s = Option.bind (run_ddl xs s) (run_ddl ys)"
  by (induction xs arbitrary: s) (auto split: option.splits)

lemma run_undoes:
  assumes "list_all2 undoes ops ops'" and "wf_schema s" and "run_ddl ops s = Some s'"
  shows "wf_schema s' \<and> run_ddl (rev ops') s' = Some s"
  using assms
proof (induction ops ops' arbitrary: s rule: list_all2_induct)
  case (Cons op ops op' ops')
  obtain s1 where s1: "op s = Some s1" "run_ddl ops s1 = Some s'"
    using Cons.prems(2) by (auto split: option.splits)
  with Cons.hyps(1) Cons.prems(1) have "wf_schema s1" "op' s1 = Some s" by (auto simp: undoes_def)
  with Cons.IH [OF _ s1(2)] show ?case by (simp add: run_ddl_append)
qed simp

lemma cl_name_simps [simp]:
  "cl_name (col n ty b d) = n" "cl_name (ref_col n t a b) = n"
  by (simp_all add: col_def ref_col_def)

lemma revisions_undo: "r \<in> set revisions \<Longrightarrow> list_all2 undoes (rv_upgrade r) (rev (rv_downgrade r))"
  by (auto simp: revisions_def upgrade_defs downgrade_0001_def downgrade_0002_def downgrade_0003_def
      downgrade_0004_def downgrade_0005_def downgrade_0006_def downgrade_0007_def downgrade_0008_def
      downgrade_0009_def downgrade_0010_def intro!: undoes_ops)

text \<open>
  C37. Every revision can be taken back: on any schema on which its upgrade succeeds, the
  downgrade succeeds on the result and gives that schema again.
\<close>

theorem migrations_reversible:
  assumes "r \<in> set revisions" and "wf_schema s" and "run_ddl (rv_upgrade r) s = Some s'"
  shows "run_ddl (rv_downgrade r) s' = Some s"
  using run_undoes [OF revisions_undo [OF assms(1)] assms(2,3)] by simp

theorem migrations_reversible_witness:
  "\<exists>s. run_ddl upgrade_0001 [] = Some s \<and> s \<noteq> [] \<and> run_ddl downgrade_0001 s = Some []"
proof -
  have first: "hd revisions \<in> set revisions" "rv_upgrade (hd revisions) = upgrade_0001"
    "rv_downgrade (hd revisions) = downgrade_0001" by (simp_all add: revisions_def)
  obtain s where s: "run_ddl upgrade_0001 [] = Some s" "s \<noteq> []"
    by (simp add: upgrade_0001_def ddl_defs table_defs Let_def)
  have "wf_schema []" by (simp add: wf_schema_def)
  from migrations_reversible [OF first(1) this, of s] s show ?thesis by (auto simp: first)
qed


section \<open>The rows meet the constraints\<close>

datatype sql_value =
    SNull
  | SUuid uuid
  | SStr string
  | SInt int
  | SBool bool
  | STime datetime
  | SJson json

type_synonym sql_row = "(string \<times> sql_value) list"

definition nullable :: "('a \<Rightarrow> sql_value) \<Rightarrow> 'a option \<Rightarrow> sql_value" where
  "nullable f x = (case x of None \<Rightarrow> SNull | Some v \<Rightarrow> f v)"

definition user_row :: "user \<Rightarrow> sql_row" where
  "user_row u = [(''id'', SUuid (u_id u)), (''email'', SStr (u_email u)),
     (''password_hash'', SStr (u_password_hash u)), (''status'', SStr (u_status u)),
     (''can_host'', SBool (u_can_host u)), (''can_rent'', SBool (u_can_rent u)),
     (''created_at'', STime (u_created_at u)), (''updated_at'', STime (u_updated_at u)),
     (''is_admin'', SBool (u_is_admin u)), (''credits_gpu_hours'', SInt (u_credits_gpu_hours u))]"

definition audit_row :: "audit_log \<Rightarrow> sql_row" where
  "audit_row a = [(''id'', SUuid (a_id a)), (''user_id'', nullable SUuid (a_user_id a)),
     (''event_type'', SStr (a_event_type a)), (''event_data'', SJson (a_event_data a)),
     (''ip_address'', nullable SStr (a_ip_address a)), (''user_agent'', nullable SStr (a_user_agent a)),
     (''created_at'', STime (a_created_at a))]"

definition api_key_row :: "api_key \<Rightarrow> sql_row" where
  "api_key_row k = [(''id'', SUuid (k_id k)), (''user_id'', SUuid (k_user_id k)), (''name'', SStr (k_name k)),
     (''prefix'', SStr (k_prefix k)), (''hash'', SStr (k_hash k)), (''created_at'', STime (k_created_at k)),
     (''revoked_at'', nullable STime (k_revoked_at k))]"

definition claim_token_row :: "claim_token \<Rightarrow> sql_row" where
  "claim_token_row c = [(''id'', SUuid (c_id c)), (''user_id'', SUuid (c_user_id c)),
     (''prefix'', SStr (c_prefix c)), (''token_hash'', SStr (c_token_hash c)),
     (''expires_at'', STime (c_expires_at c)), (''consumed_at'', nullable STime (c_consumed_at c)),
     (''created_at'', STime (c_created_at c))]"

definition node_row :: "node \<Rightarrow> sql_row" where
  "node_row n = [(''id'', SUuid (n_id n)), (''user_id'', SUuid (n_user_id n)), (''name'', SStr (n_name n)),
     (''gpu_model'', SStr (n_gpu_model n)), (''gpu_memory_gb'', SInt (n_gpu_memory_gb n)),
     (''gpu_count'', SInt (n_gpu_count n)), (''status'', SStr (n_status n)),
     (''last_seen_at'', nullable STime (n_last_seen_at n)), (''created_at'', STime (n_created_at n)),
     (''agent_token_hash'', nullable SStr (n_agent_token_hash n)),
     (''agent_token_prefix'', nullable SStr (n_agent_token_prefix n))]"

definition job_row :: "job \<Rightarrow> sql_row" where
  "job_row j = [(''id'', SUuid (j_id j)), (''user_id'', SUuid (j_user_id j)),
     (''docker_image'', SStr (j_docker_image j)), (''command'', SJson (JArr (map JStr (j_command j)))),
     (''gpu_count'', SInt (j_gpu_count j)), (''max_duration_seconds'', SInt (j_max_duration_seconds j)),
     (''status'', SStr (j_status j)), (''exit_code'', nullable SInt (j_exit_code j)),
     (''error_message'', nullable SStr (j_error_message j)),
     (''assigned_node_id'', nullable SUuid (j_assigned_node_id j)), (''created_at'', STime (j_created_at j)),
     (''started_at'', nullable STime (j_started_at j)), (''completed_at'', nullable STime (j_completed_at j)),
     (''cancel_requested_at'', nullable STime (j_cancel_requested_at j)),
     (''preferred_node_id'', nullable SUuid (j_preferred_node_id j))]"

definition node_metric_row :: "node_metric \<Rightarrow> sql_row" where
  "node_metric_row m = [(''node_id'', SUuid (m_node_id m)), (''gpu_index'', SInt (m_gpu_index m)),
     (''utilization_pct'', SInt (m_utilization_pct m)), (''memory_used_bytes'', SInt (m_memory_used_bytes m)),
     (''memory_total_bytes'', SInt (m_memory_total_bytes m)), (''temperature_c'', SInt (m_temperature_c m)),
     (''recorded_at'', STime (m_recorded_at m))]"

definition job_log_row :: "job_log \<Rightarrow> sql_row" where
  "job_log_row l = [(''id'', SUuid (l_id l)), (''job_id'', SUuid (l_job_id l)), (''stream'', SStr (l_stream l)),
     (''content'', SStr (l_content l)), (''sequence'', SInt (l_sequence l)),
     (''received_at'', STime (l_received_at l))]"

definition rows_of :: "db \<Rightarrow> string \<Rightarrow> sql_row list" where
  "rows_of d n =
     (if n = ''users'' then map user_row (users d)
      else if n = ''audit_log'' then map audit_row (audit_events d)
      else if n = ''api_keys'' then map api_key_row (api_keys d)
      else if n = ''claim_tokens'' then map claim_token_row (claim_tokens d)
      else if n = ''nodes'' then map node_row (nodes d)
      else if n = ''jobs'' then map job_row (jobs d)
      else if n = ''node_metrics'' then map node_metric_row (node_metrics d)
      else if n = ''job_logs'' then map job_log_row (job_logs d)
      else [])"

definition cell :: "sql_row \<Rightarrow> string \<Rightarrow> sql_value" where
  "cell r c = (case map_of r c of None \<Rightarrow> SNull | Some v \<Rightarrow> v)"

fun of_type :: "sql_type \<Rightarrow> sql_value \<Rightarrow> bool" where
  "of_type _ SNull \<longleftrightarrow> True"
| "of_type ty (SUuid _) \<longleftrightarrow> ty = SqlUuid"
| "of_type ty (SStr _) \<longleftrightarrow> (case ty of SqlString _ \<Rightarrow> True | SqlText \<Rightarrow> True | _ \<Rightarrow> False)"
| "of_type ty (SInt _) \<longleftrightarrow> ty = SqlInteger \<or> ty = SqlBigInteger"
| "of_type ty (SBool _) \<longleftrightarrow> ty = SqlBoolean"
| "of_type ty (STime _) \<longleftrightarrow> ty = SqlTimestamp"
| "of_type ty (SJson _) \<longleftrightarrow> ty = SqlJsonb"

definition row_fits :: "table \<Rightarrow> sql_row \<Rightarrow> bool" where
  "row_fits t r \<longleftrightarrow> map fst r = column_names t \<and>
     list_all (\<lambda>c. of_type (cl_type c) (cell r (cl_name c)) \<and>
       (cell r (cl_name c) = SNull \<longrightarrow> cl_nullable c)) (tb_columns t)"

text \<open>Rows whose key has a NULL never collide.\<close>

definition unique_key :: "string list \<Rightarrow> sql_row list \<Rightarrow> bool" where
  "unique_key cs rows \<longleftrightarrow> distinct (filter (\<lambda>vs. SNull \<notin> set vs) (map (\<lambda>r. map (cell r) cs) rows))"

definition references :: "sql_row list \<Rightarrow> string \<Rightarrow> sql_row list \<Rightarrow> bool" where
  "references rows c target \<longleftrightarrow>
     list_all (\<lambda>r. cell r c = SNull \<or> cell r c \<in> (\<lambda>r'. cell r' ''id'') ` set target) rows"

text \<open>The keys of a table and its foreign keys.\<close>

definition key_list :: "table \<Rightarrow> string list list" where
  "key_list t = tb_primary_key t # map snd (tb_uniques t)"

definition reference_list :: "table \<Rightarrow> (string \<times> string) list" where
  "reference_list t = concat (map (\<lambda>c. case cl_foreign_key c of None \<Rightarrow> []
     | Some f \<Rightarrow> [(cl_name c, fk_target f)]) (tb_columns t))"

definition table_holds :: "db \<Rightarrow> table \<Rightarrow> bool" where
  "table_holds d t \<longleftrightarrow> (let rows = rows_of d (tb_name t) in
     list_all (row_fits t) rows \<and> list_all (\<lambda>cs. unique_key cs rows) (key_list t) \<and>
     list_all (\<lambda>(c, target). references rows c (rows_of d target)) (reference_list t))"

lemmas row_defs = user_row_def audit_row_def api_key_row_def claim_token_row_def node_row_def job_row_def
  node_metric_row_def job_log_row_def

lemma rows_of_simps [simp]:
  "rows_of d ''users'' = map user_row (users d)"
  "rows_of d ''audit_log'' = map audit_row (audit_events d)"
  "rows_of d ''api_keys'' = map api_key_row (api_keys d)"
  "rows_of d ''claim_tokens'' = map claim_token_row (claim_tokens d)"
  "rows_of d ''nodes'' = map node_row (nodes d)"
  "rows_of d ''jobs'' = map job_row (jobs d)"
  "rows_of d ''node_metrics'' = map node_metric_row (node_metrics d)"
  "rows_of d ''job_logs'' = map job_log_row (job_logs d)"
  by (simp_all add: rows_of_def)

lemma of_type_nullable:
  "of_type ty (nullable SUuid x) \<longleftrightarrow> x = None \<or> ty = SqlUuid"
  "of_type ty (nullable STime y) \<longleftrightarrow> y = None \<or> ty = SqlTimestamp"
  "of_type ty (nullable SStr z) \<longleftrightarrow> z = None \<or> of_type ty (SStr [])"
  "of_type ty (nullable SInt i) \<longleftrightarrow> i = None \<or> ty = SqlInteger \<or> ty = SqlBigInteger"
  by (simp_all add: nullable_def split: option.splits sql_type.splits)

lemma rows_fit:
  "row_fits users_table (user_row u)" "row_fits audit_log_table (audit_row a)"
  "row_fits api_keys_table (api_key_row k)" "row_fits claim_tokens_table (claim_token_row c)"
  "row_fits nodes_table (node_row n)" "row_fits jobs_table (job_row j)"
  "row_fits node_metrics_table (node_metric_row m)" "row_fits job_logs_table (job_log_row l)"
  by (simp_all add: row_fits_def column_names_def table_defs row_defs cell_def of_type_nullable)

text \<open>A key of columns is unique when a function of the row that determines it is.\<close>

lemma unique_keyI:
  assumes "distinct (map f rows)" and "\<And>x y. map (cell (enc x)) cs = map (cell (enc y)) cs \<Longrightarrow> f x = f y"
  shows "unique_key cs (map enc rows)"
proof -
  have "inj_on (\<lambda>x. map (cell (enc x)) cs) (set rows)"
  proof (rule inj_onI)
    fix x y assume "x \<in> set rows" "y \<in> set rows" "map (cell (enc x)) cs = map (cell (enc y)) cs"
    then show "x = y" using assms(1) assms(2) [of x y] by (auto simp only: distinct_map dest: inj_onD)
  qed
  then have "distinct (map (\<lambda>x. map (cell (enc x)) cs) rows)"
    using assms(1) by (simp add: distinct_map)
  then show ?thesis by (simp add: unique_key_def comp_def distinct_filter)
qed

lemma unique_key_option:
  assumes "distinct (filter (\<lambda>p. p \<noteq> None) (map f rows))" and "\<And>x. cell (enc x) c = nullable SStr (f x)"
  shows "unique_key [c] (map enc rows)"
proof -
  have "filter (\<lambda>vs. SNull \<notin> set vs) (map (\<lambda>r. map (cell r) [c]) (map enc rows)) =
      map (\<lambda>p. [nullable SStr p]) (filter (\<lambda>p. p \<noteq> None) (map f rows))"
    by (induction rows) (auto simp: assms(2) nullable_def split: option.splits)
  moreover have "inj (\<lambda>p. [nullable SStr p])"
    by (auto simp: inj_def nullable_def split: option.splits)
  ultimately show ?thesis
    using assms(1) by (simp add: unique_key_def distinct_map inj_on_def del: filter_map)
qed

lemma referencesI:
  assumes "\<And>x. x \<in> set rows \<Longrightarrow> cell (enc x) c = SNull \<or> cell (enc x) c \<in> SUuid ` (f ` set others)"
    and "\<And>y. cell (enc' y) ''id'' = SUuid (f y)"
  shows "references (map enc rows) c (map enc' others)"
  unfolding references_def list_all_iff
proof
  fix r assume "r \<in> set (map enc rows)"
  then obtain x where "x \<in> set rows" "r = enc x" by auto
  with assms(1) [of x] show "cell r c = SNull \<or> cell r c \<in> (\<lambda>r'. cell r' ''id'') ` set (map enc' others)"
    by (auto simp: assms(2) image_image)
qed

lemma nullable_ref: "ref_in U x \<Longrightarrow> nullable SUuid x = SNull \<or> nullable SUuid x \<in> SUuid ` U"
  by (auto simp: ref_in_def nullable_def split: option.splits)

text \<open>The cells the keys are made of.\<close>

lemma cells [simp]:
  "cell (user_row u) ''id'' = SUuid (u_id u)" "cell (user_row u) ''email'' = SStr (u_email u)"
  "cell (audit_row a) ''id'' = SUuid (a_id a)" "cell (audit_row a) ''user_id'' = nullable SUuid (a_user_id a)"
  "cell (api_key_row k) ''id'' = SUuid (k_id k)" "cell (api_key_row k) ''prefix'' = SStr (k_prefix k)"
  "cell (api_key_row k) ''user_id'' = SUuid (k_user_id k)"
  "cell (claim_token_row c) ''id'' = SUuid (c_id c)" "cell (claim_token_row c) ''prefix'' = SStr (c_prefix c)"
  "cell (claim_token_row c) ''user_id'' = SUuid (c_user_id c)"
  "cell (node_row n) ''id'' = SUuid (n_id n)" "cell (node_row n) ''user_id'' = SUuid (n_user_id n)"
  "cell (node_row n) ''agent_token_prefix'' = nullable SStr (n_agent_token_prefix n)"
  "cell (job_row j) ''id'' = SUuid (j_id j)" "cell (job_row j) ''user_id'' = SUuid (j_user_id j)"
  "cell (job_row j) ''assigned_node_id'' = nullable SUuid (j_assigned_node_id j)"
  "cell (job_row j) ''preferred_node_id'' = nullable SUuid (j_preferred_node_id j)"
  "cell (node_metric_row m) ''node_id'' = SUuid (m_node_id m)"
  "cell (node_metric_row m) ''gpu_index'' = SInt (m_gpu_index m)"
  "cell (job_log_row l) ''id'' = SUuid (l_id l)" "cell (job_log_row l) ''job_id'' = SUuid (l_job_id l)"
  "cell (job_log_row l) ''sequence'' = SInt (l_sequence l)"
  by (simp_all add: cell_def row_defs)

lemma names_and_keys [simp]:
  "tb_name users_table = ''users''" "key_list users_table = [[''id''], [''email'']]"
  "tb_name audit_log_table = ''audit_log''" "key_list audit_log_table = [[''id'']]"
  "tb_name api_keys_table = ''api_keys''" "key_list api_keys_table = [[''id''], [''prefix'']]"
  "tb_name claim_tokens_table = ''claim_tokens''" "key_list claim_tokens_table = [[''id''], [''prefix'']]"
  "tb_name nodes_table = ''nodes''" "key_list nodes_table = [[''id''], [''agent_token_prefix'']]"
  "tb_name jobs_table = ''jobs''" "key_list jobs_table = [[''id'']]"
  "tb_name node_metrics_table = ''node_metrics''" "key_list node_metrics_table = [[''node_id'', ''gpu_index'']]"
  "tb_name job_logs_table = ''job_logs''" "key_list job_logs_table = [[''id''], [''job_id'', ''sequence'']]"
  by (simp_all add: key_list_def table_defs)

lemma reference_lists [simp]:
  "reference_list users_table = []" "reference_list audit_log_table = [(''user_id'', ''users'')]"
  "reference_list api_keys_table = [(''user_id'', ''users'')]"
  "reference_list claim_tokens_table = [(''user_id'', ''users'')]"
  "reference_list nodes_table = [(''user_id'', ''users'')]"
  "reference_list jobs_table = [(''user_id'', ''users''), (''assigned_node_id'', ''nodes''),
     (''preferred_node_id'', ''nodes'')]"
  "reference_list node_metrics_table = [(''node_id'', ''nodes'')]"
  "reference_list job_logs_table = [(''job_id'', ''jobs'')]"
  by (simp_all add: reference_list_def table_defs)

lemma accounts_hold:
  assumes "db_ok d"
  shows "table_holds d users_table" "table_holds d audit_log_table" "table_holds d api_keys_table"
    "table_holds d claim_tokens_table"
proof -
  note ok = assms [unfolded db_ok_def]
  have "unique_key [''id''] (map user_row (users d))" "unique_key [''email''] (map user_row (users d))"
    by (rule unique_keyI [of u_id], use ok in \<open>simp add: users_ok_def\<close>, simp,
        rule unique_keyI [of u_email], use ok in \<open>simp add: users_ok_def\<close>, simp)
  then show "table_holds d users_table" by (simp add: table_holds_def rows_fit list_all_iff)
  have "unique_key [''id''] (map audit_row (audit_events d))"
    by (rule unique_keyI [of a_id], use ok in \<open>simp add: audits_ok_def\<close>, simp)
  moreover have "references (map audit_row (audit_events d)) ''user_id'' (map user_row (users d))"
    by (rule referencesI [where f = u_id]) (use ok nullable_ref in \<open>auto simp: audits_ok_def\<close>)
  ultimately show "table_holds d audit_log_table" by (simp add: table_holds_def rows_fit list_all_iff)
  have "unique_key [''id''] (map api_key_row (api_keys d))" "unique_key [''prefix''] (map api_key_row (api_keys d))"
    by (rule unique_keyI [of k_id], use ok in \<open>simp add: keys_ok_def\<close>, simp,
        rule unique_keyI [of k_prefix], use ok in \<open>simp add: keys_ok_def\<close>, simp)
  moreover have "references (map api_key_row (api_keys d)) ''user_id'' (map user_row (users d))"
    by (rule referencesI [where f = u_id]) (use ok in \<open>auto simp: keys_ok_def\<close>)
  ultimately show "table_holds d api_keys_table" by (simp add: table_holds_def rows_fit list_all_iff)
  have "unique_key [''id''] (map claim_token_row (claim_tokens d))"
    "unique_key [''prefix''] (map claim_token_row (claim_tokens d))"
    by (rule unique_keyI [of c_id], use ok in \<open>simp add: claims_ok_def\<close>, simp,
        rule unique_keyI [of c_prefix], use ok in \<open>simp add: claims_ok_def\<close>, simp)
  moreover have "references (map claim_token_row (claim_tokens d)) ''user_id'' (map user_row (users d))"
    by (rule referencesI [where f = u_id]) (use ok in \<open>auto simp: claims_ok_def\<close>)
  ultimately show "table_holds d claim_tokens_table" by (simp add: table_holds_def rows_fit list_all_iff)
qed

lemma fleet_holds:
  assumes "db_ok d"
  shows "table_holds d nodes_table" "table_holds d jobs_table" "table_holds d node_metrics_table"
    "table_holds d job_logs_table"
proof -
  note ok = assms [unfolded db_ok_def]
  have "unique_key [''id''] (map node_row (nodes d))"
    by (rule unique_keyI [of n_id], use ok in \<open>simp add: nodes_ok_def\<close>, simp)
  moreover have "unique_key [''agent_token_prefix''] (map node_row (nodes d))"
    by (rule unique_key_option [of n_agent_token_prefix]) (use ok in \<open>auto simp: nodes_ok_def\<close>)
  moreover have "references (map node_row (nodes d)) ''user_id'' (map user_row (users d))"
    by (rule referencesI [where f = u_id]) (use ok in \<open>auto simp: nodes_ok_def\<close>)
  ultimately show "table_holds d nodes_table" by (simp add: table_holds_def rows_fit list_all_iff)
  have row: "j_user_id j \<in> u_id ` set (users d) \<and> ref_in (n_id ` set (nodes d)) (j_assigned_node_id j) \<and>
      ref_in (n_id ` set (nodes d)) (j_preferred_node_id j)" if "j \<in> set (jobs d)" for j
    using ok that by (simp add: jobs_ok_def job_row_ok_def)
  have "unique_key [''id''] (map job_row (jobs d))"
    by (rule unique_keyI [of j_id], use ok in \<open>simp add: jobs_ok_def\<close>, simp)
  moreover have "references (map job_row (jobs d)) ''user_id'' (map user_row (users d))"
    by (rule referencesI [where f = u_id]) (use row in auto)
  moreover have "references (map job_row (jobs d)) ''assigned_node_id'' (map node_row (nodes d))"
    "references (map job_row (jobs d)) ''preferred_node_id'' (map node_row (nodes d))"
    by (rule referencesI [where f = n_id], use row nullable_ref in simp, simp)+
  ultimately show "table_holds d jobs_table" by (simp add: table_holds_def rows_fit list_all_iff)
  have "unique_key [''node_id'', ''gpu_index''] (map node_metric_row (node_metrics d))"
    by (rule unique_keyI [of metric_key], use ok in \<open>simp add: metrics_ok_def\<close>, simp add: metric_key_def)
  moreover have "references (map node_metric_row (node_metrics d)) ''node_id'' (map node_row (nodes d))"
    by (rule referencesI [where f = n_id]) (use ok in \<open>auto simp: metrics_ok_def\<close>)
  ultimately show "table_holds d node_metrics_table" by (simp add: table_holds_def rows_fit list_all_iff)
  have "unique_key [''id''] (map job_log_row (job_logs d))"
    "unique_key [''job_id'', ''sequence''] (map job_log_row (job_logs d))"
    by (rule unique_keyI [of l_id], use ok in \<open>simp add: logs_ok_def\<close>, simp,
        rule unique_keyI [of log_key], use ok in \<open>simp add: logs_ok_def\<close>, simp add: log_key_def)
  moreover have "references (map job_log_row (job_logs d)) ''job_id'' (map job_row (jobs d))"
    by (rule referencesI [where f = j_id]) (use ok in \<open>auto simp: logs_ok_def\<close>)
  ultimately show "table_holds d job_logs_table" by (simp add: table_holds_def rows_fit list_all_iff)
qed



end
