(* ===== verification/Monitoring.thy ===== *)
theory Monitoring
  imports System
begin

text \<open>
  \<open>app/observability.py\<close>, \<open>metrics.py\<close> and \<open>health.py\<close>: the Prometheus gauges that a
  scrape rebuilds from the database, the middleware that counts every answered request under
  its route template, and the server process as the database together with these metrics.
\<close>

section \<open>Metrics with labels\<close>

text \<open>A gauge maps the values of its labels to its value; \<open>clear()\<close> forgets every series.\<close>

type_synonym 'l gauge = "('l \<times> int) list"

definition set_gauge :: "'l \<Rightarrow> int \<Rightarrow> 'l gauge \<Rightarrow> 'l gauge" where
  "set_gauge labels v g = AList.update labels v g"

definition set_all :: "('l \<times> int) list \<Rightarrow> 'l gauge \<Rightarrow> 'l gauge" where
  "set_all cs g = fold (\<lambda>(labels, v). set_gauge labels v) cs g"

record gauges =
  jobs_in_status :: "string gauge"
  nodes_in_status :: "string gauge"
  gpu_utilization_pct :: "(string \<times> string) gauge"
  gpu_memory_used_bytes :: "(string \<times> string) gauge"
  gpu_memory_total_bytes :: "(string \<times> string) gauge"
  gpu_temperature_celsius :: "(string \<times> string) gauge"

definition clear_gauges :: "gauges \<Rightarrow> gauges" where
  "clear_gauges g = \<lparr>jobs_in_status = [], nodes_in_status = [], gpu_utilization_pct = [],
     gpu_memory_used_bytes = [], gpu_memory_total_bytes = [], gpu_temperature_celsius = []\<rparr>"

definition JOB_STATUS_LABELS :: "string list" where
  "JOB_STATUS_LABELS = [''queued'', ''running'', ''completed'', ''failed'', ''cancelled'']"

definition metric_labels :: "node_metric \<Rightarrow> string \<times> string" where
  "metric_labels m = (str_uuid (m_node_id m), str_int (m_gpu_index m))"

definition set_gpu_gauges :: "node_metric \<Rightarrow> gauges \<Rightarrow> gauges" where
  "set_gpu_gauges m g = (let l = metric_labels m in
     g\<lparr>gpu_utilization_pct := set_gauge l (m_utilization_pct m) (gpu_utilization_pct g),
       gpu_memory_used_bytes := set_gauge l (m_memory_used_bytes m) (gpu_memory_used_bytes g),
       gpu_memory_total_bytes := set_gauge l (m_memory_total_bytes m) (gpu_memory_total_bytes g),
       gpu_temperature_celsius := set_gauge l (m_temperature_c m) (gpu_temperature_celsius g)\<rparr>)"

text \<open>
  \<open>refresh_platform_gauges\<close>: the gauges belong to the process, so what was set before an
  exception stays set.
\<close>

definition refresh_platform_gauges :: "env \<Rightarrow> db \<Rightarrow> gauges \<Rightarrow> (error + unit) \<times> gauges" where
  "refresh_platform_gauges e d g =
     (let g0 = clear_gauges g;
          job_counts = read_groups (group_counts j_status (jobs d)) (zeros JOB_STATUS_LABELS);
          g1 = g0\<lparr>jobs_in_status := set_all job_counts (jobs_in_status g0)\<rparr> in
      case count_nodes (clock e 0) (nodes d) (zeros NODE_STATUSES) of
        Inl err \<Rightarrow> (Inl err, g1)
      | Inr node_counts \<Rightarrow>
          (let g2 = g1\<lparr>nodes_in_status := set_all node_counts (nodes_in_status g1)\<rparr> in
           (Inr (), fold set_gpu_gauges (node_metrics d) g2)))"

section \<open>The middleware\<close>

text \<open>\<open>http_requests_total\<close> by method, path and status, and the observed durations.\<close>

record http_metrics =
  http_requests_total :: "(string \<times> string \<times> string) gauge"
  http_request_durations :: "((string \<times> string) \<times> int) list"

definition inc :: "'l \<Rightarrow> 'l gauge \<Rightarrow> 'l gauge" where
  "inc labels g = AList.update labels ((case map_of g labels of None \<Rightarrow> 0 | Some c \<Rightarrow> c) + 1) g"

text \<open>
  \<open>HTTPMetricsMiddleware.dispatch\<close> after \<open>call_next\<close>: \<open>status\<close> is the status code of the
  response, or \<open>None\<close> when the exception went through unhandled, which the middleware does not
  see.
\<close>

definition middleware_dispatch ::
  "string \<Rightarrow> string \<Rightarrow> int option \<Rightarrow> int \<Rightarrow> http_metrics \<Rightarrow> http_metrics" where
  "middleware_dispatch method path status elapsed m =
     (case status of None \<Rightarrow> m
      | Some code \<Rightarrow>
          if path = ''/metrics'' then m
          else m\<lparr>http_requests_total := inc (method, path, str_int code) (http_requests_total m),
                 http_request_durations := http_request_durations m @ [((method, path), elapsed)]\<rparr>)"

section \<open>Routes\<close>

text \<open>Method and path template of each endpoint, from the routers' prefixes and decorators.\<close>

definition route_of :: "request \<Rightarrow> string \<times> string" where
  "route_of q = (case q of
     PostSignup _ _ \<Rightarrow> (''POST'', ''/api/auth/signup'')
   | PostLogin _ _ \<Rightarrow> (''POST'', ''/api/auth/login'')
   | GetMe \<Rightarrow> (''GET'', ''/api/me'')
   | PostKey _ \<Rightarrow> (''POST'', ''/api/keys'')
   | GetKeys \<Rightarrow> (''GET'', ''/api/keys'')
   | DeleteKey _ \<Rightarrow> (''DELETE'', ''/api/keys/{api_key_id}'')
   | PostJob _ \<Rightarrow> (''POST'', ''/api/jobs'')
   | GetJobs _ _ _ \<Rightarrow> (''GET'', ''/api/jobs'')
   | PostClaim \<Rightarrow> (''POST'', ''/api/jobs/claim'')
   | GetJob _ \<Rightarrow> (''GET'', ''/api/jobs/{job_id}'')
   | PostCancel _ \<Rightarrow> (''POST'', ''/api/jobs/{job_id}/cancel'')
   | PostComplete _ _ _ \<Rightarrow> (''POST'', ''/api/jobs/{job_id}/complete'')
   | PostLogs _ _ \<Rightarrow> (''POST'', ''/api/jobs/{job_id}/logs'')
   | GetLogs _ _ _ \<Rightarrow> (''GET'', ''/api/jobs/{job_id}/logs'')
   | PostClaimToken \<Rightarrow> (''POST'', ''/api/nodes/claim-tokens'')
   | PostRegister _ \<Rightarrow> (''POST'', ''/api/nodes/register'')
   | GetNodes \<Rightarrow> (''GET'', ''/api/nodes'')
   | GetNode _ \<Rightarrow> (''GET'', ''/api/nodes/{node_id}'')
   | PostHeartbeat _ \<Rightarrow> (''POST'', ''/api/nodes/{node_id}/heartbeat'')
   | PostDrain _ \<Rightarrow> (''POST'', ''/api/nodes/{node_id}/drain'')
   | PostUndrain _ \<Rightarrow> (''POST'', ''/api/nodes/{node_id}/undrain'')
   | DeleteNode _ \<Rightarrow> (''DELETE'', ''/api/nodes/{node_id}'')
   | PostMetrics _ _ \<Rightarrow> (''POST'', ''/api/nodes/{node_id}/metrics'')
   | GetUsers _ _ _ _ \<Rightarrow> (''GET'', ''/api/admin/users'')
   | GetUser _ \<Rightarrow> (''GET'', ''/api/admin/users/{user_id}'')
   | PostApprove _ _ _ \<Rightarrow> (''POST'', ''/api/admin/users/{user_id}/approve'')
   | PostSuspend _ \<Rightarrow> (''POST'', ''/api/admin/users/{user_id}/suspend'')
   | GetAudit _ _ _ _ _ _ _ \<Rightarrow> (''GET'', ''/api/admin/audit'')
   | GetAuditEvent _ \<Rightarrow> (''GET'', ''/api/admin/audit/{event_id}'')
   | PostForceKill _ \<Rightarrow> (''POST'', ''/api/admin/jobs/{job_id}/force-kill'')
   | PostForceDrain _ \<Rightarrow> (''POST'', ''/api/admin/nodes/{node_id}/force-drain'')
   | GetDashboard \<Rightarrow> (''GET'', ''/api/admin/dashboard''))"

section \<open>The server process\<close>

text \<open>
  A call is an API request, the health probe or a scrape of the metrics. The scrape rebuilds
  the gauges and answers with them and the request counters.
\<close>

datatype call =
    Api http_request request
  | Health
  | Scrape

datatype answer =
    ApiAnswer "error + response"
  | HealthAnswer "(string \<times> string) list"
  | ScrapeAnswer "error + (gauges \<times> http_metrics)"

record process =
  p_db :: db
  p_gauges :: gauges
  p_http :: http_metrics

definition health :: "(string \<times> string) list" where
  "health = [(''status'', ''ok'')]"

definition metrics_endpoint :: "env \<Rightarrow> process \<Rightarrow> (error + (gauges \<times> http_metrics)) \<times> process" where
  "metrics_endpoint e p =
     (case refresh_platform_gauges e (p_db p) (p_gauges p) of
        (Inl err, g) \<Rightarrow> (Inl err, p\<lparr>p_gauges := g\<rparr>)
      | (Inr _, g) \<Rightarrow> (Inr (g, p_http p), p\<lparr>p_gauges := g\<rparr>))"

definition call_route :: "call \<Rightarrow> string \<times> string" where
  "call_route c = (case c of Api _ q \<Rightarrow> route_of q | Health \<Rightarrow> (''GET'', ''/health'')
     | Scrape \<Rightarrow> (''GET'', ''/metrics''))"

text \<open>The status code the middleware sees: \<open>None\<close> for an exception no handler catches.\<close>

definition seen_status :: "call \<Rightarrow> answer \<Rightarrow> int option" where
  "seen_status c a = (case (c, a) of
     (Api _ q, ApiAnswer x) \<Rightarrow>
       (case x of Inl err \<Rightarrow> if handled err then Some (http_status q x) else None
        | Inr _ \<Rightarrow> Some (http_status q x))
   | (_, ScrapeAnswer (Inl err)) \<Rightarrow> None
   | _ \<Rightarrow> Some 200)"

definition endpoint :: "env \<Rightarrow> call \<Rightarrow> process \<Rightarrow> answer \<times> process" where
  "endpoint e c p = (case c of
     Api r q \<Rightarrow> (case serve e r q (p_db p) of (x, d) \<Rightarrow> (ApiAnswer x, p\<lparr>p_db := d\<rparr>))
   | Health \<Rightarrow> (HealthAnswer health, p)
   | Scrape \<Rightarrow> (case metrics_endpoint e p of (x, p') \<Rightarrow> (ScrapeAnswer x, p')))"

definition process_call :: "env \<Rightarrow> call \<Rightarrow> int \<Rightarrow> process \<Rightarrow> answer \<times> process" where
  "process_call e c elapsed p =
     (case endpoint e c p of (a, p') \<Rightarrow>
        (a, p'\<lparr>p_http := middleware_dispatch (fst (call_route c)) (snd (call_route c))
                 (seen_status c a) elapsed (p_http p')\<rparr>))"

text \<open>A sequence of calls, with the answers they got.\<close>

fun process_calls :: "(env \<times> call \<times> int) list \<Rightarrow> process \<Rightarrow> (call \<times> answer) list \<times> process" where
  "process_calls [] p = ([], p)"
| "process_calls ((e, c, elapsed) # cs) p =
     (case process_call e c elapsed p of (a, p') \<Rightarrow>
      case process_calls cs p' of (as, p'') \<Rightarrow> ((c, a) # as, p''))"

end
