(* ===== verification/MonitoringTheorems.thy ===== *)
theory MonitoringTheorems
  imports Monitoring JobTheorems
begin

text \<open>
  What an operator sees: the dashboard and the gauges count exactly the rows of the database,
  and the request counter counts exactly the answered calls.
\<close>

section \<open>Numbers as labels\<close>

lemma digit_char_inject: "0 \<le> a \<Longrightarrow> a < 10 \<Longrightarrow> 0 \<le> b \<Longrightarrow> b < 10 \<Longrightarrow> digit_char a = digit_char b \<Longrightarrow> a = b"
  by (metis dec_value_digit option.inject)

lemma str_nat_Nil [simp]: "str_nat n \<noteq> []"
  by (cases "n < 10") (simp_all add: str_nat.simps [of n])

lemma Nil_str_nat [simp]: "[] \<noteq> str_nat n"
  using str_nat_Nil [of n] by (rule not_sym)

lemma str_nat_inject: "0 \<le> m \<Longrightarrow> 0 \<le> n \<Longrightarrow> str_nat m = str_nat n \<Longrightarrow> m = n"
proof (induction m arbitrary: n rule: str_nat.induct)
  case (1 m)
  have eq: "(if m < 10 then [digit_char m] else str_nat (m div 10) @ [digit_char (m mod 10)]) =
      (if n < 10 then [digit_char n] else str_nat (n div 10) @ [digit_char (n mod 10)])"
    using "1.prems"(3) str_nat.simps [of m] str_nat.simps [of n] by metis
  show ?case
  proof (cases "m < 10")
    case True
    with eq "1.prems"(1,2) show ?thesis by (auto split: if_splits intro: digit_char_inject)
  next
    case False
    with eq have n: "\<not> n < 10" and rest: "str_nat (m div 10) = str_nat (n div 10)"
      and last: "digit_char (m mod 10) = digit_char (n mod 10)" by (auto split: if_splits)
    have "m div 10 = n div 10" using "1.IH" [OF False _ _ rest] "1.prems"(1,2) by simp
    moreover have "m mod 10 = n mod 10" using last by (intro digit_char_inject) auto
    ultimately show ?thesis by (metis div_mult_mod_eq)
  qed
qed

lemma str_nat_no_sign: "0 \<le> n \<Longrightarrow> hd (str_nat n) \<noteq> CHR ''-''"
proof (induction n rule: str_nat.induct)
  case (1 n)
  show ?case
  proof (cases "n < 10")
    case True
    have "dec_value (CHR ''-'') = None" by code_simp
    then have "digit_char n \<noteq> CHR ''-''" using True dec_value_digit [of n] "1.prems" by auto
    then show ?thesis using True by (simp add: str_nat.simps [of n])
  next
    case False
    then have "hd (str_nat n) = hd (str_nat (n div 10))"
      by (simp add: str_nat.simps [of n])
    then show ?thesis using 1 False by simp
  qed
qed

lemma str_int_inject: "str_int i = str_int j \<Longrightarrow> i = j"
proof -
  assume eq: "str_int i = str_int j"
  have sign: "i < 0 \<longleftrightarrow> j < 0"
    using eq str_nat_no_sign [of i] str_nat_no_sign [of j]
    by (auto simp: str_int_def split: if_splits) (metis list.sel(1) not_less)+
  then show ?thesis using eq str_nat_inject [of "- i" "- j"] str_nat_inject [of i j]
    by (auto simp: str_int_def split: if_splits)
qed

section \<open>The dashboard\<close>

text \<open>The loop that picks two of the rows.\<close>

lemma fold_queued_running:
  "distinct (map fst rows) \<Longrightarrow>
   fold (\<lambda>(s, c) (q, r). if s = ''queued'' then (c, r) else if s = ''running'' then (q, c) else (q, r)) rows (q0, r0)
   = (case map_of rows ''queued'' of None \<Rightarrow> q0 | Some c \<Rightarrow> c, case map_of rows ''running'' of None \<Rightarrow> r0 | Some c \<Rightarrow> c)"
proof (induction rows arbitrary: q0 r0)
  case (Cons row rows)
  obtain s c where row: "row = (s, c)" by (cases row)
  have "map_of rows s = None" using Cons.prems by (simp add: row map_of_eq_None_iff)
  with Cons show ?case by (auto simp: row)
qed simp

lemma group_total: "fold (\<lambda>(_, c) n. n + c) (group_counts f rows) 0 = int (length rows)"
proof -
  have "fold (\<lambda>(_, c) n. n + c) xs n0 = n0 + sum_list (map snd xs)" for xs :: counts and n0
    by (induction xs arbitrary: n0) auto
  then have "fold (\<lambda>(_, c) n. n + c) (group_counts f rows) 0 = (\<Sum>s \<leftarrow> remdups (map f rows). rows_with f s rows)"
    by (simp add: group_counts_def comp_def rows_with_def)
  also have "\<dots> = (\<Sum>s \<in> f ` set rows. rows_with f s rows)"
    by (simp add: sum_list_distinct_conv_sum_set)
  also have "\<dots> = int (length rows)"
  proof (induction rows)
    case (Cons r rows)
    have "(\<Sum>s \<in> f ` set (r # rows). rows_with f s (r # rows)) =
        (\<Sum>s \<in> f ` set (r # rows). if f r = s then 1 else 0) + (\<Sum>s \<in> f ` set (r # rows). rows_with f s rows)"
      by (simp add: sum.distrib)
    also have "(\<Sum>s \<in> f ` set (r # rows). if f r = s then 1 else 0) = (1 :: int)"
      by (simp add: sum.delta)
    also have "(\<Sum>s \<in> f ` set (r # rows). rows_with f s rows) = (\<Sum>s \<in> f ` set rows. rows_with f s rows)"
      by (rule sum.mono_neutral_right) (auto simp: rows_with_none)
    finally show ?case using Cons by simp
  qed simp
  finally show ?thesis .
qed

lemma node_statuses_total:
  "rows_with (\<lambda>nd. compute_node_status nd now) ''online'' nds +
   rows_with (\<lambda>nd. compute_node_status nd now) ''offline'' nds +
   rows_with (\<lambda>nd. compute_node_status nd now) ''draining'' nds = int (length nds)"
proof (induction nds)
  case (Cons nd nds)
  then show ?case using computed_status [of nd now] by (auto simp: NODE_STATUSES_def)
qed simp

lemma served_hours_sum:
  "served_hours js = (\<Sum>j \<leftarrow> filter (\<lambda>j. j_started_at j \<noteq> None \<and> j_completed_at j \<noteq> None) js.
     bill_gpu_hours (the (j_started_at j)) (the (j_completed_at j)) (j_gpu_count j))"
proof -
  have "fold (\<lambda>j h. case (j_started_at j, j_completed_at j) of
       (Some t0, Some t1) \<Rightarrow> h + bill_gpu_hours t0 t1 (j_gpu_count j) | _ \<Rightarrow> h) js h0 =
     h0 + (\<Sum>j \<leftarrow> filter (\<lambda>j. j_started_at j \<noteq> None \<and> j_completed_at j \<noteq> None) js.
     bill_gpu_hours (the (j_started_at j)) (the (j_completed_at j)) (j_gpu_count j))" for h0
    by (induction js arbitrary: h0) (auto split: option.splits)
  then show ?thesis by (simp add: served_hours_def)
qed

lemma zeros_keys [simp]: "fst ` set (zeros ks) = set ks" "map_of (zeros ks) k = (if k \<in> set ks then Some 0 else None)"
  by (force simp: zeros_def, induction ks, auto simp: zeros_def)

lemma zeros_fst [simp]: "map fst (zeros ks) = ks"
  by (simp add: zeros_def comp_def)

lemma map_of_status_rows:
  "(case map_of (group_counts f rows) k of None \<Rightarrow> 0 | Some c \<Rightarrow> c) = rows_with f k rows"
  by (simp add: group_counts_lookup rows_with_none)

lemma entry_tally: "k \<in> set ks \<Longrightarrow> entry (read_groups (group_counts f rows) (zeros ks)) k = rows_with f k rows"
  by (simp add: entry_def tally_lookup)

text \<open>
  The dashboard never fails and changes nothing, and its numbers are those of the tables:
  all users and the users of each status, every node under exactly one computed status, the
  queued and running jobs, the jobs that finished in the last 24 hours by outcome, and as
  GPU-hours served the sum of the bills of those of them that ran.
\<close>

theorem dashboard_counts:
  "\<exists>r. run_svc (dashboard e) d = (Inr r, d) \<and>
    uc_total (db_users r) = int (length (users d)) \<and>
    uc_pending (db_users r) = rows_with u_status ''pending'' (users d) \<and>
    uc_active (db_users r) = rows_with u_status ''active'' (users d) \<and>
    uc_suspended (db_users r) = rows_with u_status ''suspended'' (users d) \<and>
    nc_online (db_nodes r) = rows_with (\<lambda>nd. compute_node_status nd (clock e 0)) ''online'' (nodes d) \<and>
    nc_draining (db_nodes r) = rows_with (\<lambda>nd. compute_node_status nd (clock e 0)) ''draining'' (nodes d) \<and>
    nc_online (db_nodes r) + nc_offline (db_nodes r) + nc_draining (db_nodes r) = int (length (nodes d)) \<and>
    jc_queued (db_jobs r) = rows_with j_status QUEUED (jobs d) \<and>
    jc_running (db_jobs r) = rows_with j_status RUNNING (jobs d) \<and>
    jc_completed_24h (db_jobs r) + jc_failed_24h (db_jobs r) + jc_cancelled_24h (db_jobs r) =
      int (length (filter (\<lambda>j. j_status j \<in> TERMINAL_STATUSES \<and>
        (case j_completed_at j of None \<Rightarrow> False | Some t \<Rightarrow> clock e 0 - 86400000000 \<le> t)) (jobs d))) \<and>
    db_gpu_hours_served_24h r =
      (\<Sum>j \<leftarrow> filter (\<lambda>j. j_status j \<in> TERMINAL_STATUSES \<and> j_started_at j \<noteq> None \<and>
        (case j_completed_at j of None \<Rightarrow> False | Some t \<Rightarrow> clock e 0 - 86400000000 \<le> t)) (jobs d).
        bill_gpu_hours (the (j_started_at j)) (the (j_completed_at j)) (j_gpu_count j))"
proof -
  let ?now = "clock e 0" and ?cut = "clock e 0 - timedelta_hours 24"
  let ?recent = "\<lambda>j. j_status j \<in> TERMINAL_STATUSES \<and>
        (case j_completed_at j of None \<Rightarrow> False | Some t \<Rightarrow> clock e 0 - 86400000000 \<le> t)"
  obtain nc where nc: "count_nodes ?now (nodes d) (zeros NODE_STATUSES) = Inr nc"
    "\<forall>k. map_of nc k = map_option (\<lambda>c. c + rows_with (\<lambda>nd. compute_node_status nd ?now) k (nodes d))
       (map_of (zeros NODE_STATUSES) k)"
    using count_nodes_lookup [of "zeros NODE_STATUSES" ?now "nodes d"] by auto
  have nodes_by: "entry nc k = rows_with (\<lambda>nd. compute_node_status nd ?now) k (nodes d)"
    if "k \<in> set NODE_STATUSES" for k using nc(2) that by (simp add: entry_def)
  have keys: "''online'' \<in> set NODE_STATUSES" "''offline'' \<in> set NODE_STATUSES"
    "''draining'' \<in> set NODE_STATUSES" "''pending'' \<in> set USER_STATUSES" "''active'' \<in> set USER_STATUSES"
    "''suspended'' \<in> set USER_STATUSES" by (simp_all add: NODE_STATUSES_def USER_STATUSES_def)
  have fin: "finished_since ?cut ''completed'' j \<or> finished_since ?cut ''failed'' j \<or>
      finished_since ?cut ''cancelled'' j \<longleftrightarrow> ?recent j" for j
    by (auto simp: finished_since_def timedelta_hours_def TERMINAL_STATUSES_def job_status_defs)
  have three: "int (length (filter (finished_since ?cut ''completed'') js)) +
      int (length (filter (finished_since ?cut ''failed'') js)) +
      int (length (filter (finished_since ?cut ''cancelled'') js)) = int (length (filter ?recent js))" for js
    by (induction js) (auto simp: finished_since_def timedelta_hours_def TERMINAL_STATUSES_def job_status_defs)
  have billed: "filter (\<lambda>j. j_started_at j \<noteq> None \<and> j_completed_at j \<noteq> None) (filter ?recent js) =
      filter (\<lambda>j. j_status j \<in> TERMINAL_STATUSES \<and> j_started_at j \<noteq> None \<and>
        (case j_completed_at j of None \<Rightarrow> False | Some t \<Rightarrow> clock e 0 - 86400000000 \<le> t)) js" for js
    unfolding filter_filter by (rule filter_cong) (auto split: option.splits)
  show ?thesis
    by (simp add: run_svc_def dashboard_def Let_def bindS_def query_def lift_result_def ret_def begin_session_def
        nc(1) nodes_by keys entry_tally fin three served_hours_sum billed fold_queued_running [OF distinct_groups]
        map_of_status_rows group_total node_statuses_total job_status_defs(1,2)
        del: filter_filter not_None_eq)
qed

section \<open>The gauges\<close>

lemma set_all_lookup:
  "distinct (map fst cs) \<Longrightarrow> map_of (set_all cs g) k = (case map_of cs k of None \<Rightarrow> map_of g k | Some v \<Rightarrow> Some v)"
proof (induction cs arbitrary: g)
  case (Cons c cs)
  obtain l v where c: "c = (l, v)" by (cases c)
  have "map_of cs l = None" using Cons.prems by (simp add: c map_of_eq_None_iff)
  moreover have "set_all (c # cs) g = set_all cs (set_gauge l v g)" by (simp add: set_all_def c)
  ultimately show ?case using Cons.IH [of "set_gauge l v g"] Cons.prems
    by (auto simp: c set_gauge_def update_conv' split: option.splits)
qed (simp add: set_all_def)

lemma set_all_empty: "distinct (map fst cs) \<Longrightarrow> map_of (set_all cs []) k = map_of cs k"
  by (simp add: set_all_lookup split: option.split)

lemma metric_labels_inject: "metric_labels m = metric_labels m' \<longleftrightarrow> metric_key m = metric_key m'"
  by (auto simp: metric_labels_def metric_key_def str_uuid_inject dest: str_int_inject)

text \<open>One of the four gauges of a GPU, as a fold of its own.\<close>

lemma gpu_gauges_fold:
  "gpu_utilization_pct (fold set_gpu_gauges ms g) =
     set_all (map (\<lambda>m. (metric_labels m, m_utilization_pct m)) ms) (gpu_utilization_pct g)"
  "gpu_memory_used_bytes (fold set_gpu_gauges ms g) =
     set_all (map (\<lambda>m. (metric_labels m, m_memory_used_bytes m)) ms) (gpu_memory_used_bytes g)"
  "gpu_memory_total_bytes (fold set_gpu_gauges ms g) =
     set_all (map (\<lambda>m. (metric_labels m, m_memory_total_bytes m)) ms) (gpu_memory_total_bytes g)"
  "gpu_temperature_celsius (fold set_gpu_gauges ms g) =
     set_all (map (\<lambda>m. (metric_labels m, m_temperature_c m)) ms) (gpu_temperature_celsius g)"
  "jobs_in_status (fold set_gpu_gauges ms g) = jobs_in_status g"
  "nodes_in_status (fold set_gpu_gauges ms g) = nodes_in_status g"
  by (induction ms arbitrary: g) (simp_all add: set_all_def set_gpu_gauges_def Let_def)

lemma labelled_lookup:
  assumes "distinct (map metric_key ms)"
  shows "map_of (map (\<lambda>m. (metric_labels m, f m)) ms) l = Some v \<longleftrightarrow> (\<exists>m \<in> set ms. metric_labels m = l \<and> f m = v)"
    and "distinct (map fst (map (\<lambda>m. (metric_labels m, f m)) ms))"
proof -
  have "inj_on metric_labels (set ms)" "distinct ms"
    using assms metric_labels_inject by (auto simp: distinct_map inj_on_def)
  then show dist: "distinct (map fst (map (\<lambda>m. (metric_labels m, f m)) ms))"
    by (simp add: comp_def distinct_map)
  show "map_of (map (\<lambda>m. (metric_labels m, f m)) ms) l = Some v \<longleftrightarrow> (\<exists>m \<in> set ms. metric_labels m = l \<and> f m = v)"
    using dist by (subst map_of_eq_Some_iff) (auto simp: image_iff)
qed

text \<open>
  A scrape rebuilds the gauges from the database, whatever they were: there is one
  series per status with the number of its jobs, which add up to all jobs, the nodes add up to
  all nodes, and the GPU gauges have exactly one series per stored sample, labelled by node and
  GPU, with the values of that sample.
\<close>

theorem gauges_refreshed:
  assumes "reachable d"
  shows "\<exists>g'. refresh_platform_gauges e d g = (Inr (), g') \<and>
    (\<forall>s. map_of (jobs_in_status g') s =
      (if s \<in> set JOB_STATUS_LABELS then Some (rows_with j_status s (jobs d)) else None)) \<and>
    sum_list (map (\<lambda>s. rows_with j_status s (jobs d)) JOB_STATUS_LABELS) = int (length (jobs d)) \<and>
    (\<forall>s. map_of (nodes_in_status g') s = (if s \<in> set NODE_STATUSES
       then Some (rows_with (\<lambda>nd. compute_node_status nd (clock e 0)) s (nodes d)) else None)) \<and>
    (\<forall>l v. map_of (gpu_utilization_pct g') l = Some v \<longleftrightarrow>
      (\<exists>m \<in> set (node_metrics d). metric_labels m = l \<and> m_utilization_pct m = v)) \<and>
    (\<forall>l v. map_of (gpu_memory_used_bytes g') l = Some v \<longleftrightarrow>
      (\<exists>m \<in> set (node_metrics d). metric_labels m = l \<and> m_memory_used_bytes m = v)) \<and>
    (\<forall>l v. map_of (gpu_memory_total_bytes g') l = Some v \<longleftrightarrow>
      (\<exists>m \<in> set (node_metrics d). metric_labels m = l \<and> m_memory_total_bytes m = v)) \<and>
    (\<forall>l v. map_of (gpu_temperature_celsius g') l = Some v \<longleftrightarrow>
      (\<exists>m \<in> set (node_metrics d). metric_labels m = l \<and> m_temperature_c m = v))"
proof -
  note ok = reachable_ok [OF assms]
  let ?now = "clock e 0" and ?jc = "read_groups (group_counts j_status (jobs d)) (zeros JOB_STATUS_LABELS)"
  obtain nc where nc: "count_nodes ?now (nodes d) (zeros NODE_STATUSES) = Inr nc"
    "map fst nc = NODE_STATUSES"
    "\<forall>k. map_of nc k = map_option (\<lambda>c. c + rows_with (\<lambda>nd. compute_node_status nd ?now) k (nodes d))
       (map_of (zeros NODE_STATUSES) k)"
    using count_nodes_lookup [of "zeros NODE_STATUSES" ?now "nodes d"] by auto
  have dist: "distinct (map fst ?jc)" "distinct (map fst nc)"
    by (simp_all add: tally_keys nc(2) JOB_STATUS_LABELS_def NODE_STATUSES_def)
  have metrics: "distinct (map metric_key (node_metrics d))" using ok by (simp add: db_ok_def metrics_ok_def)
  have known: "j_status j \<in> set JOB_STATUS_LABELS" if "j \<in> set (jobs d)" for j
  proof -
    have "job_ok j" using jobs_okD(1) [OF db_ok_jobs [OF ok]] that by simp
    then show ?thesis by (auto simp: job_ok_def JOB_STATUS_LABELS_def job_status_defs split: if_splits)
  qed
  have "sum_list (map (\<lambda>s. rows_with j_status s js) JOB_STATUS_LABELS) = int (length js)"
    if "\<forall>j \<in> set js. j_status j \<in> set JOB_STATUS_LABELS" for js
    using that by (induction js) (auto simp: JOB_STATUS_LABELS_def)
  then have total: "sum_list (map (\<lambda>s. rows_with j_status s (jobs d)) JOB_STATUS_LABELS) = int (length (jobs d))"
    using known by blast
  show ?thesis
    by (simp add: refresh_platform_gauges_def Let_def nc(1) clear_gauges_def gpu_gauges_fold total
        set_all_empty [OF dist(1)] set_all_empty [OF dist(2)] tally_lookup nc(3)
        set_all_empty [OF labelled_lookup(2) [OF metrics]] labelled_lookup(1) [OF metrics])
qed

theorem gauges_refreshed_witness:
  "\<forall>g. \<exists>g'. refresh_platform_gauges (demo_env 10) demo_running g = (Inr (), g') \<and>
    map_of (jobs_in_status g') ''running'' = Some 1"
proof
  fix g :: gauges
  have "rows_with j_status ''running'' (jobs demo_running) = 1" by code_simp
  with gauges_refreshed [OF reachable_demo(1), of "demo_env 10" g]
  show "\<exists>g'. refresh_platform_gauges (demo_env 10) demo_running g = (Inr (), g') \<and>
      map_of (jobs_in_status g') ''running'' = Some 1"
    by (auto simp: JOB_STATUS_LABELS_def)
qed

section \<open>The request counter\<close>

definition counter_value :: "(string \<times> string \<times> string) \<Rightarrow> http_metrics \<Rightarrow> int" where
  "counter_value l m = (case map_of (http_requests_total m) l of None \<Rightarrow> 0 | Some c \<Rightarrow> c)"

text \<open>The calls that belong to a series: answered, on its route, with its status.\<close>

definition belongs :: "(string \<times> string \<times> string) \<Rightarrow> call \<times> answer \<Rightarrow> bool" where
  "belongs l ca = (case ca of (c, a) \<Rightarrow> snd (call_route c) \<noteq> ''/metrics'' \<and>
     (case seen_status c a of None \<Rightarrow> False
      | Some code \<Rightarrow> l = (fst (call_route c), snd (call_route c), str_int code)))"

lemma counter_dispatch:
  "counter_value l (middleware_dispatch (fst (call_route c)) (snd (call_route c)) (seen_status c a) t m) =
     counter_value l m + (if belongs l (c, a) then 1 else 0)"
  by (auto simp: counter_value_def middleware_dispatch_def belongs_def inc_def update_conv' split: option.splits)

lemma endpoint_http: "p_http (snd (endpoint e c p)) = p_http p"
  by (auto simp: endpoint_def metrics_endpoint_def split: call.splits prod.splits sum.splits)

text \<open>
  C40. The request counter is exact: over any sequence of calls, the series of a method, a
  route template and a status grows by the number of calls on that route that were answered
  with that status; scrapes and requests that end in an unhandled exception, which the client
  sees as a 500, are in no series.
\<close>

theorem request_counter:
  "counter_value l (p_http (snd (process_calls cs p))) =
     counter_value l (p_http p) + int (length (filter (belongs l) (fst (process_calls cs p)))) \<and>
   (\<forall>e r q err d. serve e r q (p_db p) = (Inl err, d) \<longrightarrow> \<not> handled err \<longrightarrow>
     \<not> belongs l (Api r q, ApiAnswer (Inl err)) \<and> http_status q (Inl err) = 500)"
proof (intro conjI allI impI)
  show "counter_value l (p_http (snd (process_calls cs p))) =
     counter_value l (p_http p) + int (length (filter (belongs l) (fst (process_calls cs p))))"
  proof (induction cs p rule: process_calls.induct)
    case (2 e c t cs p)
    obtain a p1 where ep: "endpoint e c p = (a, p1)" by (cases "endpoint e c p")
    then have http: "p_http p1 = p_http p" using endpoint_http [of e c p] by simp
    let ?p = "p1\<lparr>p_http := middleware_dispatch (fst (call_route c)) (snd (call_route c))
                 (seen_status c a) t (p_http p1)\<rparr>"
    have call: "process_call e c t p = (a, ?p)" by (simp add: process_call_def ep)
    show ?case using "2.IH" [of a ?p]
      by (auto simp: call http counter_dispatch split: prod.splits)
  qed simp
qed (auto simp: belongs_def seen_status_def http_status_def handled_def)

theorem request_counter_witness:
  "\<forall>l. \<not> belongs l (Api as_user (PostJob (demo_submit\<lparr>r_gpu_count := 1, r_max_duration_seconds := 60, r_preferred_node_id := Some 5\<rparr>)),
     ApiAnswer (Inl (IntegrityError ''jobs_preferred_node_id_fkey'')))"
proof -
  let ?q = "PostJob (demo_submit\<lparr>r_gpu_count := 1, r_max_duration_seconds := 60, r_preferred_node_id := Some 5\<rparr>)"
  let ?p = "\<lparr>p_db = demo_queued, p_gauges = clear_gauges undefined,
    p_http = \<lparr>http_requests_total = [], http_request_durations = []\<rparr>\<rparr>"
  have "serve (demo_env 9) as_user ?q (p_db ?p) =
      (Inl (IntegrityError ''jobs_preferred_node_id_fkey''), demo_queued)" by code_simp
  moreover have "\<not> handled (IntegrityError ''jobs_preferred_node_id_fkey'')" by (simp add: handled_def)
  ultimately show ?thesis using request_counter [where cs = "[]" and p = ?p] by blast
qed

end
