(* ===== verification/Assignments.thy ===== *)
theory Assignments
  imports Lifecycle
begin

text \<open>
  A job that runs on a node stays there, with its request for cancellation if there is one,
  until that node reports its end: no other request takes a running job away.
\<close>

definition runs_on :: "uuid \<Rightarrow> uuid \<Rightarrow> db \<Rightarrow> bool" where
  "runs_on k i d \<longleftrightarrow> (case find_job k d of None \<Rightarrow> False | Some j \<Rightarrow> running_on i j)"

definition cancel_asked :: "uuid \<Rightarrow> db \<Rightarrow> bool" where
  "cancel_asked k d \<longleftrightarrow> (case find_job k d of None \<Rightarrow> False | Some j \<Rightarrow> j_cancel_requested_at j \<noteq> None)"

definition stays_on :: "uuid \<Rightarrow> job \<Rightarrow> job \<Rightarrow> bool" where
  "stays_on i j j' \<longleftrightarrow> (running_on i j \<longrightarrow> running_on i j' \<and>
     (j_cancel_requested_at j \<noteq> None \<longrightarrow> j_cancel_requested_at j' \<noteq> None))"

definition keeps_running :: "uuid \<Rightarrow> db \<Rightarrow> db \<Rightarrow> bool" where
  "keeps_running i d d' \<longleftrightarrow> (\<forall>k. runs_on k i d \<longrightarrow> runs_on k i d' \<and> (cancel_asked k d \<longrightarrow> cancel_asked k d'))"

lemma keeps_running_trans: "keeps_running i d d' \<Longrightarrow> keeps_running i d' d'' \<Longrightarrow> keeps_running i d d''"
  by (simp add: keeps_running_def)

lemma keeps_running_rows:
  assumes "\<And>k j. find_job k d = Some j \<Longrightarrow> \<exists>j'. find_job k d' = Some j' \<and> stays_on i j j'"
  shows "keeps_running i d d'"
proof -
  have "runs_on k i d' \<and> (cancel_asked k d \<longrightarrow> cancel_asked k d')" if "runs_on k i d" for k
  proof -
    from that obtain j where j: "find_job k d = Some j" "running_on i j"
      by (auto simp: runs_on_def split: option.splits)
    with assms [OF j(1)] show ?thesis by (auto simp: runs_on_def cancel_asked_def stays_on_def)
  qed
  then show ?thesis by (simp add: keeps_running_def)
qed

lemma keeps_running_same: "jobs d' = jobs d \<Longrightarrow> keeps_running i d d'"
  by (rule keeps_running_rows) (simp add: stays_on_def)

lemma keeps_running_add: "jobs d' = jobs d @ [j] \<Longrightarrow> keeps_running i d d'"
  by (rule keeps_running_rows) (simp add: stays_on_def lookup_row_append)

lemma keeps_running_put:
  assumes "find_job (j_id j') d = Some j" and "stays_on i j j'" and "jobs d' = put_row j_id j' (jobs d)"
  shows "keeps_running i d d'"
  using assms by (intro keeps_running_rows) (auto simp: lookup_row_put stays_on_def)

lemma lookup_forget:
  "lookup_row j_id k (map (forget_node n) js) = map_option (forget_node n) (lookup_row j_id k js)"
  by (induction js) (auto simp: lookup_row_def)

lemma keeps_running_forget:
  assumes "find (running_on n) (jobs d) = None" and "jobs d' = map (forget_node n) (jobs d)"
  shows "keeps_running i d d'"
proof (rule keeps_running_rows)
  fix k j assume j: "find_job k d = Some j"
  then have "\<not> running_on n j" using assms(1) lookup_row_SomeD [OF j] by (auto simp: find_None_iff)
  then have "stays_on i j (forget_node n j)" by (auto simp: stays_on_def running_on_def)
  moreover have "find_job k d' = Some (forget_node n j)"
    using j assms(2) lookup_forget by simp
  ultimately show "\<exists>j'. find_job k d' = Some j' \<and> stays_on i j j'" by blast
qed

section \<open>Every request but a report\<close>

lemma after_jobs_keep: "keeps (jobs_are (jobs d)) m \<Longrightarrow> after (keeps_running i) m d"
proof -
  assume k: "keeps (jobs_are (jobs d)) m"
  have "wp m (\<lambda>_ s. jobs (committed s) = jobs d \<and> jobs (working s) = jobs d) (begin_session d)"
    using k by (simp add: keeps_def)
  then show ?thesis unfolding after_def by (rule wp_mono) (simp add: keeps_running_same)
qed

lemma submit_keeps_running: "after (keeps_running i) (submit e u img cmd g t p ip ua) d"
proof -
  have "keeps_running i d w" if "insert_job j d = Inr d'" "jobs w = jobs d'" for j d' w
    using that by (intro keeps_running_add [of w d j]) (auto simp: insert_job_def split: if_splits)
  then show ?thesis
    by (auto simp: after_def submit_def job_repo_create_def Let_def wp_simps keeps_running_same
        split: sum.splits intro!: wp_audit_jobs)
qed

text \<open>A job that is picked from the queue was not running.\<close>

lemma claim_keeps_running:
  assumes "db_ok d"
  shows "after (keeps_running i) (claim_for_node e nd) d"
proof -
  have "keeps_running i d w"
    if cand: "next_claimable e (n_id nd) g (jobs d) = Some j"
      and assign: "assign_job (j\<lparr>j_status := ''running'', j_assigned_node_id := Some (n_id nd),
        j_started_at := Some now\<rparr>) d = Inr d'" and w: "jobs w = jobs d'" for g j now d' w
  proof -
    note jd = next_claimable_in [OF cand]
    have cur: "find_job (j_id j) d = Some j"
      using lookup_row_distinct [OF jobs_ok_distinct [OF db_ok_jobs [OF assms]]] jd by simp
    have "\<not> running_on i j" using jd by (simp add: claimable_def running_on_def)
    then show ?thesis using assign w cur
      by (intro keeps_running_put [of "j\<lparr>j_status := ''running'', j_assigned_node_id := Some (n_id nd),
          j_started_at := Some now\<rparr>" d j])
        (auto simp: stays_on_def assign_job_def flush_job_def split: if_splits)
  qed
  then show ?thesis
    by (auto simp: after_def claim_for_node_def job_repo_get_running_for_node_def
        job_repo_claim_next_for_node_def Let_def wp_simps keeps_running_same
        split: sum.splits option.splits intro!: wp_audit_jobs)
qed

lemma cancel_keeps_running:
  assumes "find_job k d = Some j"
  shows "wp (cancel_or_request_cancel e j ev u uid extra ip ua)
    (\<lambda>_ s. keeps_running i d (committed s)) (begin_session d)"
proof -
  note cur = find_job_current [OF assms]
  have c: "keeps_running i d w" if "jobs w = put_row j_id (j\<lparr>j_status := CANCELLED, j_exit_code := None,
      j_error_message := msg, j_completed_at := Some now\<rparr>) (jobs d)" "j_status j = QUEUED" for w msg now
    using cur that by (intro keeps_running_put [OF _ _ that(1)]) (auto simp: stays_on_def running_on_def QUEUED_def)
  have r: "keeps_running i d w" if "jobs w = put_row j_id (j\<lparr>j_cancel_requested_at := Some now\<rparr>) (jobs d)" for w now
    using cur by (intro keeps_running_put [OF _ _ that]) (auto simp: stays_on_def running_on_def)
  show ?thesis using assms
    by (auto simp: cancel_or_request_cancel_def job_repo_mark_terminal_def job_repo_request_cancel_def
        flush_job_def wp_simps Let_def keeps_running_same intro!: wp_audit_jobs intro: c r)
qed

lemma cancels_keep_running:
  "after (keeps_running i) (cancel_job e u k ip ua) d" "after (keeps_running i) (admin_force_kill e u k ip ua) d"
  by (auto simp: after_def cancel_job_def admin_force_kill_def job_repo_get_by_id_def wp_simps
      keeps_running_same split: option.splits intro: cancel_keeps_running)

lemma delete_keeps_running: "after (keeps_running i) (delete_node e u n ip ua actor) d"
proof -
  have "keeps_running i d w'" if "find (running_on k) (jobs d) = None" "jobs w = jobs d"
    "delete_node_row k w = Inr w'" for k w w'
    using that by (intro keeps_running_forget [OF that(1)]) (auto simp: delete_node_row_def)
  then show ?thesis
    by (auto simp: after_def delete_node_def get_owned_for_actor_def node_repo_get_by_id_def
        job_repo_get_running_for_node_def node_repo_delete_def wp_simps keeps_running_same
        split: option.splits sum.splits intro!: wp_audit_jobs)
qed

interpretation assignments: unreported_contract "keeps_running i" for i
  by unfold_locales
    (auto intro: keeps_running_same after_jobs_keep keeps_jobs_accounts keeps_jobs_nodes
      submit_keeps_running claim_keeps_running cancels_keep_running delete_keeps_running)

section \<open>Reports of other nodes\<close>

text \<open>A report is accepted only for a job of the node that sends it.\<close>

lemma complete_keeps_running:
  assumes "db_ok d" and "n_id nd \<noteq> i"
  shows "after (keeps_running i) (complete_job e nd k code msg) d"
proof (cases "find_job k d")
  case None
  then show ?thesis
    by (simp add: after_def complete_job_def job_repo_get_by_id_def wp_simps keeps_running_same)
next
  case (Some j)
  have put: "keeps_running i d w" if "jobs w = put_row j_id (j\<lparr>j_status := t, j_exit_code := Some code,
      j_error_message := msg, j_completed_at := Some now\<rparr>) (jobs d)"
    "j_assigned_node_id j = Some (n_id nd)" for w now t
    using find_job_current [OF Some] that assms(2)
    by (intro keeps_running_put [OF _ _ that(1)]) (auto simp: stays_on_def running_on_def)
  show ?thesis using Some assms(1)
    by (auto simp: after_def complete_job_def job_repo_get_by_id_def job_repo_mark_terminal_def
        flush_job_def wp_simps Let_def keeps_running_same intro!: wp_charge_user wp_audit_jobs put)
qed

text \<open>Who a request comes from, if it carries the token of a node.\<close>

definition caller_node :: "env \<Rightarrow> http_request \<Rightarrow> db \<Rightarrow> uuid option" where
  "caller_node e r d = (case fst (get_current_node e r (begin_session d)) of Inl _ \<Rightarrow> None | Inr nd \<Rightarrow> Some (n_id nd))"

definition reports_as :: "uuid \<Rightarrow> db \<Rightarrow> action \<Rightarrow> bool" where
  "reports_as i d a \<longleftrightarrow> (case a of Http e r (PostComplete k code msg) \<Rightarrow> caller_node e r d = Some i | _ \<Rightarrow> False)"

lemma action_keeps_running:
  assumes "db_ok d" and "\<not> reports_as i d a"
  shows "keeps_running i d (execute a d)"
proof (cases "\<exists>e r k code msg. a = Http e r (PostComplete k code msg)")
  case True
  then obtain e r k code msg where a: "a = Http e r (PostComplete k code msg)" by blast
  have "after (keeps_running i) (h_complete_job e r k code msg) d"
    unfolding h_complete_job_def
  proof (rule after_read_then)
    fix nd assume "fst (get_current_node e r (begin_session d)) = Inr nd"
    with assms(2) a have "n_id nd \<noteq> i" by (simp add: reports_as_def caller_node_def)
    then show "after (keeps_running i) (validated (complete_request_ok code msg)
        (bindS (complete_job e nd k code msg) (\<lambda>j. ret (job_view j)))) d"
      by (intro after_validated after_then_read complete_keeps_running assms(1) keeps_running_same)
        (auto intro: reads_intros)
  qed (auto intro: reads_intros keeps_running_same)
  then show ?thesis by (simp add: a serve_def after_run after_respond)
qed (use assms(1) in \<open>auto intro: assignments.executed_unreported\<close>)

end
