(* ===== verification/Agent.thy ===== *)
theory Agent
  imports Assignments
begin

text \<open>
  The node agent (\<open>src/node-agent/internal/agent/daemon.go\<close>) and its composition with the
  control plane. The daemon is a polling loop and one goroutine per job it was given; the
  events are the points at which they interact with each other, with the container and with
  the control plane. A request can be lost, and so can its reply; other clients act in
  between, and the process can be stopped at any time.
\<close>

section \<open>Talking to the control plane\<close>

text \<open>
  A call of \<open>httpClient.Do\<close>. The daemon treats a transport error and a status other than 2xx
  alike: it writes a line to its own log.
\<close>

datatype delivery = Delivered | RequestLost | ReplyLost

definition exchange :: "delivery \<Rightarrow> env \<Rightarrow> http_request \<Rightarrow> request \<Rightarrow> db \<Rightarrow> response option \<times> db" where
  "exchange dl e r q d =
     (case dl of
        RequestLost \<Rightarrow> (None, d)
      | ReplyLost \<Rightarrow> (None, snd (serve e r q d))
      | Delivered \<Rightarrow> (case serve e r q d of (Inl err, d') \<Rightarrow> (None, d') | (Inr x, d') \<Rightarrow> (Some x, d')))"

record agent_config =
  cfg_node :: uuid
  cfg_token :: string

definition agent_request :: "agent_config \<Rightarrow> http_request" where
  "agent_request cfg = \<lparr>credentials = Some (cfg_token cfg), client_host = None,
     user_agent_header = Some ''Go-http-client/1.1''\<rparr>"

section \<open>The log pump\<close>

record log_pump =
  pump_buf :: "log_entry list"
  pump_next_seq :: int

definition new_log_pump :: log_pump where
  "new_log_pump = \<lparr>pump_buf = [], pump_next_seq = 0\<rparr>"

definition emit :: "string \<Rightarrow> string \<Rightarrow> log_pump \<Rightarrow> log_pump" where
  "emit stream line p =
     (if line = [] then p
      else p\<lparr>pump_buf := pump_buf p @ [\<lparr>e_stream = stream, e_content = line, e_sequence = pump_next_seq p\<rparr>],
             pump_next_seq := pump_next_seq p + 1\<rparr>)"

text \<open>A flush takes the buffer and posts it; whatever becomes of the request, the batch is gone.\<close>

definition take_batch :: "log_pump \<Rightarrow> log_entry list \<times> log_pump" where
  "take_batch p = (pump_buf p, p\<lparr>pump_buf := []\<rparr>)"

definition flush_pump ::
  "agent_config \<Rightarrow> delivery \<Rightarrow> env \<Rightarrow> uuid \<Rightarrow> log_pump \<Rightarrow> db \<Rightarrow> log_pump \<times> db" where
  "flush_pump cfg dl e job_id p d =
     (if pump_buf p = [] then (p, d)
      else let (batch, p') = take_batch p in
        (p', snd (exchange dl e (agent_request cfg) (PostLogs job_id batch) d)))"

text \<open>\<open>strings.TrimRight(scanner.Text(), "\r\n")\<close>; empty lines are skipped.\<close>

definition stream_line :: "string \<Rightarrow> string" where
  "stream_line s = rev (dropWhile (\<lambda>c. c = CHR 0x0D \<or> c = CHR 0x0A) (rev s))"

section \<open>Running a container\<close>

text \<open>What \<open>docker pull\<close> and \<open>docker run\<close> come to, as \<open>os/exec\<close> reports it.\<close>

datatype pull_outcome = Pulled | PullPipe string | PullStart string | PullFailed string
datatype run_outcome = Exited int | RunPipe string | RunStart string | RunFailed string

definition docker_runner :: "pull_outcome \<Rightarrow> run_outcome \<Rightarrow> int \<times> string option" where
  "docker_runner pull run =
     (case pull of
        PullPipe m \<Rightarrow> (-1, Some m)
      | PullStart m \<Rightarrow> (-1, Some (''docker pull start: '' @ m))
      | PullFailed m \<Rightarrow> (-1, Some (''docker pull failed: '' @ m))
      | Pulled \<Rightarrow> (case run of
          RunPipe m \<Rightarrow> (-1, Some m)
        | RunStart m \<Rightarrow> (-1, Some (''docker run start: '' @ m))
        | Exited code \<Rightarrow> (code, None)
        | RunFailed m \<Rightarrow> (-1, Some m)))"

section \<open>The state of the daemon\<close>

datatype run_context = Active | DeadlineExceeded | Cancelled

text \<open>
  How far \<open>runJob\<close> has got: started with \<open>go\<close>, in \<open>runner.Run\<close>, about to call
  \<open>complete\<close>, in its deferred calls, or returned.
\<close>

datatype run_phase = Spawned | Executing | Reporting int "string option" | Finishing | Returned

record job_run =
  run_job :: job_assignment
  run_ctx :: run_context
  run_pump :: log_pump
  run_phase :: run_phase

text \<open>\<open>tickOnce\<close> waits for a tick, has its heartbeat answered, or is about to claim.\<close>

datatype tick_phase = Polling | Polled "uuid option" | Claiming

record daemon =
  dm_runs :: "job_run list"
  dm_running_id :: "uuid option"
  dm_cancel_run :: "nat option"
  dm_tick :: tick_phase
  dm_stopping :: bool

definition new_daemon :: daemon where
  "new_daemon = \<lparr>dm_runs = [], dm_running_id = None, dm_cancel_run = None, dm_tick = Polling, dm_stopping = False\<rparr>"

record world =
  plane :: db
  agent :: daemon

definition run_id :: "job_run \<Rightarrow> uuid" where
  "run_id r = ja_job_id (run_job r)"

definition set_run :: "nat \<Rightarrow> job_run \<Rightarrow> daemon \<Rightarrow> daemon" where
  "set_run k r dm = dm\<lparr>dm_runs := (dm_runs dm)[k := r]\<rparr>"

text \<open>The goroutine \<open>k\<close>, if it has been started and is where \<open>ready\<close> says.\<close>

definition run_at :: "nat \<Rightarrow> (run_phase \<Rightarrow> bool) \<Rightarrow> daemon \<Rightarrow> job_run option" where
  "run_at k ready dm =
     (if k < length (dm_runs dm) \<and> ready (run_phase (dm_runs dm ! k)) then Some (dm_runs dm ! k) else None)"

text \<open>A context is done once, with its first cause.\<close>

definition cancel_context :: "run_context \<Rightarrow> job_run \<Rightarrow> job_run" where
  "cancel_context cause r = (if run_ctx r = Active then r\<lparr>run_ctx := cause\<rparr> else r)"

section \<open>\<open>tickOnce\<close>\<close>

text \<open>Each event is \<open>None\<close> in a state in which it cannot happen.\<close>

definition heartbeat_event :: "agent_config \<Rightarrow> env \<Rightarrow> delivery \<Rightarrow> world \<Rightarrow> world option" where
  "heartbeat_event cfg e dl w =
     (if dm_tick (agent w) \<noteq> Polling \<or> dm_stopping (agent w) then None
      else let (x, d) = exchange dl e (agent_request cfg) (PostHeartbeat (cfg_node cfg)) (plane w) in
        Some (w\<lparr>plane := d, agent := (agent w)\<lparr>dm_tick :=
          (case x of Some (RHeartbeat hr) \<Rightarrow> Polled (hr_cancel_job_id hr) | _ \<Rightarrow> Polling)\<rparr>\<rparr>))"

text \<open>Under the mutex: a busy daemon cancels if it was asked to, an idle one claims.\<close>

definition decide_event :: "world \<Rightarrow> world option" where
  "decide_event w =
     (case dm_tick (agent w) of
        Polled target \<Rightarrow>
          (let dm = agent w in
           if dm_running_id dm = None then Some (w\<lparr>agent := dm\<lparr>dm_tick := Claiming\<rparr>\<rparr>)
           else let dm' = (case (target, dm_cancel_run dm) of
                  (Some _, Some k) \<Rightarrow> set_run k (cancel_context Cancelled (dm_runs dm ! k)) dm
                | _ \<Rightarrow> dm) in
             Some (w\<lparr>agent := dm'\<lparr>dm_tick := Polling\<rparr>\<rparr>))
      | _ \<Rightarrow> None)"

definition claim_event :: "agent_config \<Rightarrow> env \<Rightarrow> delivery \<Rightarrow> world \<Rightarrow> world option" where
  "claim_event cfg e dl w =
     (if dm_tick (agent w) \<noteq> Claiming \<or> dm_stopping (agent w) then None
      else let (x, d) = exchange dl e (agent_request cfg) PostClaim (plane w); dm = agent w in
        Some (w\<lparr>plane := d, agent := dm\<lparr>dm_tick := Polling, dm_runs :=
          (case x of
             Some (RAssignment a) \<Rightarrow> dm_runs dm @
               [\<lparr>run_job = a, run_ctx = Active, run_pump = new_log_pump, run_phase = Spawned\<rparr>]
           | _ \<Rightarrow> dm_runs dm)\<rparr>\<rparr>))"

section \<open>\<open>runJob\<close>\<close>

text \<open>The context of a run is derived from the one of the daemon, so it is cancelled with it.\<close>

definition started :: "agent_config \<Rightarrow> bool \<Rightarrow> job_run \<Rightarrow> job_run" where
  "started cfg stopping r = r\<lparr>run_phase := Executing, run_ctx := (if stopping then Cancelled else Active),
     run_pump := emit ''system'' (''Job '' @ str_uuid (run_id r) @ '' assigned to node '' @ str_uuid (cfg_node cfg))
       (run_pump r)\<rparr>"

definition start_event :: "agent_config \<Rightarrow> nat \<Rightarrow> world \<Rightarrow> world option" where
  "start_event cfg k w =
     (case run_at k (\<lambda>p. p = Spawned) (agent w) of
        None \<Rightarrow> None
      | Some r \<Rightarrow> Some (w\<lparr>agent := (set_run k (started cfg (dm_stopping (agent w)) r) (agent w))\<lparr>
          dm_running_id := Some (run_id r), dm_cancel_run := Some k\<rparr>\<rparr>))"

text \<open>A line of output reaches the pump.\<close>

definition printed :: "string \<Rightarrow> string \<Rightarrow> job_run \<Rightarrow> job_run" where
  "printed stream line r = r\<lparr>run_pump := emit stream (stream_line line) (run_pump r)\<rparr>"

definition output_event :: "nat \<Rightarrow> string \<Rightarrow> string \<Rightarrow> world \<Rightarrow> world option" where
  "output_event k stream line w =
     (case run_at k (\<lambda>p. p = Executing) (agent w) of
        None \<Rightarrow> None
      | Some r \<Rightarrow> Some (w\<lparr>agent := set_run k (printed stream line r) (agent w)\<rparr>))"

definition timeout_event :: "nat \<Rightarrow> world \<Rightarrow> world option" where
  "timeout_event k w =
     (case run_at k (\<lambda>p. p = Executing) (agent w) of
        None \<Rightarrow> None
      | Some r \<Rightarrow> Some (w\<lparr>agent := set_run k (cancel_context DeadlineExceeded r) (agent w)\<rparr>))"

text \<open>From the return of \<open>runner.Run\<close> to the call of \<open>complete\<close>.\<close>

definition run_result :: "run_context \<Rightarrow> int \<times> string option \<Rightarrow> int \<times> string option" where
  "run_result ctx res =
     (if ctx = Cancelled then (-1, Some ''cancelled by user'')
      else case res of
        (code, None) \<Rightarrow> (code, None)
      | (code, Some m) \<Rightarrow> (if code = 0 then 1 else code, Some m))"

definition final_lines :: "run_context \<Rightarrow> int \<times> string option \<Rightarrow> log_pump \<Rightarrow> log_pump" where
  "final_lines ctx res p =
     emit ''system'' (''Container exited (code '' @ str_int (fst (run_result ctx res)) @ '')'')
      ((if ctx = Cancelled then emit ''system'' ''Cancelled by user request'' else id)
      ((case snd res of None \<Rightarrow> id | Some m \<Rightarrow> emit ''system'' (''Runner error: '' @ m)) p))"

definition returned :: "int \<times> string option \<Rightarrow> job_run \<Rightarrow> job_run" where
  "returned res r = r\<lparr>
     run_phase := Reporting (fst (run_result (run_ctx r) res)) (snd (run_result (run_ctx r) res)),
     run_pump := final_lines (run_ctx r) res (run_pump r)\<rparr>"

definition return_event :: "nat \<Rightarrow> pull_outcome \<Rightarrow> run_outcome \<Rightarrow> world \<Rightarrow> world option" where
  "return_event k pull run w =
     (case run_at k (\<lambda>p. p = Executing) (agent w) of
        None \<Rightarrow> None
      | Some r \<Rightarrow> Some (w\<lparr>agent := set_run k (returned (docker_runner pull run) r) (agent w)\<rparr>))"

text \<open>\<open>complete\<close> is called once, with no retry.\<close>

definition report_event :: "agent_config \<Rightarrow> nat \<Rightarrow> env \<Rightarrow> delivery \<Rightarrow> world \<Rightarrow> world option" where
  "report_event cfg k e dl w =
     (case run_at k (\<lambda>_. True) (agent w) of
        None \<Rightarrow> None
      | Some r \<Rightarrow> (case run_phase r of
          Reporting code msg \<Rightarrow> Some (w\<lparr>
            plane := snd (exchange dl e (agent_request cfg) (PostComplete (run_id r) code msg) (plane w)),
            agent := set_run k (r\<lparr>run_phase := Finishing\<rparr>) (agent w)\<rparr>)
        | _ \<Rightarrow> None))"

text \<open>The background flusher runs until the deferred calls stop it and flush what is left.\<close>

definition flush_event :: "agent_config \<Rightarrow> nat \<Rightarrow> env \<Rightarrow> delivery \<Rightarrow> world \<Rightarrow> world option" where
  "flush_event cfg k e dl w =
     (case run_at k (\<lambda>p. p \<noteq> Spawned \<and> p \<noteq> Returned) (agent w) of
        None \<Rightarrow> None
      | Some r \<Rightarrow> (let (p, d) = flush_pump cfg dl e (run_id r) (run_pump r) (plane w) in
          Some (w\<lparr>plane := d, agent := set_run k (r\<lparr>run_pump := p\<rparr>) (agent w)\<rparr>)))"

definition end_event :: "agent_config \<Rightarrow> nat \<Rightarrow> env \<Rightarrow> delivery \<Rightarrow> world \<Rightarrow> world option" where
  "end_event cfg k e dl w =
     (case run_at k (\<lambda>p. p = Finishing) (agent w) of
        None \<Rightarrow> None
      | Some r \<Rightarrow> (let (p, d) = flush_pump cfg dl e (run_id r) (run_pump r) (plane w) in
          Some (w\<lparr>plane := d, agent := (set_run k (r\<lparr>run_pump := p, run_phase := Returned\<rparr>) (agent w))\<lparr>
            dm_running_id := None, dm_cancel_run := None\<rparr>\<rparr>)))"

section \<open>Stopping, and everybody else\<close>

text \<open>
  SIGINT and SIGTERM cancel the context of the daemon, and \<open>Run\<close> returns; the process then
  ends with whatever goroutines it still has. It is started again with the same configuration.
\<close>

definition signal_event :: "world \<Rightarrow> world option" where
  "signal_event w = Some (w\<lparr>agent := (agent w)\<lparr>dm_stopping := True,
     dm_runs := map (\<lambda>r. if run_phase r = Spawned then r else cancel_context Cancelled r) (dm_runs (agent w))\<rparr>\<rparr>)"

definition exit_event :: "world \<Rightarrow> world option" where
  "exit_event w = Some (w\<lparr>agent := new_daemon\<rparr>)"

datatype event =
    HeartbeatSent env delivery
  | TickDecides
  | ClaimSent env delivery
  | RunStarts nat
  | RunPrints nat string string
  | RunTimesOut nat
  | RunReturns nat pull_outcome run_outcome
  | ReportSent nat env delivery
  | LogsFlushed nat env delivery
  | RunEnds nat env delivery
  | Signalled
  | ProcessExits
  | OthersAct action

fun perform :: "agent_config \<Rightarrow> event \<Rightarrow> world \<Rightarrow> world option" where
  "perform cfg (HeartbeatSent e dl) w = heartbeat_event cfg e dl w"
| "perform cfg TickDecides w = decide_event w"
| "perform cfg (ClaimSent e dl) w = claim_event cfg e dl w"
| "perform cfg (RunStarts k) w = start_event cfg k w"
| "perform cfg (RunPrints k stream line) w = output_event k stream line w"
| "perform cfg (RunTimesOut k) w = timeout_event k w"
| "perform cfg (RunReturns k pull run) w = return_event k pull run w"
| "perform cfg (ReportSent k e dl) w = report_event cfg k e dl w"
| "perform cfg (LogsFlushed k e dl) w = flush_event cfg k e dl w"
| "perform cfg (RunEnds k e dl) w = end_event cfg k e dl w"
| "perform cfg Signalled w = signal_event w"
| "perform cfg ProcessExits w = exit_event w"
| "perform cfg (OthersAct a) w = Some (w\<lparr>plane := execute a (plane w)\<rparr>)"

text \<open>
  The token of the agent is its own: it authenticates no other node, and nobody else reports
  the end of a job as this node.
\<close>

definition own_token :: "agent_config \<Rightarrow> env \<Rightarrow> db \<Rightarrow> bool" where
  "own_token cfg e d \<longleftrightarrow> (case caller_node e (agent_request cfg) d of None \<Rightarrow> True | Some i \<Rightarrow> i = cfg_node cfg)"

fun trusted :: "agent_config \<Rightarrow> event \<Rightarrow> world \<Rightarrow> bool" where
  "trusted cfg (HeartbeatSent e dl) w = own_token cfg e (plane w)"
| "trusted cfg (ClaimSent e dl) w = own_token cfg e (plane w)"
| "trusted cfg (OthersAct a) w = (\<not> reports_as (cfg_node cfg) (plane w) a)"
| "trusted cfg _ w = True"

inductive agent_step :: "agent_config \<Rightarrow> world \<Rightarrow> world \<Rightarrow> bool" for cfg where
  agent_event: "trusted cfg ev w \<Longrightarrow> perform cfg ev w = Some w' \<Longrightarrow> agent_step cfg w w'"

inductive agent_runs :: "agent_config \<Rightarrow> world \<Rightarrow> world \<Rightarrow> bool" for cfg where
  runs_refl: "agent_runs cfg w w"
| runs_step: "agent_runs cfg w w' \<Longrightarrow> agent_step cfg w' w'' \<Longrightarrow> agent_runs cfg w w''"

text \<open>A control plane that is in use, and an agent that has just been started.\<close>

definition agent_reaches :: "agent_config \<Rightarrow> world \<Rightarrow> bool" where
  "agent_reaches cfg w \<longleftrightarrow> (\<exists>d. reachable d \<and> agent_runs cfg \<lparr>plane = d, agent = new_daemon\<rparr> w)"

text \<open>A list of events, as far as it can happen.\<close>

fun run_events :: "agent_config \<Rightarrow> event list \<Rightarrow> world \<Rightarrow> world option" where
  "run_events cfg [] w = Some w"
| "run_events cfg (ev # evs) w =
     (if trusted cfg ev w
      then case perform cfg ev w of None \<Rightarrow> None | Some w' \<Rightarrow> run_events cfg evs w' else None)"

lemma run_events_runs: "run_events cfg evs w' = Some w'' \<Longrightarrow> agent_runs cfg w w' \<Longrightarrow> agent_runs cfg w w''"
proof (induction evs arbitrary: w')
  case (Cons ev evs)
  then obtain v where v: "trusted cfg ev w'" "perform cfg ev w' = Some v" "run_events cfg evs v = Some w''"
    by (auto split: if_splits option.splits)
  from Cons.prems(2) agent_event [OF v(1,2)] have "agent_runs cfg w v" by (rule runs_step)
  with v(3) show ?case by (rule Cons.IH)
qed simp

end
