(* ===== verification/AgentInvariant.thy ===== *)
theory AgentInvariant
  imports Agent FleetTheorems
begin

text \<open>
  The agent and the control plane together: an invariant of the two that every event keeps.
  What the daemon believes about its jobs is what the database says.
\<close>

section \<open>Single exchanges\<close>

lemma exchange_state: "snd (exchange dl e r q d) = d \<or> snd (exchange dl e r q d) = execute (Http e r q) d"
  by (auto simp: exchange_def split: delivery.splits prod.splits sum.splits)

lemma exchange_reply:
  "fst (exchange dl e r q d) = Some x \<Longrightarrow> serve e r q d = (Inr x, snd (exchange dl e r q d))"
  by (auto simp: exchange_def split: delivery.splits prod.splits sum.splits)

lemma exchange_ok: "db_ok d \<Longrightarrow> db_ok (snd (exchange dl e r q d))"
  using exchange_state [of dl e r q d] integrity.executed [of d "Http e r q"] by auto

lemma exchange_keeps_running:
  assumes "db_ok d" and "\<And>k code msg. q \<noteq> PostComplete k code msg"
  shows "keeps_running i d (snd (exchange dl e r q d))"
proof -
  have "\<not> reports_as i d (Http e r q)" using assms(2) by (auto simp: reports_as_def split: request.splits)
  from action_keeps_running [OF assms(1) this] exchange_state [of dl e r q d] show ?thesis
    by (auto simp: keeps_running_same)
qed

lemma runs_on_iff:
  assumes "db_ok d"
  shows "runs_on k i d \<longleftrightarrow> (\<exists>j \<in> set (jobs d). j_id j = k \<and> running_on i j)"
proof -
  have "find_job (j_id j) d = Some j" if "j \<in> set (jobs d)" for j
    using that jobs_ok_distinct [OF db_ok_jobs [OF assms]] by (intro lookup_row_distinct)
  then show ?thesis by (auto simp: runs_on_def dest: lookup_row_SomeD split: option.splits)
qed

lemma one_job_runs:
  assumes "db_ok d" and "runs_on k i d" and "runs_on t i d"
  shows "k = t"
  using assms running_unique [OF assms(1)] unfolding runs_on_iff [OF assms(1)] by blast

lemma caller_run:
  assumes "serve e r q d = (Inr x, d')" and "q = PostClaim \<or> q = PostHeartbeat i"
  obtains nd where "get_current_node e r (begin_session d) = (Inr nd, begin_session d)"
    and "caller_node e r d = Some (n_id nd)"
proof -
  obtain y s where m: "get_current_node e r (begin_session d) = (y, s)" by (cases "get_current_node e r (begin_session d)")
  then have s: "s = begin_session d" using reads_current_node [of e r] by (auto simp: reads_def) (metis snd_conv)
  have "\<exists>nd. y = Inr nd"
    using assms m by (auto simp: serve_def h_claim_job_def h_heartbeat_def respond_def run_defs split: sum.splits)
  with m s that show thesis by (auto simp: caller_node_def)
qed

text \<open>A heartbeat names only a job that runs on this node and whose cancellation was requested.\<close>

lemma heartbeat_reply:
  assumes "db_ok d" and "serve e r (PostHeartbeat i) d = (Inr (RHeartbeat hr), d')" and "hr_cancel_job_id hr = Some t"
  shows "runs_on t i d' \<and> cancel_asked t d'"
proof -
  obtain nd where caller: "get_current_node e r (begin_session d) = (Inr nd, begin_session d)"
    using caller_run [OF assms(2)] by blast
  then have nd: "run_svc (get_current_node e r) d = (Inr nd, d)" by (simp add: run_defs)
  have run: "run_svc (h_heartbeat e r i) d = (Inr hr, d')"
    using assms(2) by (auto simp: serve_def respond_def run_defs split: prod.splits sum.splits)
  have "n_id nd = i" using heartbeat_outcome [OF assms(1) nd, of i] run by (auto split: if_splits)
  with heartbeat_outcome [OF assms(1) nd, of i] run assms(3)
  have d': "d' = projr (flush_node (nd\<lparr>n_last_seen_at := Some (clock e 0)\<rparr>) d)"
    and "\<exists>j \<in> set (jobs d). j_id j = t \<and> running_on i j \<and> j_cancel_requested_at j \<noteq> None" by auto
  then obtain j where j: "j \<in> set (jobs d)" "j_id j = t" "running_on i j" "j_cancel_requested_at j \<noteq> None" by blast
  have "find_job t d = Some j"
    using lookup_row_distinct [OF jobs_ok_distinct [OF db_ok_jobs [OF assms(1)]] j(1)] j(2) by simp
  with j(3,4) show ?thesis by (simp add: d' flush_node_def runs_on_def cancel_asked_def)
qed

text \<open>A node that is given a job had none, and has this one then.\<close>

lemma claim_reply:
  assumes "db_ok d" and "serve e r PostClaim d = (Inr (RAssignment a), d')" and "caller_node e r d = Some i"
  shows "runs_on (ja_job_id a) i d' \<and> (\<forall>k. \<not> runs_on k i d)"
proof -
  obtain nd where nd: "get_current_node e r (begin_session d) = (Inr nd, begin_session d)"
    and "caller_node e r d = Some (n_id nd)"
    using caller_run [OF assms(2) disjI1 [OF refl]] by blast
  then have "n_id nd = i" using assms(3) by simp
  obtain y s where y: "claim_for_node e nd (begin_session d) = (y, s)" by (cases "claim_for_node e nd (begin_session d)")
  with nd have h: "h_claim_job e r (begin_session d) = (map_sum id (map_option job_assignment_of) y, s)"
    by (cases y) (simp_all add: h_claim_job_def bindS_def ret_def)
  have "\<exists>j'. y = Inr (Some j') \<and> committed s = d' \<and> a = job_assignment_of j'"
    using assms(2) h by (cases y) (auto simp: serve_def respond_def run_svc_def bindS_def ret_def split: option.splits)
  with y have "\<exists>j'. run_svc (claim_for_node e nd) d = (Inr (Some j'), d') \<and> a = job_assignment_of j'"
    by (auto simp: run_svc_def)
  then obtain j' where j': "run_svc (claim_for_node e nd) d = (Inr (Some j'), d')" "a = job_assignment_of j'" by blast
  from claim_result [OF j'(1)] obtain j where
    c: "next_claimable e (n_id nd) (n_gpu_count nd) (jobs d) = Some j"
      "j' = j\<lparr>j_status := RUNNING, j_assigned_node_id := Some (n_id nd), j_started_at := Some (clock e 0)\<rparr>"
      "jobs d' = put_row j_id j' (jobs d)" "find (running_on (n_id nd)) (jobs d) = None" by blast
  have "j \<in> set (jobs d)" using next_claimable_in [OF c(1)] by simp
  then have "find_job (j_id j) d = Some j"
    by (rule lookup_row_distinct [OF jobs_ok_distinct [OF db_ok_jobs [OF assms(1)]]])
  then have "find_job (j_id j') d' = Some j'" unfolding c(3) lookup_row_put by (simp add: c(2))
  moreover have "\<not> runs_on k i d" for k
    using c(4) \<open>n_id nd = i\<close> unfolding runs_on_iff [OF assms(1)] by (auto simp: find_None_iff)
  ultimately show ?thesis
    using \<open>n_id nd = i\<close> by (simp add: runs_on_def j'(2) job_assignment_of_def running_on_def c(2) job_status_literals)
qed

section \<open>What the daemon and the database agree on\<close>

text \<open>A run is live until its end has been reported.\<close>

definition live :: "job_run \<Rightarrow> bool" where
  "live r = (case run_phase r of Finishing \<Rightarrow> False | Returned \<Rightarrow> False | _ \<Rightarrow> True)"

definition consistent :: "uuid \<Rightarrow> db \<Rightarrow> job_run list \<Rightarrow> tick_phase \<Rightarrow> bool \<Rightarrow> bool" where
  "consistent n d rs tick stopping \<longleftrightarrow> db_ok d \<and>
     (\<forall>r \<in> set rs. live r \<longrightarrow> runs_on (run_id r) n d) \<and>
     (\<forall>k k'. k < length rs \<longrightarrow> k' < length rs \<longrightarrow> live (rs ! k) \<longrightarrow> live (rs ! k') \<longrightarrow> k = k') \<and>
     (\<forall>t. tick = Polled (Some t) \<longrightarrow> (\<forall>r \<in> set rs. live r \<longrightarrow> run_id r = t \<and> cancel_asked t d)) \<and>
     (\<forall>r \<in> set rs. live r \<longrightarrow> run_ctx r = Cancelled \<longrightarrow> stopping \<or> cancel_asked (run_id r) d)"

definition in_step :: "agent_config \<Rightarrow> world \<Rightarrow> bool" where
  "in_step cfg w \<longleftrightarrow> consistent (cfg_node cfg) (plane w) (dm_runs (agent w)) (dm_tick (agent w)) (dm_stopping (agent w))"

lemma consistent_plane:
  assumes "consistent n d rs tick st" and "db_ok d'" and "keeps_running n d d'"
  shows "consistent n d' rs tick st"
proof -
  have up: "runs_on (run_id r) n d' \<and> (cancel_asked (run_id r) d \<longrightarrow> cancel_asked (run_id r) d')"
    if "r \<in> set rs" "live r" for r
    using assms(1,3) that unfolding consistent_def keeps_running_def by blast
  have "run_id r = t \<and> cancel_asked t d'" if "tick = Polled (Some t)" "r \<in> set rs" "live r" for r t
  proof -
    have "run_id r = t \<and> cancel_asked t d" using assms(1) that unfolding consistent_def by blast
    with up [OF that(2,3)] show ?thesis by auto
  qed
  with up assms(1,2) show ?thesis unfolding consistent_def by blast
qed

lemma consistent_tick:
  "consistent n d rs tick st \<Longrightarrow> (\<And>t. tick' \<noteq> Polled (Some t)) \<Longrightarrow> consistent n d rs tick' st"
  by (simp add: consistent_def)

lemma consistent_idle:
  assumes "db_ok d" and "\<And>r. r \<in> set rs \<Longrightarrow> \<not> live r"
  shows "consistent n d rs tick st"
  using assms by (auto simp: consistent_def)

lemma consistent_run:
  assumes c: "consistent n d rs tick st" and k: "k < length rs" and "live r \<Longrightarrow> live (rs ! k)"
    and "run_id r = run_id (rs ! k)"
    and "live r \<Longrightarrow> run_ctx r = Cancelled \<Longrightarrow> st \<or> cancel_asked (run_id r) d"
  shows "consistent n d (rs[k := r]) tick st"
proof -
  have old: "rs ! k \<in> set rs" using k by simp
  have sub: "x = r \<or> x \<in> set rs" if "x \<in> set (rs[k := r])" for x
    using that set_update_subset_insert [of rs k r] by blast
  have one: "i = j" if "i < length rs" "j < length rs" "live (rs[k := r] ! i)" "live (rs[k := r] ! j)" for i j
  proof -
    have "live (rs ! i)" "live (rs ! j)"
      using that assms(3) k by (auto simp: nth_list_update split: if_splits)
    with c that(1,2) show ?thesis unfolding consistent_def by blast
  qed
  have "live x \<longrightarrow> runs_on (run_id x) n d" if "x \<in> set (rs[k := r])" for x
    using sub [OF that] c old assms(3,4) unfolding consistent_def by metis
  moreover have "live x \<longrightarrow> run_id x = t \<and> cancel_asked t d" if "tick = Polled (Some t)" "x \<in> set (rs[k := r])" for x t
    using sub [OF that(2)] that(1) c old assms(3,4) unfolding consistent_def by metis
  moreover have "live x \<longrightarrow> run_ctx x = Cancelled \<longrightarrow> st \<or> cancel_asked (run_id x) d" if "x \<in> set (rs[k := r])" for x
    using sub [OF that] c assms(5) unfolding consistent_def by metis
  ultimately show ?thesis using c one unfolding consistent_def by (simp add: one)
qed

text \<open>The report of the only live run: afterwards none is.\<close>

lemma consistent_reported:
  assumes c: "consistent n d rs tick st" and k: "k < length rs" and "live (rs ! k)" and "\<not> live r" and "db_ok d'"
  shows "consistent n d' (rs[k := r]) tick st"
proof (rule consistent_idle [OF assms(5)])
  fix x assume "x \<in> set (rs[k := r])"
  then obtain i where i: "i < length rs" "x = rs[k := r] ! i" by (auto simp: in_set_conv_nth)
  show "\<not> live x"
  proof (cases "i = k")
    case True
    with i k assms(4) show ?thesis by simp
  next
    case False
    with i have x: "x = rs ! i" by simp
    have "i = k" if "live x" using c that x i(1) k assms(3) unfolding consistent_def by blast
    with False show ?thesis by blast
  qed
qed

lemma consistent_spawn:
  assumes c: "consistent n d rs tick st" and "\<And>k. \<not> runs_on k n d" and "db_ok d'"
    and "runs_on (run_id r) n d'" and "run_ctx r = Active"
  shows "consistent n d' (rs @ [r]) Polling st"
proof -
  have none: "\<not> live x" if "x \<in> set rs" for x using c that assms(2) unfolding consistent_def by blast
  have "k = length rs" if "k < Suc (length rs)" "live ((rs @ [r]) ! k)" for k
    using that none [of "rs ! k"] by (cases "k < length rs") (simp_all add: nth_append)
  with none assms(3-5) show ?thesis by (auto simp: consistent_def)
qed

lemma consistent_signal:
  assumes c: "consistent n d rs tick st" and "\<And>r. live (f r) = live r \<and> run_id (f r) = run_id r"
  shows "consistent n d (map f rs) tick True"
  using assms unfolding consistent_def by auto

lemma runs_of_set_run [simp]:
  "dm_runs (set_run k r dm) = (dm_runs dm)[k := r]" "dm_tick (set_run k r dm) = dm_tick dm"
  "dm_stopping (set_run k r dm) = dm_stopping dm"
  by (simp_all add: set_run_def)

lemma run_atD: "run_at k ready dm = Some r \<Longrightarrow> k < length (dm_runs dm) \<and> r = dm_runs dm ! k \<and> ready (run_phase r)"
  by (auto simp: run_at_def split: if_splits)

lemma flush_pump_plane:
  assumes "db_ok d" and "flush_pump cfg dl e i p d = (p', d')"
  shows "db_ok d' \<and> keeps_running n d d'"
proof (cases "pump_buf p = []")
  case True
  with assms show ?thesis by (simp add: flush_pump_def keeps_running_same)
next
  case False
  with assms(2) have "d' = snd (exchange dl e (agent_request cfg) (PostLogs i (pump_buf p)) d)"
    by (simp add: flush_pump_def take_batch_def)
  with assms(1) show ?thesis by (simp add: exchange_ok exchange_keeps_running)
qed

section \<open>Every event keeps them in step\<close>

lemma in_step_heartbeat:
  assumes "in_step cfg w" and "own_token cfg e (plane w)" and "heartbeat_event cfg e dl w = Some w'"
  shows "in_step cfg w'"
proof -
  let ?n = "cfg_node cfg" and ?x = "exchange dl e (agent_request cfg) (PostHeartbeat (cfg_node cfg)) (plane w)"
  have c: "consistent ?n (plane w) (dm_runs (agent w)) (dm_tick (agent w)) (dm_stopping (agent w))"
    using assms(1) by (simp add: in_step_def)
  then have ok: "db_ok (plane w)" by (simp add: consistent_def)
  from c ok have c': "consistent ?n (snd ?x) (dm_runs (agent w)) (dm_tick (agent w)) (dm_stopping (agent w))"
    by (intro consistent_plane [OF c] exchange_ok exchange_keeps_running) auto
  let ?tick = "case fst ?x of Some (RHeartbeat hr) \<Rightarrow> Polled (hr_cancel_job_id hr) | _ \<Rightarrow> Polling"
  have w': "w' = w\<lparr>plane := snd ?x, agent := (agent w)\<lparr>dm_tick := ?tick\<rparr>\<rparr>"
    using assms(3) by (simp add: heartbeat_event_def case_prod_unfold Let_def split: if_splits)
  show ?thesis
  proof (cases "\<exists>t. ?tick = Polled (Some t)")
    case False
    then show ?thesis using consistent_tick [OF c', of ?tick] by (simp add: in_step_def w')
  next
    case True
    then obtain hr t where hr: "fst ?x = Some (RHeartbeat hr)" and t: "hr_cancel_job_id hr = Some t"
      by (auto split: option.splits response.splits)
    have asked: "runs_on t ?n (snd ?x) \<and> cancel_asked t (snd ?x)"
      using heartbeat_reply [OF ok exchange_reply [OF hr] t] .
    have "run_id r = t" if "r \<in> set (dm_runs (agent w))" "live r" for r
      using one_job_runs [OF exchange_ok [OF ok]] asked c' that unfolding consistent_def by blast
    with asked c' hr t show ?thesis by (simp add: in_step_def w' consistent_def)
  qed
qed

lemma in_step_decide:
  assumes "in_step cfg w" and "decide_event w = Some w'"
  shows "in_step cfg w'"
proof -
  let ?n = "cfg_node cfg" and ?dm = "agent w"
  have c: "consistent ?n (plane w) (dm_runs ?dm) (dm_tick ?dm) (dm_stopping ?dm)"
    using assms(1) by (simp add: in_step_def)
  obtain target where tick: "dm_tick ?dm = Polled target"
    using assms(2) by (auto simp: decide_event_def split: tick_phase.splits)
  show ?thesis
  proof (cases "dm_running_id ?dm \<noteq> None \<and> target \<noteq> None \<and> dm_cancel_run ?dm \<noteq> None")
    case False
    with assms(2) tick have "plane w' = plane w \<and> dm_runs (agent w') = dm_runs ?dm \<and>
        dm_stopping (agent w') = dm_stopping ?dm \<and> dm_tick (agent w') \<in> {Claiming, Polling}"
      by (auto simp: decide_event_def Let_def split: if_splits option.splits)
    with consistent_tick [OF c, of "dm_tick (agent w')"] show ?thesis by (auto simp: in_step_def)
  next
    case True
    then obtain i t k where b: "dm_running_id ?dm = Some i" "target = Some t" "dm_cancel_run ?dm = Some k" by blast
    let ?r = "cancel_context Cancelled (dm_runs ?dm ! k)"
    have w': "w' = w\<lparr>agent := (set_run k ?r ?dm)\<lparr>dm_tick := Polling\<rparr>\<rparr>"
      using assms(2) tick b by (simp add: decide_event_def Let_def)
    have "consistent ?n (plane w) ((dm_runs ?dm)[k := ?r]) (dm_tick ?dm) (dm_stopping ?dm)"
    proof (cases "k < length (dm_runs ?dm)")
      case k: True
      have same: "live ?r = live (dm_runs ?dm ! k)" "run_id ?r = run_id (dm_runs ?dm ! k)"
        by (simp_all add: cancel_context_def live_def run_id_def)
      have "cancel_asked (run_id ?r) (plane w)" if "live ?r"
        using c tick b(2) k that unfolding same consistent_def by (metis nth_mem)
      then show ?thesis using c k same by (intro consistent_run) simp_all
    next
      case False
      then have "(dm_runs ?dm)[k := ?r] = dm_runs ?dm" by (intro list_update_beyond) simp
      with c show ?thesis by simp
    qed
    from consistent_tick [OF this, of Polling] show ?thesis by (simp add: in_step_def w')
  qed
qed

lemma in_step_claim:
  assumes "in_step cfg w" and "own_token cfg e (plane w)" and "claim_event cfg e dl w = Some w'"
  shows "in_step cfg w'"
proof -
  let ?n = "cfg_node cfg" and ?x = "exchange dl e (agent_request cfg) PostClaim (plane w)" and ?dm = "agent w"
  have c: "consistent ?n (plane w) (dm_runs ?dm) (dm_tick ?dm) (dm_stopping ?dm)"
    using assms(1) by (simp add: in_step_def)
  then have ok: "db_ok (plane w)" by (simp add: consistent_def)
  show ?thesis
  proof (cases "\<exists>a. fst ?x = Some (RAssignment a)")
    case False
    then have "plane w' = snd ?x \<and> dm_runs (agent w') = dm_runs ?dm \<and> dm_tick (agent w') = Polling \<and>
        dm_stopping (agent w') = dm_stopping ?dm"
      using assms(3) by (auto simp: claim_event_def Let_def case_prod_unfold split: if_splits option.splits response.splits)
    moreover have "consistent ?n (snd ?x) (dm_runs ?dm) Polling (dm_stopping ?dm)"
      using ok by (intro consistent_tick [OF consistent_plane [OF c]] exchange_ok exchange_keeps_running) auto
    ultimately show ?thesis by (simp add: in_step_def)
  next
    case True
    then obtain a where a: "fst ?x = Some (RAssignment a)" by blast
    let ?r = "\<lparr>run_job = a, run_ctx = Active, run_pump = new_log_pump, run_phase = Spawned\<rparr>"
    have w': "plane w' = snd ?x \<and> dm_runs (agent w') = dm_runs ?dm @ [?r] \<and> dm_tick (agent w') = Polling \<and>
        dm_stopping (agent w') = dm_stopping ?dm"
      using assms(3) a by (auto simp: claim_event_def Let_def case_prod_unfold split: if_splits)
    note served = exchange_reply [OF a]
    obtain nd where "get_current_node e (agent_request cfg) (begin_session (plane w)) = (Inr nd, begin_session (plane w))"
      and "caller_node e (agent_request cfg) (plane w) = Some (n_id nd)"
      by (rule caller_run [OF served disjI1 [OF refl]])
    with assms(2) have "caller_node e (agent_request cfg) (plane w) = Some ?n" by (simp add: own_token_def)
    from claim_reply [OF ok served this] have "runs_on (run_id ?r) ?n (snd ?x)" "\<And>k. \<not> runs_on k ?n (plane w)"
      by (simp_all add: run_id_def)
    then have "consistent ?n (snd ?x) (dm_runs ?dm @ [?r]) Polling (dm_stopping ?dm)"
      using exchange_ok [OF ok] by (intro consistent_spawn [OF c]) simp_all
    with w' show ?thesis by (simp add: in_step_def)
  qed
qed

text \<open>The events of one run that leave the control plane alone, but for its log lines.\<close>

lemma in_step_run:
  assumes "in_step cfg w" and "run_at k ready (agent w) = Some r"
    and w': "plane w' = d" "dm_runs (agent w') = (dm_runs (agent w))[k := r']"
      "dm_tick (agent w') = dm_tick (agent w)" "dm_stopping (agent w') = dm_stopping (agent w)"
    and "live r' \<longrightarrow> live r" and "run_id r' = run_id r"
    and "run_ctx r' = Cancelled \<longrightarrow> run_ctx r = Cancelled \<or> dm_stopping (agent w)"
    and "db_ok d" and "keeps_running (cfg_node cfg) (plane w) d"
  shows "in_step cfg w'"
proof -
  note r = run_atD [OF assms(2)]
  have c: "consistent (cfg_node cfg) d (dm_runs (agent w)) (dm_tick (agent w)) (dm_stopping (agent w))"
    using consistent_plane assms(1,10,11) unfolding in_step_def by blast
  have "dm_stopping (agent w) \<or> cancel_asked (run_id r') d" if "live r'" "run_ctx r' = Cancelled"
  proof -
    have "r \<in> set (dm_runs (agent w))" using r by simp
    with c that assms(7-9) show ?thesis unfolding consistent_def by metis
  qed
  then have "consistent (cfg_node cfg) d ((dm_runs (agent w))[k := r']) (dm_tick (agent w)) (dm_stopping (agent w))"
    using r assms(7,8) by (intro consistent_run [OF c]) auto
  with w' show ?thesis by (simp add: in_step_def)
qed

lemma run_changes:
  "live r \<Longrightarrow> live (started cfg st r) \<longrightarrow> live r" "live (printed s l r) = live r"
  "live (cancel_context c r) = live r" "live (r\<lparr>run_pump := p\<rparr>) = live r"
  "live (r\<lparr>run_pump := p, run_phase := Returned\<rparr>) = False"
  "run_id (started cfg st r) = run_id r" "run_id (printed s l r) = run_id r" "run_id (returned res r) = run_id r"
  "run_id (cancel_context c r) = run_id r" "run_id (r\<lparr>run_pump := p\<rparr>) = run_id r"
  "run_id (r\<lparr>run_pump := p, run_phase := Returned\<rparr>) = run_id r"
  by (simp_all add: started_def printed_def returned_def cancel_context_def live_def run_id_def)

lemma in_step_start: "in_step cfg w \<Longrightarrow> start_event cfg k w = Some w' \<Longrightarrow> in_step cfg w'"
proof -
  assume i: "in_step cfg w" and "start_event cfg k w = Some w'"
  then obtain r where at: "run_at k (\<lambda>p. p = Spawned) (agent w) = Some r"
    and w': "w' = w\<lparr>agent := (set_run k (started cfg (dm_stopping (agent w)) r) (agent w))\<lparr>
          dm_running_id := Some (run_id r), dm_cancel_run := Some k\<rparr>\<rparr>"
    by (auto simp: start_event_def split: option.splits)
  let ?r = "started cfg (dm_stopping (agent w)) r"
  have "run_phase r = Spawned" using run_atD [OF at] by blast
  then have live: "live r" by (simp add: live_def)
  have ctx: "run_ctx ?r = Cancelled \<longrightarrow> run_ctx r = Cancelled \<or> dm_stopping (agent w)" by (simp add: started_def)
  have ok: "db_ok (plane w)" using i by (simp add: in_step_def consistent_def)
  show "in_step cfg w'"
    by (rule in_step_run [OF i at, of w' "plane w" ?r])
      (use live ctx ok in \<open>simp_all add: w' run_changes keeps_running_same\<close>)
qed

lemma in_step_executing:
  assumes "in_step cfg w" and "output_event k s l w = Some w' \<or> timeout_event k w = Some w' \<or> return_event k pull run w = Some w'"
  shows "in_step cfg w'"
proof -
  obtain r r' where at: "run_at k (\<lambda>p. p = Executing) (agent w) = Some r"
    and w': "w' = w\<lparr>agent := set_run k r' (agent w)\<rparr>"
    and r': "r' = printed s l r \<or> r' = cancel_context DeadlineExceeded r \<or> r' = returned (docker_runner pull run) r"
    using assms(2) by (auto simp: output_event_def timeout_event_def return_event_def split: option.splits)
  have "run_phase r = Executing" using run_atD [OF at] by blast
  then have "live r" by (simp add: live_def)
  moreover have "db_ok (plane w)" using assms(1) by (simp add: in_step_def consistent_def)
  moreover have "run_ctx r' = Cancelled \<longrightarrow> run_ctx r = Cancelled"
    using r' by (auto simp: printed_def cancel_context_def returned_def split: if_splits)
  moreover have "run_id r' = run_id r" using r' by (auto simp: run_changes)
  ultimately show ?thesis
    by (intro in_step_run [OF assms(1) at, of w' "plane w" r']) (simp_all add: w' keeps_running_same)
qed

lemma in_step_flush:
  assumes "in_step cfg w" and "flush_event cfg k e dl w = Some w' \<or> end_event cfg k e dl w = Some w'"
  shows "in_step cfg w'"
proof -
  obtain ready r p d where at: "run_at k ready (agent w) = Some r"
    and f: "flush_pump cfg dl e (run_id r) (run_pump r) (plane w) = (p, d)"
    and w': "plane w' = d" "dm_runs (agent w') = (dm_runs (agent w))[k := r\<lparr>run_pump := p\<rparr>] \<or>
        dm_runs (agent w') = (dm_runs (agent w))[k := r\<lparr>run_pump := p, run_phase := Returned\<rparr>]"
      "dm_tick (agent w') = dm_tick (agent w)" "dm_stopping (agent w') = dm_stopping (agent w)"
    using assms(2) by (auto simp: flush_event_def end_event_def split: option.splits prod.splits)
  have "db_ok (plane w)" using assms(1) by (simp add: in_step_def consistent_def)
  note ok = flush_pump_plane [OF this f]
  show ?thesis
  proof (cases "dm_runs (agent w') = (dm_runs (agent w))[k := r\<lparr>run_pump := p\<rparr>]")
    case True
    show ?thesis by (rule in_step_run [OF assms(1) at w'(1) True w'(3,4)]) (use ok in \<open>simp_all add: run_changes\<close>)
  next
    case False
    with w'(2) have runs: "dm_runs (agent w') = (dm_runs (agent w))[k := r\<lparr>run_pump := p, run_phase := Returned\<rparr>]" by blast
    show ?thesis by (rule in_step_run [OF assms(1) at w'(1) runs w'(3,4)]) (use ok in \<open>simp_all add: run_changes\<close>)
  qed
qed

lemma in_step_report:
  assumes "in_step cfg w" and "report_event cfg k e dl w = Some w'"
  shows "in_step cfg w'"
proof -
  obtain r code msg where at: "run_at k (\<lambda>_. True) (agent w) = Some r" and ph: "run_phase r = Reporting code msg"
    and w': "w' = w\<lparr>plane := snd (exchange dl e (agent_request cfg) (PostComplete (run_id r) code msg) (plane w)),
      agent := set_run k (r\<lparr>run_phase := Finishing\<rparr>) (agent w)\<rparr>"
    using assms(2) by (auto simp: report_event_def split: option.splits run_phase.splits)
  note r = run_atD [OF at]
  have c: "consistent (cfg_node cfg) (plane w) (dm_runs (agent w)) (dm_tick (agent w)) (dm_stopping (agent w))"
    using assms(1) by (simp add: in_step_def)
  then have "db_ok (plane w)" by (simp add: consistent_def)
  moreover have "live (dm_runs (agent w) ! k)" using r ph by (simp add: live_def)
  ultimately show ?thesis
    using r by (simp add: in_step_def w' consistent_reported [OF c] exchange_ok live_def)
qed

lemma in_step_step:
  assumes "in_step cfg w" and "agent_step cfg w w'"
  shows "in_step cfg w'"
proof -
  obtain ev where ev: "trusted cfg ev w" "perform cfg ev w = Some w'" using assms(2) by cases
  have c: "consistent (cfg_node cfg) (plane w) (dm_runs (agent w)) (dm_tick (agent w)) (dm_stopping (agent w))"
    using assms(1) by (simp add: in_step_def)
  then have ok: "db_ok (plane w)" by (simp add: consistent_def)
  show ?thesis
  proof (cases ev)
    case Signalled
    let ?f = "\<lambda>r. if run_phase r = Spawned then r else cancel_context Cancelled r"
    have "consistent (cfg_node cfg) (plane w) (map ?f (dm_runs (agent w))) (dm_tick (agent w)) True"
      by (rule consistent_signal [OF c]) (simp add: cancel_context_def live_def run_id_def)
    with Signalled ev show ?thesis by (auto simp: signal_event_def in_step_def)
  next
    case ProcessExits
    with ev ok show ?thesis by (auto simp: exit_event_def in_step_def new_daemon_def intro: consistent_idle)
  next
    case (OthersAct a)
    with ev ok have "consistent (cfg_node cfg) (execute a (plane w)) (dm_runs (agent w)) (dm_tick (agent w))
        (dm_stopping (agent w))"
      by (intro consistent_plane [OF c] integrity.executed action_keeps_running) auto
    with OthersAct ev show ?thesis by (auto simp: in_step_def)
  qed (use ev assms(1) in \<open>auto intro: in_step_heartbeat in_step_decide in_step_claim in_step_report
      in_step_start in_step_executing in_step_flush\<close>)
qed

lemma in_step_runs: "agent_runs cfg w w' \<Longrightarrow> in_step cfg w \<Longrightarrow> in_step cfg w'"
  by (induction rule: agent_runs.induct) (auto intro: in_step_step)

lemma in_step_reached:
  assumes "agent_reaches cfg w"
  shows "in_step cfg w"
proof -
  obtain d where d: "reachable d" "agent_runs cfg \<lparr>plane = d, agent = new_daemon\<rparr> w"
    using assms by (auto simp: agent_reaches_def)
  have "in_step cfg \<lparr>plane = d, agent = new_daemon\<rparr>"
    by (auto simp: in_step_def new_daemon_def intro: consistent_idle reachable_ok [OF d(1)])
  with d(2) show ?thesis by (rule in_step_runs)
qed

lemma no_live_runs:
  assumes "in_step cfg w" and "runs_on k (cfg_node cfg) (plane w)"
    and "\<And>r. r \<in> set (dm_runs (agent w)) \<Longrightarrow> live r \<Longrightarrow> run_id r \<noteq> k"
  shows "\<forall>r \<in> set (dm_runs (agent w)). \<not> live r"
  using assms one_job_runs unfolding in_step_def consistent_def by blast

lemma one_live:
  assumes "\<And>k k'. k < length rs \<Longrightarrow> k' < length rs \<Longrightarrow> P (rs ! k) \<Longrightarrow> P (rs ! k') \<Longrightarrow> k = k'"
  shows "length (filter P rs) \<le> 1"
proof -
  have "{k. k < length rs \<and> P (rs ! k)} \<subseteq> {SOME k. k < length rs \<and> P (rs ! k)}"
    using assms by (auto intro: someI2)
  then have "card {k. k < length rs \<and> P (rs ! k)} \<le> card {SOME k. k < length rs \<and> P (rs ! k)}"
    by (intro card_mono) auto
  then show ?thesis by (simp add: length_filter_conv_card)
qed

end
