(* ===== verification/AgentTheorems.thy ===== *)
theory AgentTheorems
  imports AgentInvariant
begin

text \<open>
  What the agent and the control plane achieve together: one job at a time, on the node the
  database names; containers that are stopped only on request; reports that are accepted with
  the outcome the owner expects; and what a report that is lost leaves behind.
\<close>

text \<open>
  C6. The agent and the database agree, whatever is lost on the way and whatever else is asked
  of the control plane: the agent never has two jobs under way, a job it works on runs
  on its node in the database, and it stops a container early only if the agent itself is being
  stopped or the cancellation of that very job was requested.
\<close>

theorem agent_in_step:
  assumes "agent_reaches cfg w"
  shows "length (filter live (dm_runs (agent w))) \<le> 1 \<and>
    (\<forall>r \<in> set (dm_runs (agent w)). live r \<longrightarrow> runs_on (run_id r) (cfg_node cfg) (plane w) \<and>
      (run_ctx r = Cancelled \<longrightarrow> dm_stopping (agent w) \<or> cancel_asked (run_id r) (plane w)))"
proof -
  have c: "consistent (cfg_node cfg) (plane w) (dm_runs (agent w)) (dm_tick (agent w)) (dm_stopping (agent w))"
    using in_step_reached [OF assms] by (simp add: in_step_def)
  then have "length (filter live (dm_runs (agent w))) \<le> 1" by (intro one_live) (simp add: consistent_def)
  with c show ?thesis by (simp add: consistent_def)
qed

text \<open>An agent of the node of the demonstration, working on its job.\<close>

definition demo_agent :: agent_config where
  "demo_agent = \<lparr>cfg_node = 81, cfg_token = ''gpuagent_005token''\<rparr>"

definition demo_idle :: world where
  "demo_idle = \<lparr>plane = demo_queued, agent = new_daemon\<rparr>"

definition demo_begins :: "event list" where
  "demo_begins = [HeartbeatSent (demo_env 7) Delivered, TickDecides, ClaimSent (demo_env 8) Delivered, RunStarts 0]"

definition demo_works :: world where
  "demo_works = the (run_events demo_agent demo_begins demo_idle)"

lemma demo_reaches: "run_events demo_agent evs demo_idle = Some w \<Longrightarrow> agent_reaches demo_agent w"
  using run_events_runs [of demo_agent evs demo_idle w demo_idle] runs_refl reachable_demo_queued
  by (auto simp: agent_reaches_def demo_idle_def)

lemma demo_working: "agent_reaches demo_agent demo_works"
proof -
  have "run_events demo_agent demo_begins demo_idle \<noteq> None" by code_simp
  then have "run_events demo_agent demo_begins demo_idle = Some demo_works" by (auto simp: demo_works_def)
  then show ?thesis by (rule demo_reaches)
qed

theorem agent_in_step_witness:
  "\<exists>r \<in> set (dm_runs (agent demo_works)). live r \<and> run_id r = 96 \<and> runs_on 96 81 (plane demo_works)"
proof -
  have "\<exists>r \<in> set (dm_runs (agent demo_works)). live r \<and> run_id r = 96" by code_simp
  moreover have "cfg_node demo_agent = 81" by (simp add: demo_agent_def)
  ultimately show ?thesis using agent_in_step [OF demo_working] by metis
qed

text \<open>
  While the agent reports a job, the control plane answers its report with the finished job,
  never with not found or with an invalid transition.
\<close>

lemma report_accepted:
  assumes "agent_reaches cfg w" and "run_at k ready (agent w) = Some r" and "run_phase r = Reporting code msg"
    and "caller_node e (agent_request cfg) (plane w) = Some (cfg_node cfg)" and "complete_request_ok code msg"
    and "uuid4 e 0 \<notin> a_id ` set (audit_events (plane w))"
  shows "\<exists>w' j. report_event cfg k e Delivered w = Some w' \<and> find_job (run_id r) (plane w) = Some j \<and>
    fst (exchange Delivered e (agent_request cfg) (PostComplete (run_id r) code msg) (plane w)) =
      Some (RJob (job_view (completed_job e j code msg))) \<and>
    find_job (run_id r) (plane w') = Some (completed_job e j code msg)"
proof -
  let ?d = "plane w" and ?n = "cfg_node cfg" and ?q = "PostComplete (run_id r) code msg"
  have c: "consistent ?n ?d (dm_runs (agent w)) (dm_tick (agent w)) (dm_stopping (agent w))"
    using in_step_reached [OF assms(1)] by (simp add: in_step_def)
  then have ok: "db_ok ?d" by (simp add: consistent_def)
  have r: "r \<in> set (dm_runs (agent w))" using run_atD [OF assms(2)] by auto
  have "live r" using assms(3) by (simp add: live_def)
  with c r have "runs_on (run_id r) ?n ?d" unfolding consistent_def by blast
  then obtain j where j: "find_job (run_id r) ?d = Some j" "running_on ?n j"
    by (auto simp: runs_on_def split: option.splits)
  then have run: "j_status j = RUNNING" "j_assigned_node_id j = Some ?n"
    by (simp_all add: running_on_def job_status_literals)
  have jin: "j \<in> set (jobs ?d)" using lookup_row_SomeD [OF j(1)] by simp
  obtain u where u: "find_user (j_user_id j) ?d = Some u" using owner_found [OF ok jin] by blast
  obtain t0 where t0: "j_started_at j = Some t0" using jobs_okD(1) [OF db_ok_jobs [OF ok] jin] run(1)
    by (auto simp: job_ok_def job_status_distinct)
  obtain y s where g: "get_current_node e (agent_request cfg) (begin_session ?d) = (y, s)"
    by (cases "get_current_node e (agent_request cfg) (begin_session ?d)")
  then have s: "s = begin_session ?d" using reads_current_node [of e "agent_request cfg"] by (auto simp: reads_def) (metis snd_conv)
  with g assms(4) obtain nd where nd: "get_current_node e (agent_request cfg) (begin_session ?d) = (Inr nd, begin_session ?d)"
    and id: "n_id nd = ?n" by (cases y) (auto simp: caller_node_def)
  from run_complete [OF ok j(1) _ run(1) u t0 assms(6), of nd code msg] run(2) id obtain d' where
    d': "run_svc (complete_job e nd (run_id r) code msg) ?d = (Inr (completed_job e j code msg), d')"
      "jobs d' = put_row j_id (completed_job e j code msg) (jobs ?d)" by auto
  have serve: "serve e (agent_request cfg) ?q ?d = (Inr (RJob (job_view (completed_job e j code msg))), d')"
    using nd d'(1) assms(5) by (simp add: serve_def h_complete_job_def validated_def respond_def run_defs split: prod.splits)
  let ?w = "w\<lparr>plane := d', agent := set_run k (r\<lparr>run_phase := Finishing\<rparr>) (agent w)\<rparr>"
  have "report_event cfg k e Delivered w = Some ?w"
    using assms(2,3) serve by (auto simp: report_event_def exchange_def run_at_def split: if_splits)
  moreover have "find_job (run_id r) d' = Some (completed_job e j code msg)"
    unfolding d'(2) lookup_row_put using j(1) lookup_row_SomeD [OF j(1)] by (simp add: completed_job_def)
  ultimately show ?thesis using j(1) serve by (auto simp: exchange_def)
qed

lemma reaches_step:
  assumes "agent_reaches cfg w" and "trusted cfg ev w" and "perform cfg ev w = Some w'"
  shows "agent_reaches cfg w'"
  using assms runs_step agent_event unfolding agent_reaches_def by blast

lemma run_result_zero:
  "fst (run_result ctx (docker_runner pull run)) = 0 \<longleftrightarrow> ctx \<noteq> Cancelled \<and> pull = Pulled \<and> run = Exited 0"
  by (cases pull; cases run) (auto simp: run_result_def docker_runner_def)

text \<open>
  C7. From the container to the owner: when a container of the agent has ended and the report
  arrives, it is accepted, and the job is then cancelled if its cancellation was requested,
  completed if and only if otherwise the image was pulled, the container exited with code zero
  and the agent did not stop it, and failed in every other case.
\<close>

theorem container_outcome:
  assumes "agent_reaches cfg w" and "run_at k (\<lambda>p. p = Executing) (agent w) = Some r"
    and "return_event k pull run w = Some w1"
    and "complete_request_ok (fst (run_result (run_ctx r) (docker_runner pull run)))
           (snd (run_result (run_ctx r) (docker_runner pull run)))"
    and "caller_node e (agent_request cfg) (plane w) = Some (cfg_node cfg)"
    and "uuid4 e 0 \<notin> a_id ` set (audit_events (plane w))"
  shows "\<exists>w2 j. report_event cfg k e Delivered w1 = Some w2 \<and> find_job (run_id r) (plane w2) = Some j \<and>
    j_status j = (if cancel_asked (run_id r) (plane w) then CANCELLED
                  else if run_ctx r \<noteq> Cancelled \<and> pull = Pulled \<and> run = Exited 0 then COMPLETED else FAILED)"
proof -
  let ?res = "run_result (run_ctx r) (docker_runner pull run)" and ?r = "returned (docker_runner pull run) r"
  have w1: "w1 = w\<lparr>agent := set_run k ?r (agent w)\<rparr>" using assms(2,3) by (simp add: return_event_def)
  have reached: "agent_reaches cfg w1" using reaches_step [OF assms(1), of "RunReturns k pull run"] assms(3) by simp
  have at: "run_at k (\<lambda>_. True) (agent w1) = Some ?r" using run_atD [OF assms(2)] by (simp add: w1 run_at_def)
  have ph: "run_phase ?r = Reporting (fst ?res) (snd ?res)" by (simp add: returned_def)
  from report_accepted [OF reached at ph, of e] assms(4-6) obtain w2 j where
    j: "report_event cfg k e Delivered w1 = Some w2" "find_job (run_id r) (plane w) = Some j"
      "find_job (run_id r) (plane w2) = Some (completed_job e j (fst ?res) (snd ?res))"
    by (auto simp: w1 run_changes)
  moreover have "cancel_asked (run_id r) (plane w) \<longleftrightarrow> j_cancel_requested_at j \<noteq> None"
    using j(2) by (simp add: cancel_asked_def)
  ultimately show ?thesis
    by (auto simp: completed_job_def completion_target_def run_result_zero)
qed

theorem container_outcome_witness:
  "\<exists>w1 w2 j. return_event 0 Pulled (Exited 0) demo_works = Some w1 \<and>
     report_event demo_agent 0 (demo_env 9) Delivered w1 = Some w2 \<and>
     find_job 96 (plane w2) = Some j \<and> j_status j = COMPLETED"
proof -
  obtain r where r: "run_at 0 (\<lambda>p. p = Executing) (agent demo_works) = Some r"
    and p: "run_ctx r = Active \<and> run_id r = 96"
  proof -
    have "case run_at 0 (\<lambda>p. p = Executing) (agent demo_works) of None \<Rightarrow> False
      | Some r \<Rightarrow> run_ctx r = Active \<and> run_id r = 96" by code_simp
    then show thesis by (auto split: option.splits intro: that)
  qed
  then obtain w1 where w1: "return_event 0 Pulled (Exited 0) demo_works = Some w1" by (simp add: return_event_def)
  have h: "caller_node (demo_env 9) (agent_request demo_agent) (plane demo_works) = Some (cfg_node demo_agent)"
    "uuid4 (demo_env 9) 0 \<notin> a_id ` set (audit_events (plane demo_works))"
    "\<not> cancel_asked 96 (plane demo_works)" by code_simp+
  have "complete_request_ok (fst (run_result Active (docker_runner Pulled (Exited 0))))
      (snd (run_result Active (docker_runner Pulled (Exited 0))))" by code_simp
  with container_outcome [OF demo_working r w1 _ h(1,2)] p h(3) w1 show ?thesis by auto
qed

section \<open>Lost reports\<close>

definition stranded :: "agent_config \<Rightarrow> uuid \<Rightarrow> world \<Rightarrow> bool" where
  "stranded cfg k w \<longleftrightarrow> in_step cfg w \<and> runs_on k (cfg_node cfg) (plane w) \<and>
     (\<forall>r \<in> set (dm_runs (agent w)). \<not> live r)"

lemma dead_update: "\<forall>r \<in> set rs. \<not> live r \<Longrightarrow> \<not> live x \<Longrightarrow> \<forall>r \<in> set (rs[k := x]). \<not> live r"
  using set_update_subset_insert [of rs k x] by blast

lemma dead_run_at:
  assumes "\<forall>r \<in> set (dm_runs dm). \<not> live r" and "run_at k ready dm = Some r"
  shows "\<not> live r \<and> run_phase r \<in> {Finishing, Returned}"
proof -
  have "\<not> live r" using run_atD [OF assms(2)] assms(1) by auto
  then show ?thesis by (simp add: live_def split: run_phase.splits)
qed

lemma dead_none:
  assumes "\<forall>r \<in> set (dm_runs dm). \<not> live r" and "\<And>r. ready (run_phase r) \<Longrightarrow> live r"
  shows "run_at k ready dm = None"
  using assms(1) assms(2) [of "dm_runs dm ! k"] by (auto simp: run_at_def)

lemma stranded_plane:
  assumes "stranded cfg k w" and "in_step cfg w'" and "keeps_running (cfg_node cfg) (plane w) (plane w')"
    and "\<forall>r \<in> set (dm_runs (agent w')). \<not> live r"
  shows "stranded cfg k w'"
  using assms by (simp add: stranded_def keeps_running_def)

lemma stranded_step:
  assumes st: "stranded cfg k w" and ev: "trusted cfg ev w" "perform cfg ev w = Some w'"
  shows "stranded cfg k w'"
proof -
  have i: "in_step cfg w" and on: "runs_on k (cfg_node cfg) (plane w)"
    and dead: "\<forall>r \<in> set (dm_runs (agent w)). \<not> live r"
    using st by (simp_all add: stranded_def)
  then have ok: "db_ok (plane w)" by (simp add: in_step_def consistent_def)
  have i': "in_step cfg w'" using in_step_step [OF i agent_event [OF ev]] .
  note dra = dead_run_at [OF dead]
  have inactive: "run_at m (\<lambda>p. p = Spawned) (agent w) = None" "run_at m (\<lambda>p. p = Executing) (agent w) = None" for m
    by (rule dead_none [OF dead]; simp add: live_def)+
  have kept: "keeps_running (cfg_node cfg) (plane w) (snd (exchange dl e (agent_request cfg) q (plane w)))"
    if "\<And>k code msg. q \<noteq> PostComplete k code msg" for dl e q
    using exchange_keeps_running [OF ok that] .
  show ?thesis
  proof (rule stranded_plane [OF st i'])
    show "keeps_running (cfg_node cfg) (plane w) (plane w')"
    proof (cases ev)
      case (ReportSent k' e dl)
      with ev(2) dra show ?thesis by (fastforce simp: report_event_def split: option.splits run_phase.splits)
    next
      case (OthersAct a)
      with ev ok show ?thesis by (auto intro: action_keeps_running)
    next
      case (LogsFlushed k' e dl)
      with ev(2) flush_pump_plane [OF ok] show ?thesis
        by (fastforce simp: flush_event_def split: option.splits prod.splits)
    next
      case (RunEnds k' e dl)
      with ev(2) flush_pump_plane [OF ok] show ?thesis
        by (fastforce simp: end_event_def split: option.splits prod.splits)
    next
      case (HeartbeatSent e dl)
      with ev(2) kept show ?thesis by (auto simp: heartbeat_event_def case_prod_unfold Let_def split: if_splits)
    next
      case (ClaimSent e dl)
      with ev(2) kept show ?thesis by (auto simp: claim_event_def case_prod_unfold Let_def split: if_splits)
    qed (use ev(2) in \<open>auto simp: decide_event_def start_event_def output_event_def timeout_event_def
        return_event_def signal_event_def exit_event_def Let_def keeps_running_same
        split: tick_phase.splits if_splits option.splits\<close>)
  next
    show "\<forall>r \<in> set (dm_runs (agent w')). \<not> live r"
    proof (cases ev)
      case (ClaimSent e dl)
      let ?x = "exchange dl e (agent_request cfg) PostClaim (plane w)"
      have "fst ?x \<noteq> Some (RAssignment a)" for a
      proof
        assume "fst ?x = Some (RAssignment a)"
        note served = exchange_reply [OF this]
        obtain nd where "get_current_node e (agent_request cfg) (begin_session (plane w)) = (Inr nd, begin_session (plane w))"
          and "caller_node e (agent_request cfg) (plane w) = Some (n_id nd)"
          by (rule caller_run [OF served disjI1 [OF refl]])
        with ev(1) ClaimSent have "caller_node e (agent_request cfg) (plane w) = Some (cfg_node cfg)"
          by (simp add: own_token_def)
        with claim_reply [OF ok served] on show False by blast
      qed
      with ev(2) ClaimSent dead show ?thesis
        by (auto simp: claim_event_def case_prod_unfold Let_def split: if_splits option.splits response.splits)
    next
      case TickDecides
      have "\<not> live (cancel_context Cancelled (dm_runs (agent w) ! m))" if "m < length (dm_runs (agent w))" for m
        using dead that by (simp add: run_changes)
      then have "\<forall>r \<in> set ((dm_runs (agent w))[m := cancel_context Cancelled (dm_runs (agent w) ! m)]). \<not> live r" for m
        using dead dead_update [OF dead] by (cases "m < length (dm_runs (agent w))") (blast, simp add: list_update_beyond)
      with dead ev(2) TickDecides show ?thesis
        by (auto simp: decide_event_def Let_def split: tick_phase.splits if_splits option.splits)
    next
      case (LogsFlushed k' e dl)
      with ev(2) obtain ready r p where at: "run_at k' ready (agent w) = Some r"
        and runs: "dm_runs (agent w') = (dm_runs (agent w))[k' := r\<lparr>run_pump := p\<rparr>]"
        by (auto simp: flush_event_def split: option.splits prod.splits)
      show ?thesis unfolding runs using dra [OF at] by (intro dead_update [OF dead]) (simp add: run_changes)
    next
      case (RunEnds k' e dl)
      with ev(2) obtain r p where
        runs: "dm_runs (agent w') = (dm_runs (agent w))[k' := r\<lparr>run_pump := p, run_phase := Returned\<rparr>]"
        by (auto simp: end_event_def split: option.splits prod.splits)
      show ?thesis unfolding runs by (intro dead_update [OF dead]) (simp add: run_changes)
    next
      case (HeartbeatSent e dl)
      with ev(2) dead show ?thesis by (auto simp: heartbeat_event_def case_prod_unfold Let_def split: if_splits)
    next
      case (ReportSent k' e dl)
      with ev(2) dra show ?thesis by (fastforce simp: report_event_def split: option.splits run_phase.splits)
    next
      case Signalled
      with ev(2) dead show ?thesis by (auto simp: signal_event_def run_changes)
    next
      case ProcessExits
      with ev(2) show ?thesis by (auto simp: exit_event_def new_daemon_def)
    next
      case (OthersAct a)
      with ev(2) dead show ?thesis by auto
    qed (use ev(2) in \<open>auto simp: start_event_def output_event_def timeout_event_def return_event_def
        inactive\<close>)
  qed
qed

text \<open>
  C22. Nothing repairs a report that did not arrive: once a job runs on the node in the database
  and no run of the agent is under way for it (the report was lost, the reply to the claim was
  lost, or the process ended while the job ran), the job runs on the node for ever, whatever
  the agent, its owner and the administrators do, and the agent never gets another job.
\<close>

theorem lost_report_strands:
  assumes "agent_reaches cfg w" and "runs_on k (cfg_node cfg) (plane w)"
    and "\<And>r. r \<in> set (dm_runs (agent w)) \<Longrightarrow> live r \<Longrightarrow> run_id r \<noteq> k"
    and "agent_runs cfg w w'"
  shows "runs_on k (cfg_node cfg) (plane w') \<and> (\<forall>r \<in> set (dm_runs (agent w')). \<not> live r)"
proof -
  note i = in_step_reached [OF assms(1)]
  have "stranded cfg k w" using i assms(2) no_live_runs [OF i assms(2,3)] by (simp add: stranded_def)
  with assms(4) have "stranded cfg k w'"
  proof (induction rule: agent_runs.induct)
    case (runs_step w w' w'')
    then show ?case by (auto elim: agent_step.cases intro: stranded_step)
  qed
  then show ?thesis by (simp add: stranded_def)
qed

text \<open>The agent is stopped while its job runs, and started again.\<close>

definition demo_restart :: "event list" where
  "demo_restart = demo_begins @ [Signalled, ProcessExits]"

definition demo_later :: "event list" where
  "demo_later = [OthersAct (Http (demo_env 9) as_user (PostCancel 96)), HeartbeatSent (demo_env 10) Delivered,
     TickDecides, ClaimSent (demo_env 11) Delivered]"

definition demo_stranded :: world where
  "demo_stranded = \<lparr>plane = demo_running\<lparr>nodes := [demo_node\<lparr>n_last_seen_at := Some (clock (demo_env 7) 0)\<rparr>]\<rparr>,
     agent = new_daemon\<rparr>"

lemma demo_strands: "run_events demo_agent demo_restart demo_idle = Some demo_stranded"
  by code_simp

theorem lost_report_strands_witness:
  "runs_on 96 81 (plane (the (run_events demo_agent demo_later demo_stranded)))"
proof -
  have h: "run_events demo_agent demo_later demo_stranded \<noteq> None" "runs_on 96 81 (plane demo_stranded)"
    by code_simp+
  then obtain w' where w': "run_events demo_agent demo_later demo_stranded = Some w'" by blast
  have runs: "agent_runs demo_agent demo_stranded w'" by (rule run_events_runs [OF w' runs_refl])
  have n: "cfg_node demo_agent = 81" "dm_runs (agent demo_stranded) = []"
    by (simp_all add: demo_agent_def demo_stranded_def new_daemon_def)
  from lost_report_strands [OF demo_reaches [OF demo_strands] _ _ runs, of 96] h w' show ?thesis by (simp add: n)
qed

end
