(* ===== verification/AgentLogs.thy ===== *)
theory AgentLogs
  imports AgentTheorems TelemetryTheorems "HOL-Library.Sublist"
begin

text \<open>
  The log pump of a run together with the log store of the control plane: what the owner of a
  job can read is what the container printed, in order, up to batches that were lost as a whole.
\<close>

section \<open>The pump on its own\<close>

datatype pump_step = Emitted string string | Flushed env delivery

fun pump_apply :: "agent_config \<Rightarrow> uuid \<Rightarrow> pump_step \<Rightarrow> log_pump \<times> db \<Rightarrow> log_pump \<times> db" where
  "pump_apply cfg i (Emitted stream line) (p, d) = (emit stream line p, d)"
| "pump_apply cfg i (Flushed e dl) (p, d) = flush_pump cfg dl e i p d"

definition pump_session :: "agent_config \<Rightarrow> uuid \<Rightarrow> pump_step list \<Rightarrow> log_pump \<times> db \<Rightarrow> log_pump \<times> db" where
  "pump_session cfg i steps = fold (pump_apply cfg i) steps"

text \<open>The lines that were printed, and the entries they should become.\<close>

fun printed_lines :: "pump_step list \<Rightarrow> (string \<times> string) list" where
  "printed_lines [] = []"
| "printed_lines (Emitted stream line # steps) =
     (if line = [] then printed_lines steps else (stream, line) # printed_lines steps)"
| "printed_lines (Flushed e dl # steps) = printed_lines steps"

fun numbered :: "int \<Rightarrow> (string \<times> string) list \<Rightarrow> log_entry list" where
  "numbered n [] = []"
| "numbered n ((stream, line) # xs) = \<lparr>e_stream = stream, e_content = line, e_sequence = n\<rparr> # numbered (n + 1) xs"

lemma printed_length: "length (printed_lines steps) \<le> length steps"
  by (induction steps rule: printed_lines.induct) auto

text \<open>Row ids for up to \<open>N\<close> rows of each flush, all different.\<close>

fun ids_fresh :: "nat \<Rightarrow> uuid set \<Rightarrow> pump_step list \<Rightarrow> bool" where
  "ids_fresh N used [] = True"
| "ids_fresh N used (Emitted stream line # steps) = ids_fresh N used steps"
| "ids_fresh N used (Flushed e dl # steps) \<longleftrightarrow> inj_on (uuid4 e) {0..<N} \<and> uuid4 e ` {0..<N} \<inter> used = {} \<and>
     ids_fresh N (used \<union> uuid4 e ` {0..<N}) steps"

lemma ids_fresh_mono: "ids_fresh N used steps \<Longrightarrow> used' \<subseteq> used \<Longrightarrow> ids_fresh N used' steps"
proof (induction steps arbitrary: used used')
  case (Cons s steps)
  show ?case
  proof (cases s)
    case (Flushed e dl)
    with Cons.prems have "ids_fresh N (used \<union> uuid4 e ` {0..<N}) steps" by simp
    then have "ids_fresh N (used' \<union> uuid4 e ` {0..<N}) steps" by (rule Cons.IH) (use Cons.prems(2) in blast)
    with Flushed Cons.prems show ?thesis by auto
  qed (use Cons in auto)
qed simp

section \<open>One batch\<close>

lemma insert_logs_ids:
  "insert_logs e i k xs logs = Inr (m, logs') \<Longrightarrow> l_id ` set logs' \<subseteq> l_id ` set logs \<union> uuid4 e ` {k..<k + length xs}"
proof (induction xs arbitrary: k logs m)
  case (Cons x xs)
  let ?row = "\<lparr>l_id = uuid4 e k, l_job_id = i, l_stream = e_stream x, l_content = e_content x,
     l_sequence = e_sequence x, l_received_at = txn_now e\<rparr>"
  have split: "{k..<k + length (x # xs)} = insert k {Suc k..<Suc k + length xs}" by auto
  obtain m' logs1 where ins: "insert_logs e i (Suc k) xs logs1 = Inr (m', logs')"
    and "logs1 = logs \<or> logs1 = logs @ [?row]"
    using Cons.prems by (auto split: if_splits sum.splits prod.splits)
  then have "l_id ` set logs1 \<subseteq> insert (uuid4 e k) (l_id ` set logs)" by auto
  with Cons.IH [OF ins] show ?case unfolding split image_insert by blast
qed simp

lemma accepted_all: "distinct (map e_sequence xs) \<Longrightarrow> e_sequence ` set xs \<inter> K = {} \<Longrightarrow> accepted K xs = xs"
  by (induction xs arbitrary: K) (auto simp: image_iff)

lemma caller_node_logs [simp]: "caller_node e r (d\<lparr>job_logs := logs\<rparr>) = caller_node e r d"
  by (auto simp: caller_node_def get_current_node_def authenticate_agent_def node_repo_get_by_agent_prefix_def
      run_defs split: option.splits)

text \<open>A batch of new numbers is stored as it is, or refused as a whole because of one entry.\<close>

lemma batch_stored:
  assumes job: "find_job i d = Some j" "j_assigned_node_id j = Some n" and node: "caller_node e r d = Some n"
    and "xs \<noteq> []" and "inj_on (uuid4 e) {0..<length xs}" and "uuid4 e ` {0..<length xs} \<inter> l_id ` set (job_logs d) = {}"
    and "\<forall>x \<in> set xs. int4_ok (e_sequence x)"
    and "distinct (map e_sequence xs)" and "e_sequence ` set xs \<inter> sequences i (job_logs d) = {}"
  shows "\<exists>new. snd (serve e r (PostLogs i xs) d) = d\<lparr>job_logs := job_logs d @ new\<rparr> \<and>
    map log_entry_of new = (if list_all log_entry_ok xs then xs else []) \<and> (\<forall>l \<in> set new. l_job_id l = i) \<and>
    l_id ` set (job_logs d @ new) \<subseteq> l_id ` set (job_logs d) \<union> uuid4 e ` {0..<length xs}"
proof -
  obtain y s where g: "get_current_node e r (begin_session d) = (y, s)" by (cases "get_current_node e r (begin_session d)")
  then have s: "s = begin_session d" using reads_current_node [of e r] by (auto simp: reads_def) (metis snd_conv)
  with g node obtain nd where nd: "get_current_node e r (begin_session d) = (Inr nd, begin_session d)"
    and id: "n_id nd = n" by (cases y) (auto simp: caller_node_def)
  obtain new where new: "insert_logs e i 0 xs (job_logs d) = Inr (length new, job_logs d @ new)"
    "map log_entry_of new = accepted (sequences i (job_logs d)) xs" "\<forall>l \<in> set new. l_job_id l = i"
    using insert_logs_result [of e 0 xs "job_logs d" i] assms(5-7) by auto
  have all: "map log_entry_of new = xs" using new(2) accepted_all [OF assms(8,9)] by simp
  have ids: "l_id ` set (job_logs d @ new) \<subseteq> l_id ` set (job_logs d) \<union> uuid4 e ` {0..<length xs}"
    using insert_logs_ids [OF new(1)] by simp
  show ?thesis
  proof (cases "list_all log_entry_ok xs")
    case True
    have "run_svc (append_logs e nd i xs) d = (Inr (length new), d\<lparr>job_logs := job_logs d @ new\<rparr>)"
      using run_append_logs [OF job(1) _ new(1)] job(2) id by simp
    with nd True assms(4) have "snd (serve e r (PostLogs i xs) d) = d\<lparr>job_logs := job_logs d @ new\<rparr>"
      by (auto simp: serve_def h_push_logs_def validated_def respond_def run_defs split: prod.splits sum.splits)
    with True all new(3) ids show ?thesis by auto
  next
    case False
    with nd have "snd (serve e r (PostLogs i xs) d) = d"
      by (auto simp: serve_def h_push_logs_def validated_def respond_def run_defs)
    with False show ?thesis by (intro exI [of _ "[]"]) auto
  qed
qed

section \<open>A whole run\<close>

text \<open>What a pump and the log of its job satisfy between steps.\<close>

definition pump_ok :: "uuid \<Rightarrow> log_pump \<Rightarrow> db \<Rightarrow> bool" where
  "pump_ok i p d \<longleftrightarrow> distinct (map e_sequence (pump_buf p)) \<and>
     e_sequence ` set (pump_buf p) \<inter> sequences i (job_logs d) = {} \<and>
     e_sequence ` set (pump_buf p) \<union> sequences i (job_logs d) \<subseteq> {0..<pump_next_seq p} \<and> 0 \<le> pump_next_seq p"

definition all_sent :: "pump_step list \<Rightarrow> bool" where
  "all_sent steps \<longleftrightarrow> list_all (\<lambda>s. case s of Emitted stream line \<Rightarrow> True | Flushed e dl \<Rightarrow> dl \<noteq> RequestLost) steps"

lemma pump_ok_emit:
  assumes "pump_ok i p d"
  shows "pump_ok i (emit stream line p) d"
proof (cases "line = []")
  case False
  let ?n = "pump_next_seq p" and ?S = "e_sequence ` set (pump_buf p)" and ?L = "sequences i (job_logs d)"
  have p: "distinct (map e_sequence (pump_buf p))" "?S \<inter> ?L = {}" "?S \<union> ?L \<subseteq> {0..<?n}" "0 \<le> ?n"
    using assms by (simp_all add: pump_ok_def)
  have "?n \<notin> {0..<?n}" by simp
  with p(3) have new: "?n \<notin> ?S" "?n \<notin> ?L" by blast+
  have "{0..<?n} \<subseteq> {0..<?n + 1}" "?n \<in> {0..<?n + 1}" using p(4) by auto
  with p(3) have "insert ?n ?S \<union> ?L \<subseteq> {0..<?n + 1}" by blast
  moreover have "distinct (map e_sequence (pump_buf (emit stream line p)))"
    using False p(1) new(1) by (simp add: emit_def)
  moreover have "e_sequence ` set (pump_buf (emit stream line p)) = insert ?n ?S"
    "pump_next_seq (emit stream line p) = ?n + 1" using False by (simp_all add: emit_def)
  moreover have "insert ?n ?S \<inter> ?L = {}" "0 \<le> ?n + 1" using p(2,4) new(2) by auto
  ultimately show ?thesis unfolding pump_ok_def by metis
qed (use assms in \<open>simp add: emit_def\<close>)

lemma sequences_entries: "\<forall>l \<in> set new. l_job_id l = i \<Longrightarrow> sequences i new = e_sequence ` set (map log_entry_of new)"
proof -
  assume "\<forall>l \<in> set new. l_job_id l = i"
  then have "{l \<in> set new. l_job_id l = i} = set new" by blast
  then show ?thesis by (simp add: sequences_def log_entry_of_def image_image)
qed

lemma pump_ok_flushed:
  assumes "pump_ok i p d" and "map log_entry_of new = pump_buf p \<or> map log_entry_of new = []"
    and "\<forall>l \<in> set new. l_job_id l = i"
  shows "pump_ok i (p\<lparr>pump_buf := []\<rparr>) (d\<lparr>job_logs := job_logs d @ new\<rparr>)"
proof -
  have "sequences i new \<subseteq> e_sequence ` set (pump_buf p)"
    using assms(2) unfolding sequences_entries [OF assms(3)]
    by (elim disjE) (simp_all only: list.set image_empty empty_subsetI subset_refl)
  with assms(1) show ?thesis by (auto simp: pump_ok_def sequences_append)
qed

lemma session_result:
  assumes "find_job i d = Some j" and "j_assigned_node_id j = Some (cfg_node cfg)"
    and "\<And>e dl. Flushed e dl \<in> set steps \<Longrightarrow> caller_node e (agent_request cfg) d = Some (cfg_node cfg)"
    and "pump_ok i p d" and "pump_next_seq p + int (length steps) \<le> 2 ^ 31"
    and "length (pump_buf p) + length steps \<le> N" and "ids_fresh N (l_id ` set (job_logs d)) steps"
  shows "\<exists>p' new. pump_session cfg i steps (p, d) = (p', d\<lparr>job_logs := job_logs d @ new\<rparr>) \<and>
    (\<forall>l \<in> set new. l_job_id l = i) \<and>
    subseq (map log_entry_of new @ pump_buf p') (pump_buf p @ numbered (pump_next_seq p) (printed_lines steps)) \<and>
    (all_sent steps \<longrightarrow> list_all log_entry_ok (pump_buf p @ numbered (pump_next_seq p) (printed_lines steps)) \<longrightarrow>
      map log_entry_of new @ pump_buf p' = pump_buf p @ numbered (pump_next_seq p) (printed_lines steps))"
  using assms
proof (induction steps arbitrary: p d)
  case Nil
  then show ?case by (intro exI [of _ p] exI [of _ "[]"]) (simp add: pump_session_def)
next
  case (Cons s steps)
  show ?case
  proof (cases s)
    case (Emitted stream line)
    let ?p = "emit stream line p"
    have "pump_buf ?p @ numbered (pump_next_seq ?p) (printed_lines steps) =
        pump_buf p @ numbered (pump_next_seq p) (printed_lines (s # steps))"
      by (simp add: Emitted emit_def)
    moreover have "pump_next_seq ?p + int (length steps) \<le> 2 ^ 31" "length (pump_buf ?p) + length steps \<le> N"
      using Cons.prems(5,6) by (simp_all add: emit_def)
    moreover have "ids_fresh N (l_id ` set (job_logs d)) steps" using Cons.prems(7) Emitted by simp
    ultimately show ?thesis
      using Cons.IH [of d ?p] Cons.prems(1-4) pump_ok_emit [OF Cons.prems(4)] Emitted
      by (simp add: pump_session_def all_sent_def)
  next
    case (Flushed e dl)
    let ?xs = "pump_buf p" and ?p = "p\<lparr>pump_buf := []\<rparr>" and ?rest = "numbered (pump_next_seq p) (printed_lines steps)"
    note fresh = Cons.prems(7) [unfolded Flushed, simplified]
    have xs: "{0..<length ?xs} \<subseteq> {0..<N}" using Cons.prems(6) by auto
    have step: "\<exists>new. pump_apply cfg i s (p, d) = (?p, d\<lparr>job_logs := job_logs d @ new\<rparr>) \<and> (\<forall>l \<in> set new. l_job_id l = i) \<and>
        (map log_entry_of new = ?xs \<or> map log_entry_of new = []) \<and>
        (dl \<noteq> RequestLost \<longrightarrow> list_all log_entry_ok ?xs \<longrightarrow> map log_entry_of new = ?xs) \<and>
        l_id ` set (job_logs d @ new) \<subseteq> l_id ` set (job_logs d) \<union> uuid4 e ` {0..<N}"
    proof (cases "?xs = [] \<or> dl = RequestLost")
      case True
      then show ?thesis using Flushed
        by (intro exI [of _ "[]"]) (auto simp: flush_pump_def take_batch_def exchange_def)
    next
      case False
      have caller: "caller_node e (agent_request cfg) d = Some (cfg_node cfg)" using Cons.prems(3) Flushed by auto
      have "\<forall>x \<in> set ?xs. int4_ok (e_sequence x)"
        using Cons.prems(4,5) by (fastforce simp: pump_ok_def int4_ok_def)
      moreover have "inj_on (uuid4 e) {0..<length ?xs}" using fresh xs by (blast intro: inj_on_subset)
      moreover have "uuid4 e ` {0..<length ?xs} \<inter> l_id ` set (job_logs d) = {}" using fresh xs by blast
      ultimately obtain new where new: "snd (serve e (agent_request cfg) (PostLogs i ?xs) d) = d\<lparr>job_logs := job_logs d @ new\<rparr>"
        "map log_entry_of new = (if list_all log_entry_ok ?xs then ?xs else [])" "\<forall>l \<in> set new. l_job_id l = i"
        "l_id ` set (job_logs d @ new) \<subseteq> l_id ` set (job_logs d) \<union> uuid4 e ` {0..<length ?xs}"
        using batch_stored [OF Cons.prems(1,2) caller, of ?xs] Cons.prems(4) False by (auto simp: pump_ok_def)
      have "snd (exchange dl e (agent_request cfg) (PostLogs i ?xs) d) = d\<lparr>job_logs := job_logs d @ new\<rparr>"
        using False new(1) by (cases dl) (auto simp: exchange_def split: prod.splits sum.splits)
      with new(2-4) False xs show ?thesis
        by (intro exI [of _ new]) (auto simp: Flushed flush_pump_def take_batch_def)
    qed
    then obtain new where new: "pump_apply cfg i s (p, d) = (?p, d\<lparr>job_logs := job_logs d @ new\<rparr>)"
      "\<forall>l \<in> set new. l_job_id l = i" "map log_entry_of new = ?xs \<or> map log_entry_of new = []"
      "dl \<noteq> RequestLost \<longrightarrow> list_all log_entry_ok ?xs \<longrightarrow> map log_entry_of new = ?xs"
      "l_id ` set (job_logs d @ new) \<subseteq> l_id ` set (job_logs d) \<union> uuid4 e ` {0..<N}" by blast
    let ?d = "d\<lparr>job_logs := job_logs d @ new\<rparr>"
    have "ids_fresh N (l_id ` set (job_logs ?d)) steps" using fresh new(5) by (auto intro: ids_fresh_mono)
    moreover have "pump_ok i ?p ?d" using pump_ok_flushed [OF Cons.prems(4) new(3,2)] .
    ultimately obtain p' more where more: "pump_session cfg i steps (?p, ?d) = (p', ?d\<lparr>job_logs := job_logs ?d @ more\<rparr>)"
      "\<forall>l \<in> set more. l_job_id l = i" "subseq (map log_entry_of more @ pump_buf p') ?rest"
      "all_sent steps \<longrightarrow> list_all log_entry_ok ?rest \<longrightarrow> map log_entry_of more @ pump_buf p' = ?rest"
      using Cons.IH [of ?d ?p] Cons.prems(1-3,5,6) by auto
    have "subseq (map log_entry_of new @ (map log_entry_of more @ pump_buf p')) (?xs @ ?rest)"
      using new(3) more(3) by (elim disjE) (simp_all add: subseq_append' list_emb_append2)
    with new more show ?thesis
      by (intro exI [of _ p'] exI [of _ "new @ more"]) (auto simp: pump_session_def Flushed all_sent_def)
  qed
qed

text \<open>
  C33. The log of a job: whatever a run prints and however its batches fare, the control plane
  stores a subsequence of the printed lines, in order, once each, under their positions in the
  output as sequence numbers; and if no request is lost and every line is acceptable (of at most
  65536 characters), what is stored and what still waits in the buffer is exactly the output.
\<close>

theorem log_stream:
  assumes "find_job i d = Some j" and "j_assigned_node_id j = Some (cfg_node cfg)"
    and "\<forall>e dl. Flushed e dl \<in> set steps \<longrightarrow> caller_node e (agent_request cfg) d = Some (cfg_node cfg)"
    and "sequences i (job_logs d) = {}" and "int (length steps) \<le> 2 ^ 31"
    and "ids_fresh (length steps) (l_id ` set (job_logs d)) steps"
  shows "\<exists>p' new. pump_session cfg i steps (new_log_pump, d) = (p', d\<lparr>job_logs := job_logs d @ new\<rparr>) \<and>
    (\<forall>l \<in> set new. l_job_id l = i) \<and>
    subseq (map log_entry_of new @ pump_buf p') (numbered 0 (printed_lines steps)) \<and>
    (all_sent steps \<longrightarrow> list_all log_entry_ok (numbered 0 (printed_lines steps)) \<longrightarrow>
      map log_entry_of new @ pump_buf p' = numbered 0 (printed_lines steps))"
  using session_result [where p = new_log_pump and N = "length steps", OF assms(1,2) assms(3) [rule_format]] assms(4-6)
  by (simp add: new_log_pump_def pump_ok_def)

definition demo_output :: "pump_step list" where
  "demo_output = [Emitted ''system'' ''Starting'', Flushed (demo_env 9) Delivered, Emitted ''stdout'' ''loss 2.4'',
     Emitted ''stdout'' [], Emitted ''stderr'' ''done'', Flushed (demo_env 10) ReplyLost]"

theorem log_stream_witness:
  "\<exists>p' new. pump_session demo_agent 96 demo_output (new_log_pump, demo_running) = (p', demo_running\<lparr>job_logs := new\<rparr>) \<and>
     map log_entry_of new @ pump_buf p' = numbered 0 [(''system'', ''Starting''), (''stdout'', ''loss 2.4''), (''stderr'', ''done'')]"
proof -
  have h: "find_job 96 demo_running = Some (hd (jobs demo_running))"
    "j_assigned_node_id (hd (jobs demo_running)) = Some (cfg_node demo_agent)"
    "caller_node (demo_env 9) (agent_request demo_agent) demo_running = Some (cfg_node demo_agent)"
    "caller_node (demo_env 10) (agent_request demo_agent) demo_running = Some (cfg_node demo_agent)"
    "ids_fresh (length demo_output) (l_id ` set (job_logs demo_running)) demo_output"
    "all_sent demo_output" "job_logs demo_running = []"
    "printed_lines demo_output = [(''system'', ''Starting''), (''stdout'', ''loss 2.4''), (''stderr'', ''done'')]"
    by code_simp+
  have ok: "list_all log_entry_ok (numbered 0 (printed_lines demo_output))"
    unfolding h(8) by (simp add: log_entry_ok_def length_between_def)
  have f: "\<forall>e dl. Flushed e dl \<in> set demo_output \<longrightarrow>
      caller_node e (agent_request demo_agent) demo_running = Some (cfg_node demo_agent)"
    using h(3,4) by (auto simp: demo_output_def)
  have "sequences 96 (job_logs demo_running) = {}" "int (length demo_output) \<le> 2 ^ 31"
    by (simp_all add: h(7) sequences_def demo_output_def)
  from log_stream [OF h(1,2) f this h(5)] ok h(6-8) show ?thesis by auto
qed

end
