(* ===== verification/GpuDetect.thy ===== *)
theory GpuDetect
  imports PyTime
begin

text \<open>
  The detection of GPUs (\<open>src/node-agent/internal/gpu/detect.go\<close>), which reads the output of
  \<open>nvidia-smi\<close>. Strings are lists of ASCII characters.
\<close>

section \<open>Reading the output of \<open>nvidia-smi\<close>\<close>

text \<open>\<open>strings.TrimSpace\<close>, \<open>strings.Split\<close> with a separator of one character, \<open>strconv.Atoi\<close>.\<close>

definition go_space :: "char \<Rightarrow> bool" where
  "go_space c \<longleftrightarrow> c \<in> {CHR 0x20, CHR 0x09, CHR 0x0A, CHR 0x0B, CHR 0x0C, CHR 0x0D}"

definition trim_space :: "string \<Rightarrow> string" where
  "trim_space s = rev (dropWhile go_space (rev (dropWhile go_space s)))"

fun split_at :: "char \<Rightarrow> string \<Rightarrow> string list" where
  "split_at c [] = [[]]"
| "split_at c (x # xs) = (if x = c then [] # split_at c xs else (x # hd (split_at c xs)) # tl (split_at c xs))"

fun read_decimal :: "int \<Rightarrow> string \<Rightarrow> int option" where
  "read_decimal acc [] = Some acc"
| "read_decimal acc (c # s) = (case dec_value c of None \<Rightarrow> None | Some v \<Rightarrow> read_decimal (acc * 10 + v) s)"

definition atoi :: "string \<Rightarrow> int option" where
  "atoi s =
     (let (sign, ds) = (case s of
          c # r \<Rightarrow> if c = CHR ''-'' then (- 1, r) else if c = CHR ''+'' then (1, r) else (1, s)
        | [] \<Rightarrow> (1, s))
      in if ds = [] then None
         else case read_decimal 0 ds of
           None \<Rightarrow> None
         | Some v \<Rightarrow> if - (2 ^ 63) \<le> sign * v \<and> sign * v < 2 ^ 63 then Some (sign * v) else None)"

record device =
  dev_model :: string
  dev_memory_mb :: int

text \<open>The line numbers in the messages count from one.\<close>

datatype gpu_error =
    FieldCount nat nat string
  | NotAnInteger nat string
  | SmiFailed string
  | NoGpus

fun parse_lines :: "nat \<Rightarrow> string list \<Rightarrow> gpu_error + device list" where
  "parse_lines n [] = Inr []"
| "parse_lines n (raw # lines) =
     (let line = trim_space raw; parts = split_at (CHR '','') line in
      if line = [] then parse_lines (n + 1) lines
      else if length parts \<noteq> 2 then Inl (FieldCount n (length parts) line)
      else case atoi (trim_space (parts ! 1)) of
        None \<Rightarrow> Inl (NotAnInteger n (trim_space (parts ! 1)))
      | Some mem \<Rightarrow> (case parse_lines (n + 1) lines of
          Inl err \<Rightarrow> Inl err
        | Inr ds \<Rightarrow> Inr (\<lparr>dev_model = trim_space (parts ! 0), dev_memory_mb = mem\<rparr> # ds)))"

definition parse_csv :: "string \<Rightarrow> gpu_error + device list" where
  "parse_csv raw = parse_lines 1 (split_at (CHR 0x0A) (trim_space raw))"

text \<open>What \<open>nvidia-smi\<close> printed, or why it could not be run.\<close>

definition detect :: "string + string \<Rightarrow> gpu_error + device list" where
  "detect smi = (case smi of Inl why \<Rightarrow> Inl (SmiFailed why) | Inr out \<Rightarrow> parse_csv out)"

record gpu_spec =
  spec_model :: string
  spec_memory_gb :: int
  spec_count :: int

text \<open>Go's division of integers truncates.\<close>

definition summarize :: "device list \<Rightarrow> gpu_error + gpu_spec" where
  "summarize ds =
     (case ds of
        [] \<Rightarrow> Inl NoGpus
      | first # _ \<Rightarrow>
          (let mb = dev_memory_mb first; gb = (if mb < 0 then - ((- mb) div 1024) else mb div 1024) in
           Inr \<lparr>spec_model = dev_model first, spec_memory_gb = (if gb < 1 then 1 else gb), spec_count = int (length ds)\<rparr>))"

section \<open>What \<open>nvidia-smi\<close> prints is read back\<close>

text \<open>The format of \<open>--format=csv,noheader,nounits\<close>: a line per device.\<close>

definition smi_line :: "device \<Rightarrow> string" where
  "smi_line dev = dev_model dev @ '', '' @ str_nat (dev_memory_mb dev)"

definition smi_output :: "device list \<Rightarrow> string" where
  "smi_output ds = concat (map (\<lambda>dev. smi_line dev @ [CHR 0x0A]) ds)"

text \<open>A device whose name survives the format, with an amount of memory an integer holds.\<close>

definition plain_device :: "device \<Rightarrow> bool" where
  "plain_device dev \<longleftrightarrow> dev_model dev \<noteq> [] \<and> CHR '','' \<notin> set (dev_model dev) \<and> CHR 0x0A \<notin> set (dev_model dev) \<and>
     \<not> go_space (hd (dev_model dev)) \<and> \<not> go_space (last (dev_model dev)) \<and>
     0 \<le> dev_memory_mb dev \<and> dev_memory_mb dev < 2 ^ 63"

lemma trim_space_plain: "s \<noteq> [] \<Longrightarrow> \<not> go_space (hd s) \<Longrightarrow> \<not> go_space (last s) \<Longrightarrow> trim_space s = s"
proof -
  assume s: "s \<noteq> []" "\<not> go_space (hd s)" "\<not> go_space (last s)"
  have "dropWhile go_space xs = xs" if "xs \<noteq> []" "\<not> go_space (hd xs)" for xs
    using that by (cases xs) simp_all
  with s show ?thesis by (simp add: trim_space_def hd_rev)
qed

lemma split_at_free: "c \<notin> set s \<Longrightarrow> split_at c s = [s]"
  by (induction s) auto

lemma split_at_first: "c \<notin> set s \<Longrightarrow> split_at c (s @ c # t) = s # split_at c t"
  by (induction s) auto

lemma read_decimal_append:
  "read_decimal acc (s @ t) = (case read_decimal acc s of None \<Rightarrow> None | Some v \<Rightarrow> read_decimal v t)"
  by (induction s arbitrary: acc) (auto split: option.splits)

lemma str_nat_digits: "0 \<le> n \<Longrightarrow> read_decimal 0 (str_nat n) = Some n \<and> str_nat n \<noteq> [] \<and>
    (\<forall>c \<in> set (str_nat n). \<exists>d. 0 \<le> d \<and> d < 10 \<and> c = digit_char d)"
proof (induction n rule: str_nat.induct)
  case (1 n)
  show ?case
  proof (cases "n < 10")
    case True
    with 1(2) show ?thesis by (subst (1 2 3) str_nat.simps) (auto simp: dec_value_digit)
  next
    case False
    then have IH: "read_decimal 0 (str_nat (n div 10)) = Some (n div 10)"
      "\<forall>c \<in> set (str_nat (n div 10)). \<exists>d. 0 \<le> d \<and> d < 10 \<and> c = digit_char d" using 1 by auto
    have m: "0 \<le> n mod 10" "n mod 10 < 10" by simp_all
    then have "read_decimal 0 (str_nat n) = Some n"
      using False IH(1) by (subst str_nat.simps) (simp add: read_decimal_append dec_value_digit)
    moreover have "\<forall>c \<in> set (str_nat n). \<exists>d. 0 \<le> d \<and> d < 10 \<and> c = digit_char d"
      using False IH(2) m by (subst str_nat.simps) (auto intro: exI [of _ "n mod 10"])
    moreover have "str_nat n \<noteq> []" using False by (subst str_nat.simps) simp
    ultimately show ?thesis by blast
  qed
qed

lemma digit_char_other: "0 \<le> d \<Longrightarrow> d < 10 \<Longrightarrow> \<not> go_space (digit_char d) \<and> digit_char d \<notin> {CHR '','', CHR 0x0A, CHR ''-'', CHR ''+''}"
proof -
  assume "0 \<le> d" "d < 10"
  then have "d = 0 \<or> d = 1 \<or> d = 2 \<or> d = 3 \<or> d = 4 \<or> d = 5 \<or> d = 6 \<or> d = 7 \<or> d = 8 \<or> d = 9" by presburger
  then show ?thesis by (elim disjE; hypsubst; code_simp)
qed

lemma str_nat_char:
  assumes "0 \<le> n" and "c \<in> set (str_nat n)"
  shows "\<not> go_space c \<and> c \<noteq> CHR '','' \<and> c \<noteq> CHR 0x0A \<and> c \<noteq> CHR ''-'' \<and> c \<noteq> CHR ''+''"
proof -
  obtain d where "0 \<le> d" "d < 10" "c = digit_char d" using str_nat_digits [OF assms(1)] assms(2) by blast
  with digit_char_other [of d] show ?thesis by simp
qed

lemma atoi_str_nat:
  assumes "0 \<le> n" and "n < 2 ^ 63"
  shows "atoi (str_nat n) = Some n"
proof -
  obtain c s where cs: "str_nat n = c # s" using str_nat_digits [OF assms(1)] by (cases "str_nat n") auto
  then have "c \<noteq> CHR ''-''" "c \<noteq> CHR ''+''" using str_nat_char [OF assms(1), of c] by auto
  moreover have "read_decimal 0 (c # s) = Some n" using str_nat_digits [OF assms(1)] cs by simp
  ultimately show ?thesis using assms unfolding atoi_def cs by (simp del: read_decimal.simps)
qed

lemma trim_space_front [simp]: "trim_space (CHR 0x20 # s) = trim_space s"
  by (simp add: trim_space_def go_space_def)

lemma trim_space_end: "s \<noteq> [] \<Longrightarrow> \<not> go_space (hd s) \<Longrightarrow> \<not> go_space (last s) \<Longrightarrow> trim_space (s @ [CHR 0x0A]) = s"
proof -
  assume s: "s \<noteq> []" "\<not> go_space (hd s)" "\<not> go_space (last s)"
  then have "dropWhile go_space (s @ [CHR 0x0A]) = s @ [CHR 0x0A]" by (cases s) simp_all
  then have "trim_space (s @ [CHR 0x0A]) = rev (dropWhile go_space (rev s))"
    by (simp add: trim_space_def go_space_def [of "CHR 0x0A"])
  also have "dropWhile go_space (rev s) = rev s" using s by (cases "rev s") (auto simp: hd_rev [symmetric])
  finally show ?thesis by simp
qed

lemma smi_line_shape:
  assumes "plain_device dev"
  shows "smi_line dev \<noteq> [] \<and> \<not> go_space (hd (smi_line dev)) \<and> \<not> go_space (last (smi_line dev)) \<and>
    CHR 0x0A \<notin> set (smi_line dev) \<and>
    split_at (CHR '','') (smi_line dev) = [dev_model dev, CHR 0x20 # str_nat (dev_memory_mb dev)]"
proof -
  let ?m = "dev_memory_mb dev"
  have m: "0 \<le> ?m" "str_nat ?m \<noteq> []" using assms str_nat_digits [of ?m] by (auto simp: plain_device_def)
  note num = str_nat_char [OF m(1)]
  have "\<not> go_space (last (str_nat ?m))" using num m(2) last_in_set by blast
  moreover have "CHR 0x0A \<notin> set (str_nat ?m)" "CHR '','' \<notin> set (str_nat ?m)" using num by blast+
  moreover have "split_at (CHR '','') (smi_line dev) = dev_model dev # split_at (CHR '','') (CHR 0x20 # str_nat ?m)"
    using assms split_at_first [of "CHR '',''" "dev_model dev" "CHR 0x20 # str_nat ?m"]
    by (simp add: smi_line_def plain_device_def)
  ultimately show ?thesis
    using assms m by (simp add: smi_line_def plain_device_def split_at_free)
qed

lemma parse_smi_lines: "\<forall>dev \<in> set ds. plain_device dev \<Longrightarrow> parse_lines n (map smi_line ds) = Inr ds"
proof (induction ds arbitrary: n)
  case (Cons dev ds)
  then have p: "plain_device dev" by simp
  let ?m = "dev_memory_mb dev"
  have m: "0 \<le> ?m" "?m < 2 ^ 63" "str_nat ?m \<noteq> []"
    using p str_nat_digits [of ?m] by (auto simp: plain_device_def)
  have "trim_space (str_nat ?m) = str_nat ?m"
    using m str_nat_char [OF m(1)] by (intro trim_space_plain) (auto dest: hd_in_set last_in_set)
  moreover have "trim_space (dev_model dev) = dev_model dev"
    using p by (intro trim_space_plain) (simp_all add: plain_device_def)
  moreover have "trim_space (smi_line dev) = smi_line dev" using smi_line_shape [OF p] by (intro trim_space_plain) simp_all
  ultimately show ?case
    using smi_line_shape [OF p] Cons atoi_str_nat [OF m(1,2)] by (simp add: Let_def)
qed simp

fun smi_body :: "device list \<Rightarrow> string" where
  "smi_body [] = []"
| "smi_body [dev] = smi_line dev"
| "smi_body (dev # ds) = smi_line dev @ CHR 0x0A # smi_body ds"

lemma smi_output_body: "ds \<noteq> [] \<Longrightarrow> smi_output ds = smi_body ds @ [CHR 0x0A]"
  by (induction ds rule: smi_body.induct) (simp_all add: smi_output_def)

lemma smi_body_shape:
  assumes "ds \<noteq> []" and "\<forall>dev \<in> set ds. plain_device dev"
  shows "smi_body ds \<noteq> [] \<and> \<not> go_space (hd (smi_body ds)) \<and> \<not> go_space (last (smi_body ds)) \<and>
    split_at (CHR 0x0A) (smi_body ds) = map smi_line ds"
  using assms
proof (induction ds rule: smi_body.induct)
  case (2 dev)
  then show ?case using smi_line_shape [of dev] by (simp add: split_at_free)
next
  case (3 dev dev' ds)
  then show ?case using smi_line_shape [of dev] by (simp add: split_at_first)
qed simp

lemma read_back:
  assumes "ds \<noteq> []" and "\<forall>dev \<in> set ds. plain_device dev"
  shows "detect (Inr (smi_output ds)) = Inr ds"
  using smi_body_shape [OF assms] trim_space_end parse_smi_lines [OF assms(2)]
  by (simp add: detect_def parse_csv_def smi_output_body [OF assms(1)])

text \<open>
  Detection reads back what was printed: for every list of devices whose names the
  comma-separated format can carry, the devices parsed from the output of \<open>nvidia-smi\<close> are those that
  were printed, in order, with their memory.
\<close>

theorem smi_roundtrip:
  assumes "ds \<noteq> []" and "\<forall>dev \<in> set ds. plain_device dev"
  shows "detect (Inr (smi_output ds)) = Inr ds"
  using assms by (rule read_back)

theorem smi_roundtrip_witness:
  "detect (Inr (smi_output [\<lparr>dev_model = ''Tesla T4'', dev_memory_mb = 15360\<rparr>])) =
    Inr [\<lparr>dev_model = ''Tesla T4'', dev_memory_mb = 15360\<rparr>]"
  by (rule smi_roundtrip) (simp_all add: plain_device_def go_space_def)

end
