(* ===== verification/AgentSetup.thy ===== *)
theory AgentSetup
  imports AgentLogs GpuDetect
begin

text \<open>
  Setting up an agent: \<open>src/node-agent/cmd/init.go\<close>, which registers the node with a claim token,
  and the checks with which \<open>cmd/start.go\<close> begins.
\<close>

datatype setup_error = MissingFlags | NotDetected gpu_error | RegisterFailed

section \<open>\<open>gpu-agent init\<close> and \<open>gpu-agent start\<close>\<close>

text \<open>An empty name is omitted from the payload.\<close>

definition register_payload :: "string \<Rightarrow> string \<Rightarrow> gpu_spec \<Rightarrow> register_request" where
  "register_payload token name spec = \<lparr>g_claim_token = token, g_gpu_model = spec_model spec,
     g_gpu_memory_gb = spec_memory_gb spec, g_gpu_count = spec_count spec,
     g_suggested_name = (if name = [] then None else Some name)\<rparr>"

definition init_request :: http_request where
  "init_request = \<lparr>credentials = None, client_host = None, user_agent_header = Some ''Go-http-client/1.1''\<rparr>"

definition run_init ::
  "string \<Rightarrow> string \<Rightarrow> string \<Rightarrow> string + string \<Rightarrow> delivery \<Rightarrow> env \<Rightarrow> db \<Rightarrow> (setup_error + agent_config) \<times> db" where
  "run_init control_plane token name smi dl e d =
     (if control_plane = [] \<or> token = [] then (Inl MissingFlags, d)
      else case detect smi of
        Inl err \<Rightarrow> (Inl (NotDetected err), d)
      | Inr devices \<Rightarrow> (case summarize devices of
          Inl err \<Rightarrow> (Inl (NotDetected err), d)
        | Inr spec \<Rightarrow>
            (let (x, d') = exchange dl e init_request (PostRegister (register_payload token name spec)) d in
             (case x of
                Some (RRegistered g) \<Rightarrow> Inr \<lparr>cfg_node = rr_node_id g, cfg_token = rr_agent_token g\<rparr>
              | _ \<Rightarrow> Inl RegisterFailed, d'))))"

text \<open>The daemon is started only with a token.\<close>

definition run_start :: "agent_config \<Rightarrow> daemon option" where
  "run_start cfg = (if cfg_token cfg = [] then None else Some new_daemon)"

section \<open>A node that was set up works\<close>

lemma summary:
  assumes "ds \<noteq> []" and "\<forall>dev \<in> set ds. plain_device dev"
  shows "summarize ds = Inr \<lparr>spec_model = dev_model (hd ds), spec_memory_gb = max 1 (dev_memory_mb (hd ds) div 1024),
    spec_count = int (length ds)\<rparr>"
  using assms by (cases ds) (auto simp: summarize_def Let_def plain_device_def)

text \<open>
  C30. From a claim token to a working agent: on a host whose devices \<open>nvidia-smi\<close> prints, and with
  a claim token that verifies, is unused and has not expired, \<open>gpu-agent init\<close> registers one node
  of the token's owner with the model of the first device, its memory in whole gigabytes (at least
  one) and the number of devices, and the configuration it writes starts a daemon whose
  requests the control plane accepts as coming from that node.
\<close>

theorem init_onboards:
  assumes "db_ok d" and "control_plane \<noteq> []" and "ds \<noteq> []" and "\<forall>dev \<in> set ds. plain_device dev"
    and "register_request_ok (register_payload token name \<lparr>spec_model = dev_model (hd ds),
      spec_memory_gb = max 1 (dev_memory_mb (hd ds) div 1024), spec_count = int (length ds)\<rparr>)"
    and "int4_ok (max 1 (dev_memory_mb (hd ds) div 1024))" and "int4_ok (int (length ds))"
    and "lookup_row c_prefix (claim_token_lookup_prefix token) (claim_tokens d) = Some c"
    and "verify_claim_token e token (c_token_hash c)" and "c_consumed_at c = None" and "clock e 0 < c_expires_at c"
    and "uuid4 e 1 \<notin> n_id ` set (nodes d)" and "uuid4 e 2 \<notin> a_id ` set (audit_events d)"
    and "Some (agent_token_lookup_prefix (fst (generate_agent_token e))) \<notin> n_agent_token_prefix ` set (nodes d)"
    and "\<And>p. bcrypt_checkpw e' p (bcrypt_hashpw e p)"
  shows "\<exists>cfg d' nd. run_init control_plane token name (Inr (smi_output ds)) Delivered e d = (Inr cfg, d') \<and>
    find_node (cfg_node cfg) d' = Some nd \<and> nodes d' = nodes d @ [nd] \<and> n_user_id nd = c_user_id c \<and>
    n_gpu_model nd = dev_model (hd ds) \<and> n_gpu_memory_gb nd = max 1 (dev_memory_mb (hd ds) div 1024) \<and>
    n_gpu_count nd = int (length ds) \<and> run_start cfg = Some new_daemon \<and>
    caller_node e' (agent_request cfg) d' = Some (cfg_node cfg)"
proof -
  let ?gm = "dev_model (hd ds)" and ?mem = "max 1 (dev_memory_mb (hd ds) div 1024)" and ?gc = "int (length ds)"
    and ?ua = "Some ''Go-http-client/1.1''"
  obtain nm where nm: "(if name = [] then None else Some name) = nm" by blast
  let ?nd = "registered_node e c ?gm ?mem ?gc nm" and ?tok = "fst (generate_agent_token e)"
  let ?spec = "\<lparr>spec_model = ?gm, spec_memory_gb = ?mem, spec_count = ?gc\<rparr>"
  have "token \<noteq> []" using assms(5) by (auto simp: register_request_ok_def length_between_def register_payload_def)
  obtain d' where reg: "run_svc (register_node e token ?gm ?mem ?gc nm None ?ua) d = (Inr (?nd, ?tok), d')"
    and nodes: "nodes d' = nodes d @ [?nd]"
    using register_outcome [OF assms(1,12,13,14,6,7), of token ?gm nm None ?ua] assms(8-11) by (auto simp: Let_def)
  define g where "g = \<lparr>rr_node_id = n_id ?nd, rr_agent_token = ?tok,
    rr_config_payload = [(''control_plane_url'', control_plane_public_url (config e)),
      (''node_id'', str_uuid (n_id ?nd)), (''agent_token'', ?tok)]\<rparr>"
  let ?p = "\<lparr>g_claim_token = token, g_gpu_model = ?gm, g_gpu_memory_gb = ?mem, g_gpu_count = ?gc, g_suggested_name = nm\<rparr>"
  have payload: "register_payload token name ?spec = ?p" by (simp add: register_payload_def nm)
  obtain s where s: "register_node e token ?gm ?mem ?gc nm None ?ua (begin_session d) = (Inr (?nd, ?tok), s)" "committed s = d'"
    using reg by (auto simp: run_svc_def split: prod.splits)
  have "serve e init_request (PostRegister ?p) d = (Inr (RRegistered g), d')"
    using s assms(5) [unfolded payload]
    by (simp add: serve_def h_register_node_def respond_def validated_def init_request_def g_def run_svc_def bindS_def ret_def)
  then have init: "run_init control_plane token name (Inr (smi_output ds)) Delivered e d =
      (Inr \<lparr>cfg_node = n_id ?nd, cfg_token = ?tok\<rparr>, d')"
    using assms(2) \<open>token \<noteq> []\<close> read_back [OF assms(3,4)] summary [OF assms(3,4)]
    by (simp add: run_init_def exchange_def g_def payload)
  have id: "n_id ?nd = uuid4 e 1" "n_agent_token_prefix ?nd = Some (agent_token_lookup_prefix ?tok)"
    "n_agent_token_hash ?nd = Some (bcrypt_hashpw e ?tok)" "n_user_id ?nd = c_user_id c"
    "n_gpu_model ?nd = ?gm" "n_gpu_memory_gb ?nd = ?mem" "n_gpu_count ?nd = ?gc"
    by (simp_all add: registered_node_def Let_def)
  have "find_node (uuid4 e 1) d = None" using assms(12) lookup_row_None [of n_id "uuid4 e 1" "nodes d"] by blast
  then have found: "find_node (n_id ?nd) d' = Some ?nd" using id(1) nodes by (simp add: lookup_row_append)
  have "run_svc (authenticate_agent e' ?tok) d' = (Inr (Some ?nd), d')"
    using issued_token_authenticates [OF nodes agent_token_starts assms(14) id(2,3) assms(15)] .
  then have "caller_node e' (agent_request \<lparr>cfg_node = n_id ?nd, cfg_token = ?tok\<rparr>) d' = Some (n_id ?nd)"
    by (auto simp: caller_node_def get_current_node_def agent_request_def run_defs split: prod.splits sum.splits option.splits)
  moreover have "?tok \<noteq> []" by (simp add: generate_agent_token_def AGENT_TOKEN_PREFIX_def Let_def)
  ultimately show ?thesis using init found nodes id by (simp add: run_start_def)
qed

theorem init_onboards_witness:
  "\<exists>cfg d'. run_init ''http://cp'' ''gpuclaim_009token'' [] (Inr (smi_output [\<lparr>dev_model = ''H100'', dev_memory_mb = 81559\<rparr>]))
      Delivered (demo_env 10) demo_invited = (Inr cfg, d') \<and>
     caller_node (demo_env 11) (agent_request cfg) d' = Some (cfg_node cfg)"
proof -
  let ?ds = "[\<lparr>dev_model = ''H100'', dev_memory_mb = 81559\<rparr>]"
  have ok: "db_ok demo_invited" using create_claim_token_ok [OF demo_ok(1)] demo_invites ok_run_snd by (metis snd_conv)
  have p: "\<forall>dev \<in> set ?ds. plain_device dev" by (simp add: plain_device_def go_space_def)
  have r: "register_request_ok (register_payload ''gpuclaim_009token'' [] \<lparr>spec_model = dev_model (hd ?ds),
      spec_memory_gb = max 1 (dev_memory_mb (hd ?ds) div 1024), spec_count = int (length ?ds)\<rparr>)"
    by (simp add: register_payload_def register_request_ok_def length_between_def)
  have h: "int4_ok (max 1 (dev_memory_mb (hd ?ds) div 1024))" "int4_ok (int (length ?ds))"
    "lookup_row c_prefix (claim_token_lookup_prefix ''gpuclaim_009token'') (claim_tokens demo_invited) = Some demo_claim_row"
    "verify_claim_token (demo_env 10) ''gpuclaim_009token'' (c_token_hash demo_claim_row)"
    "c_consumed_at demo_claim_row = None" "clock (demo_env 10) 0 < c_expires_at demo_claim_row"
    "uuid4 (demo_env 10) 1 \<notin> n_id ` set (nodes demo_invited)"
    "uuid4 (demo_env 10) 2 \<notin> a_id ` set (audit_events demo_invited)"
    "Some (agent_token_lookup_prefix (fst (generate_agent_token (demo_env 10)))) \<notin>
       n_agent_token_prefix ` set (nodes demo_invited)" by code_simp+
  from init_onboards [OF ok _ _ p r h demo_hash_checks [where k = 11], of "''http://cp''"] show ?thesis by auto
qed

end
