(* ===== verification/Spec2Isabelle.thy ===== *)
theory Spec2Isabelle
  imports CommandLine Overlaps Responses AccountTheorems FleetTheorems TelemetryTheorems PagingTheorems SchemaTheorems MonitoringTheorems AgentSetup
begin

text \<open>
  A verification development of the control plane of the GPU network: the FastAPI service
  under \<open>src/control-plane\<close> that keeps users, API keys, nodes and jobs in PostgreSQL and
  hands jobs to the agents that run on the nodes, and of that agent, the Go program under
  \<open>src/node-agent\<close>.

  \<^bold>\<open>The program and its model.\<close> A request is resolved to its caller (\<open>app/deps.py\<close>),
  validated (\<open>app/schemas\<close>), handled (\<open>app/controllers\<close>) by one operation of a service
  (\<open>app/services\<close>), which goes through repositories (\<open>app/repositories\<close>) to the tables
  (\<open>app/models\<close>) and commits; exceptions become responses in \<open>app/main.py\<close>. The model has
  the same layers, bottom up:

  \<^item> \<open>Prelude\<close>: rows of a table, the interface \<open>keyed_table\<close> of a table, theorem collections.
  \<^item> \<open>PyFloat\<close>, \<open>PyText\<close>, \<open>PyTime\<close>, \<open>PyUuid\<close>, \<open>PyBase64\<close>: the parts of Python's standard
    library the source computes with: IEEE doubles as rationals with round-half-even, \<open>str\<close>,
    \<open>format\<close>, \<open>datetime.isoformat\<close> and \<open>fromisoformat\<close>, \<open>UUID\<close> and URL-safe base64.
  \<^item> \<open>Errors\<close>: \<open>app/core/errors.py\<close> and the exception handlers of \<open>app/main.py\<close>; an
    exception is a value of the datatype \<open>error\<close>.
  \<^item> \<open>Database\<close>: \<open>app/models\<close> as one record per ORM class, a database as one list of rows per
    table, and a session as the committed database with the view of the transaction
    (\<open>app/db.py\<close>). A method is a function from a session to an error or a result and the
    session it leaves; \<open>bindS\<close> and \<open>thenS\<close> chain methods, \<open>run_svc\<close> is one request.
  \<^item> \<open>Environment\<close>: \<open>app/config.py\<close>, \<open>app/core/security.py\<close> and the record \<open>env\<close> of what a
    request gets from outside.
  \<^item> \<open>Repositories\<close>, \<open>FleetRepositories\<close>: \<open>app/repositories\<close>, one definition per method.
  \<^item> \<open>Pagination\<close>: \<open>app/core/pagination.py\<close>, with \<open>json.dumps\<close> and \<open>json.loads\<close> of a cursor.
  \<^item> \<open>Status\<close>: \<open>job_status.py\<close>, \<open>node_status.py\<close>, \<open>_bill_gpu_hours\<close>.
  \<^item> \<open>JobService\<close>, \<open>NodeService\<close>, \<open>AccountServices\<close>, \<open>Dashboard\<close>: \<open>app/services\<close>;
    with \<open>CommandLine\<close> also \<open>app/cli.py\<close>.
  \<^item> \<open>Schemas\<close>, \<open>Controllers\<close>: \<open>app/schemas\<close>, \<open>app/deps.py\<close>, \<open>app/controllers\<close>.
  \<^item> \<open>System\<close>: the router as one function \<open>handle\<close>, actions (requests and command line runs)
    and the databases they reach.
  \<^item> \<open>Concurrency\<close>: the operations that write jobs, nodes and users once more, as transactions
    that issue one statement at a time, and schedules that interleave them at PostgreSQL's default
    isolation level (READ COMMITTED) with row locks, \<open>FOR UPDATE SKIP LOCKED\<close> and \<open>refresh\<close>.
  \<^item> \<open>Monitoring\<close>: \<open>app/observability.py\<close> with the metrics and health endpoints, and the server
    process as the database together with its gauges and counters.
  \<^item> \<open>Migrations\<close>: \<open>alembic/versions\<close> as DDL statements on a schema, and the schema the ORM
    classes declare.
  \<^item> \<open>Agent\<close>: the daemon (\<open>internal/agent/daemon.go\<close>) as events of its tick loop and of the
    goroutine of each job, on a \<open>world\<close> that has the daemon and the database of the control plane;
    a request may be delivered, or be lost, or lose its reply, and anybody else acts in between.
    \<open>GpuDetect\<close> and \<open>AgentSetup\<close>: \<open>internal/gpu/detect.go\<close>, \<open>cmd/init.go\<close> and \<open>cmd/start.go\<close>.

  \<^bold>\<open>What is proved.\<close>
  \<^item> \<open>Invariant\<close>, \<open>Preservation\<close>: the integrity invariant \<open>db_ok\<close> of the committed database and
    that every operation keeps it; \<open>System\<close> lifts it, through the locale \<open>step_contract\<close>, to
    every action and so to every reachable database.
  \<^item> \<open>Lifecycle\<close>: the abstract life cycle of a job (\<open>phase_step\<close>) and that the program refines it.
  \<^item> \<open>Atomicity\<close>: a request that fails leaves the database alone.
  \<^item> \<open>Ledger\<close>: the audit log only grows, and credits only fall without an approval.
  \<^item> \<open>JobTheorems\<close>: scheduling, submission, billing and cancellation, on every branch.
  \<^item> \<open>Credentials\<close>, \<open>Privileges\<close>: claim tokens, API keys and administrator rights over time.
  \<^item> \<open>NodeTheorems\<close>: registration and credentials; \<open>FleetTheorems\<close>: heartbeats, draining, removal
    and the progress of the queue; \<open>TelemetryTheorems\<close>: metrics and log delivery.
  \<^item> \<open>AccountTheorems\<close>: signup, login, sessions and who may administer.
  \<^item> \<open>PagingTheorems\<close>: clients that follow the cursors of a list see every row once and stop.
  \<^item> \<open>ErrorContract\<close>, \<open>Responses\<close>: which exceptions each endpoint can end in and with which
    status, and the response model and field values of each successful answer.
  \<^item> \<open>Serial\<close>, \<open>Schedules\<close>, \<open>Races\<close>, \<open>Progress\<close>: the transactions of \<open>Concurrency\<close>
    on a serial schedule are the service operations; on every schedule no record is lost, no
    draining node comes back by itself, no job is claimed twice and nobody is stuck.
    \<open>Overlaps\<close> has the schedules under which something of the sequential model is lost.
  \<^item> \<open>MonitoringTheorems\<close>: the dashboard, the gauges and the request counter count what they say.
  \<^item> \<open>SchemaTheorems\<close>: every migration is undone by its downgrade, the schema they build is the
    one of the ORM classes, and every reachable database satisfies its constraints.
  \<^item> \<open>Assignments\<close>: nothing but the report of its own node takes a running job off a node.
    \<open>AgentInvariant\<close>: what the daemon believes of its jobs is what the database says, after
    every event (\<open>in_step\<close>); \<open>AgentTheorems\<close>: containers end as the outcome their owner expects, and
    a lost report strands job and node; \<open>AgentLogs\<close>: the output of a run reaches the log in order;
    \<open>GpuDetect\<close>, \<open>AgentSetup\<close>: from the output of \<open>nvidia-smi\<close> and a claim token to an accepted agent.
  \<^item> This theory: the properties of reachable databases and of whole runs.
  The theories with a scenario (\<open>Scenario\<close>) have concrete databases, evaluated by the kernel, on
  which every property with a hypothesis is instantiated.

  \<^bold>\<open>Parameters.\<close> The record \<open>env\<close> holds what is not under \<open>src/\<close>: the settings, the clocks, the
  random identifiers and tokens, bcrypt, python-jose, the email validator, \<open>ILIKE\<close>, the row locks
  of other transactions, and the standard library's parsers on inputs outside the shapes the
  program itself prints. A property that relies on one of them says so in a hypothesis.
  The results of \<open>docker\<close> (\<open>pull_outcome\<close>, \<open>run_outcome\<close>), the lines it prints, the output of
  \<open>nvidia-smi\<close> and the fate of each request (\<open>delivery\<close>) are arguments of the events of the agent.
  \<open>trusted\<close> is the assumption of its runs: the token of the agent authenticates no other node, and
  nobody else reports the end of a job as this node.

  \<^bold>\<open>Bounds.\<close> There is no fuel: every recursion is structural or has a measure; a schedule is a
  list, and seven turns are enough for any transaction (\<open>lasts_program\<close>). Columns of type
  integer and bigint refuse values outside 32 and 64 bits; \<open>bill_gpu_hours_exact\<close> holds below 2^51
  GPU-microseconds, which a job of the maximal duration (seven days on 64 GPUs) reaches only if it
  runs 58 times too long.

  \<^bold>\<open>Not modelled.\<close> Outside \<open>Concurrency\<close> requests run one after another, and what other
  transactions do shows only in \<open>row_locked\<close>; the properties of reachable databases are about
  that sequential execution. Signup, login, the creation of claim tokens and API keys, metrics,
  log lines and the removal of nodes are not interleaved. String columns are not cut off by
  their varchar lengths, which the request models and the fixed token formats respect, and the
  NUL character, which PostgreSQL refuses in text, is not treated apart. Parsing of HTTP
  requests (FastAPI, pydantic), the text format of the metrics (prometheus_client), the engine
  and its pool in \<open>app/db.py\<close> and \<open>alembic/env.py\<close> belong to libraries. Of the agent, the configuration
  file, the flags and the commands that only print are not modelled; an exchange with the control
  plane is one event, so the other clients act before or after it; lines the agent emits about
  pulling and starting an image are among the lines that docker prints. The two front ends are
  clients of the API.
\<close>

section \<open>Properties of every reachable database\<close>

text \<open>
  C1. Whatever requests and command-line runs are made, in whatever order and with whatever
  environment, the committed database satisfies the integrity invariant: keys, unique columns
  and foreign keys hold, every job has exactly the columns its status calls for, no node runs
  two jobs, a running job fits its node and its reservation, and no credits are negative.
\<close>

theorem integrity_invariant: "reachable d \<Longrightarrow> db_ok d"
  by (induction rule: reachable.induct) (auto intro: db_ok_empty integrity.executed)

theorem integrity_invariant_witness: "db_ok demo_cancelling \<and> jobs demo_cancelling \<noteq> []"
  using integrity_invariant [OF reachable_demo(2)] by (simp add: demo_cancelling_def)

text \<open>
  C2. A running job is assigned to a registered node that has enough GPUs for it and that
  it is not reserved away from, and it is the only job running there.
\<close>

theorem running_job_placed:
  assumes "reachable d" and "j \<in> set (jobs d)" and "j_status j = RUNNING"
  shows "\<exists>nd \<in> set (nodes d). j_assigned_node_id j = Some (n_id nd) \<and>
    j_gpu_count j \<le> n_gpu_count nd \<and>
    (j_preferred_node_id j = None \<or> j_preferred_node_id j = Some (n_id nd)) \<and>
    (\<forall>k \<in> set (jobs d). running_on (n_id nd) k \<longrightarrow> k = j)"
proof -
  have js: "jobs_ok (u_id ` set (users d)) (nodes d) (jobs d)"
    using assms(1) by (intro db_ok_jobs reachable_ok)
  have row: "job_row_ok (u_id ` set (users d)) (nodes d) j"
    using js assms(2) by (simp add: jobs_ok_def)
  obtain nd where nd: "nd \<in> set (nodes d)" "j_assigned_node_id j = Some (n_id nd)"
    using row assms(3) by (auto simp: job_row_ok_def job_ok_def ref_in_def)
  have fits: "j_gpu_count j \<le> n_gpu_count nd \<and>
      (j_preferred_node_id j = None \<or> j_preferred_node_id j = Some (n_id nd))"
    using row assms(3) nd by (simp add: job_row_ok_def job_fits_def)
  have alone: "k = j" if k: "k \<in> set (jobs d)" "running_on (n_id nd) k" for k
  proof -
    have "j_status k = RUNNING" "j_assigned_node_id k = j_assigned_node_id j"
      using k(2) nd(2) by (simp_all add: running_on_def job_status_literals)
    moreover have "one_running (jobs d)" using js by (simp add: jobs_ok_def)
    ultimately have "j_id k = j_id j" using k(1) assms(2,3) unfolding one_running_def by blast
    moreover have "inj_on j_id (set (jobs d))" using jobs_ok_distinct [OF js] by (simp add: distinct_map)
    ultimately show ?thesis using k(1) assms(2) by (meson inj_onD)
  qed
  show ?thesis using nd fits alone by blast
qed

theorem running_job_placed_witness:
  "\<exists>nd \<in> set (nodes demo_running). running_on (n_id nd) (hd (jobs demo_running))"
proof -
  have h: "hd (jobs demo_running) \<in> set (jobs demo_running)"
    "j_status (hd (jobs demo_running)) = RUNNING" by code_simp+
  from running_job_placed [OF reachable_demo(1) h] h(2) show ?thesis
    by (auto simp: running_on_def job_status_literals)
qed

section \<open>Properties of every run\<close>

text \<open>
  C3. The jobs of the program implement the abstract life cycle: under any action a job of
  a reachable database is still there, with what it was submitted with, and its phase is the
  same or one step of the machine further; so its status changes along the allowed transitions
  only.
\<close>

theorem job_refines_machine:
  assumes "reachable d" and "find_job i d = Some j"
  shows "\<exists>j'. find_job i (execute a d) = Some j' \<and> same_order j j' \<and>
    (job_phase j' = job_phase j \<or> phase_step (job_phase j) (job_phase j')) \<and>
    (j_status j' = j_status j \<or> (j_status j, j_status j') \<in> ALLOWED_TRANSITIONS)"
proof -
  obtain j' where j': "find_job i (execute a d) = Some j'" "job_evolves j j'"
    using action_evolves [OF reachable_ok [OF assms(1)] assms(2)] by blast
  then have "job_phase j' = job_phase j \<or> phase_step (job_phase j) (job_phase j')"
    by (simp add: job_evolves_def)
  then have "j_status j' = j_status j \<or> (j_status j, j_status j') \<in> ALLOWED_TRANSITIONS"
    using phase_step_allowed [of "job_phase j" "job_phase j'"] by (auto simp: status_of_phase)
  with j' show ?thesis by (auto simp: job_evolves_def)
qed

theorem job_refines_machine_witness:
  "\<exists>j'. find_job 96 demo_running = Some j' \<and> same_order demo_job j'"
proof -
  have "find_job 96 demo_queued = Some demo_job" by code_simp
  from job_refines_machine [OF reachable_demo_queued this, of demo_claim] show ?thesis
    by (auto simp: demo_steps)
qed

text \<open>
  C4. A finished job is final: after any further sequence of actions it is still in the
  database with the same order and the same outcome (status, exit code, message, times).
\<close>

theorem outcome_final:
  assumes "reachable d" and "find_job i d = Some j" and "j_status j \<in> TERMINAL_STATUSES"
  shows "\<exists>j'. find_job i (run_actions as d) = Some j' \<and> same_order j j' \<and> same_outcome j j'"
  using assms
proof (induction as arbitrary: d j)
  case Nil
  then show ?case by (simp add: same_order_def same_outcome_def)
next
  case (Cons a as)
  obtain k where k: "find_job i (execute a d) = Some k" "job_evolves j k"
    using action_evolves [OF reachable_ok [OF Cons.prems(1)] Cons.prems(2)] by blast
  then have same: "same_order j k" "same_outcome j k"
    using Cons.prems(3) by (auto simp: job_evolves_def)
  then have "j_status k \<in> TERMINAL_STATUSES" using Cons.prems(3) by (simp add: same_outcome_def)
  then obtain j' where "find_job i (run_actions as (execute a d)) = Some j'" "same_order k j'" "same_outcome k j'"
    using Cons.IH [OF reachable_step [OF Cons.prems(1)] k(1)] by blast
  then show ?case using same by (auto simp: same_order_def same_outcome_def)
qed

theorem outcome_final_witness:
  "\<exists>j'. find_job 96 (run_actions [demo_cancel, demo_claim] demo_finished) = Some j' \<and> j_status j' = COMPLETED"
proof -
  have h: "find_job 96 demo_finished = Some (hd (jobs demo_finished))"
    "j_status (hd (jobs demo_finished)) \<in> TERMINAL_STATUSES"
    "j_status (hd (jobs demo_finished)) = COMPLETED" by code_simp+
  from outcome_final [OF reachable_demo(3) h(1,2), of "[demo_cancel, demo_claim]"] h(3)
  show ?thesis by (auto simp: same_outcome_def)
qed

text \<open>
  C8. A request that is answered with an error leaves the committed database as it was, with
  one exception the code makes on purpose: a login with wrong credentials adds its audit event.
\<close>

theorem request_atomic:
  assumes "serve e r q d = (Inl err, d')"
  shows "d' = d \<or> (\<exists>m pw. q = PostLogin m pw) \<and> err = InvalidCredentials \<and> failed_login_recorded d d'"
proof (cases "\<exists>m pw. q = PostLogin m pw")
  case True
  with assms failed_login show ?thesis by blast
next
  case False
  with assms atomic_serve [OF atomic_handle] show ?thesis by blast
qed

theorem request_atomic_witness:
  "snd (serve (demo_env 10) as_user (PostCancel 96) demo_finished) = demo_finished"
proof -
  have "serve (demo_env 10) as_user (PostCancel 96) demo_finished =
      (Inl (InvalidJobTransition COMPLETED CANCELLED), demo_finished)" by code_simp
  from request_atomic [OF this] this show ?thesis by simp
qed

text \<open>
  C18. The audit log is append-only: whatever happens later, the events of a reachable database
  stay, unchanged and in order, at the front of the log.
\<close>

theorem audit_append_only:
  assumes "reachable d"
  shows "\<exists>new. audit_events (run_actions as d) = audit_events d @ new"
proof -
  have "audit_extends d (run_actions as d)"
    using audit_log.step_contract_axioms _ reachable_ok [OF assms] by (rule run_contract) (auto simp: audit_extends_def)
  then show ?thesis by (simp add: audit_extends_def)
qed

theorem audit_append_only_witness:
  "\<exists>new. audit_events demo_finished = audit_events demo_queued @ new \<and> new \<noteq> []"
proof -
  obtain new where "audit_events (run_actions [demo_claim, demo_complete] demo_queued) =
      audit_events demo_queued @ new"
    using audit_append_only [OF reachable_demo_queued] by blast
  then have new: "audit_events demo_finished = audit_events demo_queued @ new" by (simp add: demo_steps)
  moreover have "audit_events demo_finished \<noteq> audit_events demo_queued"
    by (simp add: demo_finished_def demo_running_def)
  ultimately show ?thesis by auto
qed

text \<open>
  C19. Credits come from administrators only: over any run without an approval no user
  disappears or changes address, and every user's credits stay between zero and what they were.
\<close>

theorem credits_only_by_approval:
  assumes "reachable d" and "find_user i d = Some u"
    and "\<forall>a \<in> set as. \<forall>e r k host c. a \<noteq> Http e r (PostApprove k host c)"
  shows "\<exists>u'. find_user i (run_actions as d) = Some u' \<and> u_email u' = u_email u \<and>
    0 \<le> u_credits_gpu_hours u' \<and> u_credits_gpu_hours u' \<le> u_credits_gpu_hours u"
  using assms
proof (induction as arbitrary: d u)
  case Nil
  then show ?case using credits_nonneg [OF reachable_ok] by simp
next
  case (Cons a as)
  have "credits_fall d (execute a d)"
    using Cons.prems by (intro credits.executed_other reachable_ok) auto
  then obtain v where "find_user i (execute a d) = Some v" "u_email v = u_email u"
    "u_credits_gpu_hours v \<le> u_credits_gpu_hours u"
    using Cons.prems(2) unfolding credits_fall_def by blast
  with Cons.IH [OF reachable_step [OF Cons.prems(1)], of a v] Cons.prems(3) show ?case by fastforce
qed

theorem credits_only_by_approval_witness:
  "\<exists>u'. find_user 16 demo_finished = Some u' \<and> u_credits_gpu_hours u' \<le> 40"
proof -
  have h: "find_user 16 demo_queued = Some demo_user" "u_credits_gpu_hours demo_user = 40" by code_simp+
  have run: "run_actions [demo_claim, demo_complete] demo_queued = demo_finished"
    by (simp add: demo_steps del: execute.simps)
  from credits_only_by_approval [OF reachable_demo_queued h(1), of "[demo_claim, demo_complete]"] h(2)
  show ?thesis unfolding run by (auto simp: demo_claim_def demo_complete_def)
qed

end
